(* ===== verification/BridgePrelude.thy ===== *)
theory BridgePrelude
  imports Main "HOL-Library.Word"
begin

text \<open>
  What every component shares: the machine integers of the Go code, programs over an explicit
  state (an outcome and the new state, or no answer at all when a loop never ends), and a small
  calculus of properties of such programs that is closed under sequencing: a program \<^emph>\<open>keeps\<close> a
  part of the state, \<^emph>\<open>preserves\<close> an invariant, \<^emph>\<open>returns\<close> on every state, never \<^emph>\<open>crashes\<close>.
\<close>

section \<open>Machine integers and bytes\<close>

type_synonym int64 = "64 word"
type_synonym uint64 = "64 word"
type_synonym uint32 = "32 word"

text \<open>A Go \<open>string\<close> and a \<open>[]byte\<close> are both byte sequences: lists of 8-bit characters.\<close>

type_synonym bytes = "char list"

section \<open>Error values\<close>

text \<open>
  The sentinel errors of \<open>pkg/config.go\<close>, the one sentinel of the client library that the code
  compares against, the error of a cancelled context, errors made by the program with
  \<open>errors.New\<close> or \<open>fmt.Errorf\<close> (with their text), errors made by a library, and
  \<open>errors.Wrap\<close>, which keeps its cause.
\<close>

datatype error =
    ErrTransactionAlreadyRefunded
  | ErrTransactionAlreadyMinted
  | ErrTransactionAlreadyBurned
  | ErrNoSignatures
  | ErrMintTransactionNotFound
  | ContextCanceled
  | ErrorString string
  | LibraryError string
  | Wrapped string error

text \<open>\<open>errors.Is\<close>: the error itself or one of the causes it wraps.\<close>

fun errors_Is :: "error \<Rightarrow> error \<Rightarrow> bool" where
  "errors_Is (Wrapped m e) target = (Wrapped m e = target \<or> errors_Is e target)"
| "errors_Is e target = (e = target)"

lemma errors_Is_refl [simp]: "errors_Is e e"
  by (cases e) auto

section \<open>Programs\<close>

text \<open>
  A Go function that returns \<open>(T, error)\<close> and changes state: \<open>Ok\<close> for a nil error, \<open>Err\<close> for an
  error (the state changes made before it stay), \<open>Crash\<close> for a panic or \<open>log.Fatal\<close>. The value
  \<open>None\<close> of a program is a call that never returns.
\<close>

datatype 'a outcome = Ok 'a | Err error | Crash

type_synonym ('s, 'a) prog = "'s \<Rightarrow> ('a outcome \<times> 's) option"

definition returnM :: "'a \<Rightarrow> ('s, 'a) prog" where
  "returnM a s = Some (Ok a, s)"

definition failM :: "error \<Rightarrow> ('s, 'a) prog" where
  "failM e s = Some (Err e, s)"

definition crashM :: "('s, 'a) prog" where
  "crashM s = Some (Crash, s)"

text \<open>\<open>x, err := m; if err != nil { return err }\<close>, and then the rest.\<close>

definition bindM :: "('s, 'a) prog \<Rightarrow> ('a \<Rightarrow> ('s, 'b) prog) \<Rightarrow> ('s, 'b) prog" where
  "bindM m k s =
     (case m s of
        None \<Rightarrow> None
      | Some (Ok a, s') \<Rightarrow> k a s'
      | Some (Err e, s') \<Rightarrow> Some (Err e, s')
      | Some (Crash, s') \<Rightarrow> Some (Crash, s'))"

text \<open>\<open>x, err := m\<close> where the code looks at the error itself.\<close>

definition tryM :: "('s, 'a) prog \<Rightarrow> (error + 'a \<Rightarrow> ('s, 'b) prog) \<Rightarrow> ('s, 'b) prog" where
  "tryM m k s =
     (case m s of
        None \<Rightarrow> None
      | Some (Ok a, s') \<Rightarrow> k (Inr a) s'
      | Some (Err e, s') \<Rightarrow> k (Inl e) s'
      | Some (Crash, s') \<Rightarrow> Some (Crash, s'))"

definition getM :: "('s \<Rightarrow> 'a) \<Rightarrow> ('s, 'a) prog" where
  "getM f s = Some (Ok (f s), s)"

definition modifyM :: "('s \<Rightarrow> 's) \<Rightarrow> ('s, unit) prog" where
  "modifyM f s = Some (Ok (), f s)"

definition liftE :: "error + 'a \<Rightarrow> ('s, 'a) prog" where
  "liftE r s = (case r of Inl e \<Rightarrow> Some (Err e, s) | Inr a \<Rightarrow> Some (Ok a, s))"

text \<open>The error that a program returned, as Go sees it: \<open>None\<close> is nil.\<close>

definition err_of :: "error + 'a \<Rightarrow> error option" where
  "err_of r = (case r of Inl e \<Rightarrow> Some e | Inr _ \<Rightarrow> None)"

named_theorems prog_defs \<open>definitions of the program combinators\<close>

lemmas [prog_defs] = returnM_def failM_def crashM_def bindM_def tryM_def getM_def modifyM_def liftE_def

subsection \<open>Laws\<close>

lemma bindM_returnM [simp]: "bindM (returnM a) k = k a"
  and bindM_failM [simp]: "bindM (failM e) k = failM e"
  and bindM_crashM [simp]: "bindM crashM k = crashM"
  by (auto simp: prog_defs fun_eq_iff)

lemma liftE_simps [simp]: "liftE (Inr a) = returnM a" "liftE (Inl e) = failM e"
  by (auto simp: prog_defs fun_eq_iff)

lemma liftE_Some_iff: "liftE r s = Some (Ok a, t) \<longleftrightarrow> r = Inr a \<and> t = s"
  by (cases r) (auto simp: prog_defs)

lemma bindM_assoc: "bindM (bindM m f) g = bindM m (\<lambda>x. bindM (f x) g)"
  by (auto simp: bindM_def fun_eq_iff split: option.splits outcome.splits)

lemma bindM_return_right [simp]: "bindM m returnM = m"
  by (auto simp: bindM_def returnM_def fun_eq_iff split: option.splits outcome.splits)

lemma bindM_step:
  "m s = Some (Ok a, s') \<Longrightarrow> bindM m k s = k a s'"
  "m s = Some (Err e, s') \<Longrightarrow> bindM m k s = Some (Err e, s')"
  "m s = Some (Crash, s') \<Longrightarrow> bindM m k s = Some (Crash, s')"
  "m s = None \<Longrightarrow> bindM m k s = None"
  by (simp_all add: bindM_def)

lemma tryM_step:
  "m s = Some (Ok a, s') \<Longrightarrow> tryM m k s = k (Inr a) s'"
  "m s = Some (Err e, s') \<Longrightarrow> tryM m k s = k (Inl e) s'"
  "m s = Some (Crash, s') \<Longrightarrow> tryM m k s = Some (Crash, s')"
  "m s = None \<Longrightarrow> tryM m k s = None"
  by (simp_all add: tryM_def)

lemma bindM_Ok_iff:
  "bindM m k s = Some (Ok b, t) \<longleftrightarrow> (\<exists>a s'. m s = Some (Ok a, s') \<and> k a s' = Some (Ok b, t))"
  by (auto simp: bindM_def split: option.splits outcome.splits)

lemma bindM_Some_iff:
  "bindM m k s = Some (r, t) \<longleftrightarrow>
     (\<exists>a s'. m s = Some (Ok a, s') \<and> k a s' = Some (r, t)) \<or>
     (\<exists>e. m s = Some (Err e, t) \<and> r = Err e) \<or> (m s = Some (Crash, t) \<and> r = Crash)"
  by (auto simp: bindM_def split: option.splits outcome.splits)

lemma tryM_Some_iff:
  "tryM m k s = Some (r, t) \<longleftrightarrow>
     (\<exists>a s'. m s = Some (Ok a, s') \<and> k (Inr a) s' = Some (r, t)) \<or>
     (\<exists>e s'. m s = Some (Err e, s') \<and> k (Inl e) s' = Some (r, t)) \<or>
     (m s = Some (Crash, t) \<and> r = Crash)"
  by (auto simp: tryM_def split: option.splits outcome.splits)

lemma returnM_Some_iff [simp]: "returnM a s = Some (r, t) \<longleftrightarrow> r = Ok a \<and> t = s"
  and failM_Some_iff [simp]: "failM e s = Some (q, t) \<longleftrightarrow> q = Err e \<and> t = s"
  and crashM_Some_iff [simp]: "crashM s = Some (q, t) \<longleftrightarrow> q = Crash \<and> t = s"
  and getM_Some_iff [simp]: "getM f s = Some (p, t) \<longleftrightarrow> p = Ok (f s) \<and> t = s"
  and modifyM_Some_iff [simp]: "modifyM g s = Some (u, t) \<longleftrightarrow> u = Ok () \<and> t = g s"
  by (auto simp: prog_defs)

section \<open>Properties of programs\<close>

text \<open>
  The part \<open>f\<close> of the state is the same after the program as before it, whatever its outcome;
  an invariant \<open>P\<close> survives it; it returns from every state; it never crashes.
\<close>

definition keeps :: "('s \<Rightarrow> 'b) \<Rightarrow> ('s, 'a) prog \<Rightarrow> bool" where
  "keeps f m \<longleftrightarrow> (\<forall>s r t. m s = Some (r, t) \<longrightarrow> f t = f s)"

definition preserves :: "('s \<Rightarrow> bool) \<Rightarrow> ('s, 'a) prog \<Rightarrow> bool" where
  "preserves P m \<longleftrightarrow> (\<forall>s r t. P s \<longrightarrow> m s = Some (r, t) \<longrightarrow> P t)"

definition returns :: "('s, 'a) prog \<Rightarrow> bool" where
  "returns m \<longleftrightarrow> (\<forall>s. m s \<noteq> None)"

definition crash_free :: "('s, 'a) prog \<Rightarrow> bool" where
  "crash_free m \<longleftrightarrow> (\<forall>s t. m s \<noteq> Some (Crash, t))"

named_theorems keeps_rules \<open>how the combinators keep a part of the state\<close>
named_theorems preserves_rules \<open>how the combinators preserve an invariant\<close>
named_theorems returns_rules \<open>when the combinators return\<close>
named_theorems crash_free_rules \<open>when the combinators do not crash\<close>

lemma keepsD: "keeps f m \<Longrightarrow> m s = Some (r, t) \<Longrightarrow> f t = f s"
  by (simp add: keeps_def)

lemma preservesD: "preserves P m \<Longrightarrow> P s \<Longrightarrow> m s = Some (r, t) \<Longrightarrow> P t"
  by (simp add: preserves_def)

lemma returnsE: "returns m \<Longrightarrow> (\<And>r t. m s = Some (r, t) \<Longrightarrow> C) \<Longrightarrow> C"
  unfolding returns_def by (metis not_Some_eq surj_pair)

lemma crash_freeD: "crash_free m \<Longrightarrow> m s \<noteq> Some (Crash, t)"
  by (simp add: crash_free_def)

lemma keeps_basic [keeps_rules]:
  "keeps f (returnM a)" "keeps f (failM e)" "keeps f crashM" "keeps f (getM g)" "keeps f (liftE r)"
  by (auto simp: keeps_def prog_defs split: sum.splits)

lemma keeps_bindM [keeps_rules]: "keeps f m \<Longrightarrow> (\<And>a. keeps f (k a)) \<Longrightarrow> keeps f (bindM m k)"
  unfolding keeps_def bindM_Some_iff by metis

lemma keeps_tryM [keeps_rules]: "keeps f m \<Longrightarrow> (\<And>a. keeps f (k a)) \<Longrightarrow> keeps f (tryM m k)"
  unfolding keeps_def tryM_Some_iff by metis

lemma keeps_modifyM: "(\<And>s. f (g s) = f s) \<Longrightarrow> keeps f (modifyM g)"
  by (auto simp: keeps_def)

lemma keeps_if [keeps_rules]: "keeps f a \<Longrightarrow> keeps f b \<Longrightarrow> keeps f (if c then a else b)"
  and keeps_sum [keeps_rules]:
    "(\<And>e. keeps f (g e)) \<Longrightarrow> (\<And>a. keeps f (h a)) \<Longrightarrow> keeps f (case x of Inl e \<Rightarrow> g e | Inr a \<Rightarrow> h a)"
  and keeps_option [keeps_rules]:
    "keeps f n \<Longrightarrow> (\<And>a. keeps f (j a)) \<Longrightarrow> keeps f (case y of None \<Rightarrow> n | Some a \<Rightarrow> j a)"
  and keeps_prod [keeps_rules]:
    "(\<And>a b. keeps f (q a b)) \<Longrightarrow> keeps f (case z of (a, b) \<Rightarrow> q a b)"
  by (auto split: sum.splits option.splits prod.splits)

lemma preserves_basic [preserves_rules]:
  "preserves P (returnM a)" "preserves P (failM e)" "preserves P crashM" "preserves P (getM g)"
  "preserves P (liftE r)"
  by (auto simp: preserves_def prog_defs split: sum.splits)

lemma preserves_bindM [preserves_rules]:
  "preserves P m \<Longrightarrow> (\<And>a. preserves P (k a)) \<Longrightarrow> preserves P (bindM m k)"
  unfolding preserves_def bindM_Some_iff by blast

lemma preserves_tryM [preserves_rules]:
  "preserves P m \<Longrightarrow> (\<And>a. preserves P (k a)) \<Longrightarrow> preserves P (tryM m k)"
  unfolding preserves_def tryM_Some_iff by blast

lemma preserves_modifyM: "(\<And>s. P s \<Longrightarrow> P (g s)) \<Longrightarrow> preserves P (modifyM g)"
  by (auto simp: preserves_def)

lemma preserves_if [preserves_rules]:
    "preserves P a \<Longrightarrow> preserves P b \<Longrightarrow> preserves P (if c then a else b)"
  and preserves_sum [preserves_rules]:
    "(\<And>e. preserves P (g e)) \<Longrightarrow> (\<And>a. preserves P (h a)) \<Longrightarrow>
       preserves P (case x of Inl e \<Rightarrow> g e | Inr a \<Rightarrow> h a)"
  and preserves_option [preserves_rules]:
    "preserves P n \<Longrightarrow> (\<And>a. preserves P (j a)) \<Longrightarrow>
       preserves P (case y of None \<Rightarrow> n | Some a \<Rightarrow> j a)"
  and preserves_prod [preserves_rules]:
    "(\<And>a b. preserves P (q a b)) \<Longrightarrow> preserves P (case z of (a, b) \<Rightarrow> q a b)"
  by (auto split: sum.splits option.splits prod.splits)

lemma keeps_preserves: "keeps f m \<Longrightarrow> preserves (\<lambda>s. Q (f s)) m"
  by (auto simp: keeps_def preserves_def)

lemma returns_basic [returns_rules]:
  "returns (returnM a)" "returns (failM e)" "returns crashM" "returns (getM g)"
  "returns (modifyM h)" "returns (liftE r)"
  by (auto simp: returns_def prog_defs split: sum.splits)

lemma returns_bindM [returns_rules]: "returns m \<Longrightarrow> (\<And>a. returns (k a)) \<Longrightarrow> returns (bindM m k)"
  by (auto simp: returns_def bindM_def split: option.splits outcome.splits)

lemma returns_tryM [returns_rules]: "returns m \<Longrightarrow> (\<And>a. returns (k a)) \<Longrightarrow> returns (tryM m k)"
  by (auto simp: returns_def tryM_def split: option.splits outcome.splits)

lemma returns_if [returns_rules]: "returns a \<Longrightarrow> returns b \<Longrightarrow> returns (if c then a else b)"
  and returns_sum [returns_rules]:
    "(\<And>e. returns (g e)) \<Longrightarrow> (\<And>a. returns (h a)) \<Longrightarrow> returns (case x of Inl e \<Rightarrow> g e | Inr a \<Rightarrow> h a)"
  and returns_option [returns_rules]:
    "returns n \<Longrightarrow> (\<And>a. returns (j a)) \<Longrightarrow> returns (case y of None \<Rightarrow> n | Some a \<Rightarrow> j a)"
  and returns_prod [returns_rules]:
    "(\<And>a b. returns (q a b)) \<Longrightarrow> returns (case z of (a, b) \<Rightarrow> q a b)"
  by (auto split: sum.splits option.splits prod.splits)

lemma crash_free_basic [crash_free_rules]:
  "crash_free (returnM a)" "crash_free (failM e)" "crash_free (getM g)"
  "crash_free (modifyM h)" "crash_free (liftE r)"
  by (auto simp: crash_free_def prog_defs split: sum.splits)

lemma crash_free_bindM [crash_free_rules]:
  "crash_free m \<Longrightarrow> (\<And>a. crash_free (k a)) \<Longrightarrow> crash_free (bindM m k)"
  by (auto simp: crash_free_def bindM_def split: option.splits outcome.splits)

lemma crash_free_tryM [crash_free_rules]:
  "crash_free m \<Longrightarrow> (\<And>a. crash_free (k a)) \<Longrightarrow> crash_free (tryM m k)"
  by (auto simp: crash_free_def tryM_def split: option.splits outcome.splits)

lemma crash_free_if [crash_free_rules]:
    "crash_free a \<Longrightarrow> crash_free b \<Longrightarrow> crash_free (if c then a else b)"
  and crash_free_sum [crash_free_rules]:
    "(\<And>e. crash_free (g e)) \<Longrightarrow> (\<And>a. crash_free (h a)) \<Longrightarrow>
       crash_free (case x of Inl e \<Rightarrow> g e | Inr a \<Rightarrow> h a)"
  and crash_free_option [crash_free_rules]:
    "crash_free n \<Longrightarrow> (\<And>a. crash_free (j a)) \<Longrightarrow> crash_free (case y of None \<Rightarrow> n | Some a \<Rightarrow> j a)"
  and crash_free_prod [crash_free_rules]:
    "(\<And>a b. crash_free (q a b)) \<Longrightarrow> crash_free (case z of (a, b) \<Rightarrow> q a b)"
  by (auto split: sum.splits option.splits prod.splits)

end
