(* ===== verification/GoCodec.thy ===== *)
theory GoCodec
  imports GoStrings
begin

text \<open>
  The encodings of Go's standard library between bytes, numbers and text that the wallet uses:
  \<open>encoding/hex\<close> and the copy into the 32-byte memo of a refund, \<open>encoding/base64\<close> for
  signatures, and \<open>big.Rat.FloatString\<close> for the amount of a payment.
\<close>

section \<open>encoding/hex\<close>

definition from_hex_char :: "char \<Rightarrow> nat option" where
  "from_hex_char c =
     (let n = of_char c :: nat in
      if 48 \<le> n \<and> n \<le> 57 then Some (n - 48)
      else if 97 \<le> n \<and> n \<le> 102 then Some (n - 97 + 10)
      else if 65 \<le> n \<and> n \<le> 70 then Some (n - 65 + 10)
      else None)"

text \<open>
  \<open>hex.DecodeString\<close>: pairs of digits; a wrong character is an error, and so is a character left
  over (\<open>ErrLength\<close>, or the invalid-byte error when that character is itself no digit).
\<close>

fun hex_DecodeString :: "string \<Rightarrow> error + bytes" where
  "hex_DecodeString [] = Inr []"
| "hex_DecodeString [c] =
     (case from_hex_char c of
        None \<Rightarrow> Inl (LibraryError ''encoding/hex: invalid byte'')
      | Some _ \<Rightarrow> Inl (LibraryError ''encoding/hex: odd length hex string''))"
| "hex_DecodeString (c # d # cs) =
     (case (from_hex_char c, from_hex_char d) of
        (Some h, Some l) \<Rightarrow>
          (case hex_DecodeString cs of
             Inl e \<Rightarrow> Inl e
           | Inr bs \<Rightarrow> Inr (char_of (16 * h + l) # bs))
      | _ \<Rightarrow> Inl (LibraryError ''encoding/hex: invalid byte''))"

text \<open>The hexadecimal spelling of bytes, in which Horizon and the chain write transaction hashes.\<close>

definition hex_digit :: "nat \<Rightarrow> char" where
  "hex_digit d = (if d < 10 then char_of (48 + d) else char_of (87 + d))"

definition hex_EncodeToString :: "bytes \<Rightarrow> string" where
  "hex_EncodeToString bs =
     concat (map (\<lambda>b. [hex_digit (of_char b div 16), hex_digit (of_char b mod 16)]) bs)"

lemma from_hex_digit [simp]: "d < 16 \<Longrightarrow> from_hex_char (hex_digit d) = Some d"
  by (auto simp: from_hex_char_def hex_digit_def Let_def)

lemma hex_decode_encode: "hex_DecodeString (hex_EncodeToString bs) = Inr bs"
proof (induction bs)
  case Nil
  then show ?case by (simp add: hex_EncodeToString_def)
next
  case (Cons b bs)
  have b: "(of_char b :: nat) div 16 < 16" using nat_of_char_less_256 [of b] by linarith
  have "char_of (16 * ((of_char b :: nat) div 16) + of_char b mod 16) = b"
    by (simp only: mult_div_mod_eq char_of_char)
  with Cons b show ?case by (simp add: hex_EncodeToString_def)
qed

lemma length_hex_decode: "hex_DecodeString cs = Inr bs \<Longrightarrow> length cs = 2 * length bs"
  by (induction cs arbitrary: bs rule: hex_DecodeString.induct)
     (auto split: option.splits sum.splits)

section \<open>copy into a [32]byte\<close>

text \<open>\<open>var memo [32]byte; copy(memo[:], bs)\<close>: zero bytes fill what the source does not cover.\<close>

definition copy32 :: "bytes \<Rightarrow> bytes" where
  "copy32 bs = take 32 bs @ replicate (32 - length bs) (char_of (0 :: nat))"

lemma length_copy32 [simp]: "length (copy32 bs) = 32"
  by (simp add: copy32_def)

lemma copy32_id: "length bs = 32 \<Longrightarrow> copy32 bs = bs"
  by (simp add: copy32_def)

section \<open>encoding/base64\<close>

definition base64_alphabet :: string where
  "base64_alphabet = ''ABCDEFGHIJKLMNOPQRSTUVWXYZabcdefghijklmnopqrstuvwxyz0123456789+/''"

definition b64_char :: "nat \<Rightarrow> char" where
  "b64_char n = base64_alphabet ! n"

text \<open>\<open>base64.StdEncoding.EncodeToString\<close>: three bytes to four characters, the rest padded.\<close>

fun base64_EncodeToString :: "bytes \<Rightarrow> string" where
  "base64_EncodeToString [] = []"
| "base64_EncodeToString [a] =
     (let n = 65536 * of_char a :: nat
      in [b64_char (n div 262144), b64_char (n div 4096 mod 64), CHR ''='', CHR ''=''])"
| "base64_EncodeToString [a, b] =
     (let n = 65536 * of_char a + 256 * of_char b :: nat
      in [b64_char (n div 262144), b64_char (n div 4096 mod 64), b64_char (n div 64 mod 64), CHR ''=''])"
| "base64_EncodeToString (a # b # c # cs) =
     (let n = 65536 * of_char a + 256 * of_char b + of_char c :: nat
      in b64_char (n div 262144) # b64_char (n div 4096 mod 64) # b64_char (n div 64 mod 64)
           # b64_char (n mod 64) # base64_EncodeToString cs)"

lemma length_base64: "length (base64_EncodeToString bs) = 4 * ((length bs + 2) div 3)"
proof (induction bs rule: base64_EncodeToString.induct)
  case (4 a b c cs)
  have "(length (a # b # c # cs) + 2) div 3 = Suc ((length cs + 2) div 3)"
    using div_add_self2 [of 3 "length cs + 2"] by simp
  with 4 show ?case by (simp add: Let_def)
qed (simp_all add: Let_def)

text \<open>The inverse, as the receiver of a signature decodes it; the encoding loses nothing.\<close>

definition b64_val :: "char \<Rightarrow> nat" where
  "b64_val c = length (takeWhile (\<lambda>x. x \<noteq> c) base64_alphabet)"

fun base64_decode :: "string \<Rightarrow> bytes" where
  "base64_decode (p # q # r # s # cs) =
     (let u = 262144 * b64_val p + 4096 * b64_val q in
      if r = CHR ''='' then [char_of (u div 65536)]
      else
        (let v = u + 64 * b64_val r in
         if s = CHR ''='' then [char_of (v div 65536), char_of (v div 256)]
         else (let w = v + b64_val s in
               char_of (w div 65536) # char_of (w div 256) # char_of w # base64_decode cs)))"
| "base64_decode _ = []"

lemma b64_alphabet_facts:
  "n < 64 \<Longrightarrow> b64_val (b64_char n) = n" "n < 64 \<Longrightarrow> b64_char n \<noteq> CHR ''=''"
proof -
  have "list_all (\<lambda>n. b64_val (b64_char n) = n \<and> b64_char n \<noteq> CHR ''='') [0..<64]"
    by code_simp
  then show "n < 64 \<Longrightarrow> b64_val (b64_char n) = n" "n < 64 \<Longrightarrow> b64_char n \<noteq> CHR ''=''"
    by (auto simp: list_all_iff)
qed

lemma char_of_div:
  "(65536 * of_char a + 256 * of_char b + of_char c) div 65536 = (of_char a :: nat)"
  "char_of ((65536 * of_char a + 256 * of_char b + of_char c :: nat) div 256) = b"
  "char_of (65536 * of_char a + 256 * of_char b + of_char c :: nat) = c"
proof -
  have abc: "of_char a < (256 :: nat)" "of_char b < (256 :: nat)" "of_char c < (256 :: nat)" by simp_all
  show "(65536 * of_char a + 256 * of_char b + of_char c) div 65536 = (of_char a :: nat)"
    using abc by linarith
  have "(65536 * of_char a + 256 * of_char b + of_char c) div 256 = of_char b + 256 * (of_char a :: nat)"
    using abc by linarith
  then have "char_of ((65536 * of_char a + 256 * of_char b + of_char c :: nat) div 256)
      = char_of ((of_char b + 256 * of_char a) mod 256 :: nat)"
    by (simp only: char_of_mod_256)
  then show "char_of ((65536 * of_char a + 256 * of_char b + of_char c :: nat) div 256) = b"
    by (simp only: mod_mult_self2 of_char_mod_256 char_of_char)
  have "(65536 * of_char a + 256 * of_char b + of_char c :: nat)
      = of_char c + 256 * (256 * of_char a + of_char b)" by simp
  then have "char_of (65536 * of_char a + 256 * of_char b + of_char c :: nat)
      = char_of ((of_char c + 256 * (256 * of_char a + of_char b)) mod 256 :: nat)"
    by (simp only: char_of_mod_256)
  then show "char_of (65536 * of_char a + 256 * of_char b + of_char c :: nat) = c"
    by (simp only: mod_mult_self2 of_char_mod_256 char_of_char)
qed

lemma sextets:
  fixes n :: nat
  assumes "n < 16777216"
  shows "n div 262144 < 64" "n div 4096 mod 64 < 64" "n div 64 mod 64 < 64" "n mod 64 < 64"
    and "262144 * (n div 262144) + 4096 * (n div 4096 mod 64) + 64 * (n div 64 mod 64) + n mod 64 = n"
    and "n mod 64 = 0 \<Longrightarrow>
      262144 * (n div 262144) + 4096 * (n div 4096 mod 64) + 64 * (n div 64 mod 64) = n"
    and "n mod 4096 = 0 \<Longrightarrow> 262144 * (n div 262144) + 4096 * (n div 4096 mod 64) = n"
proof -
  have d2: "n div 4096 = n div 64 div 64" and d3: "n div 262144 = n div 4096 div 64"
    using div_mult2_eq [of n 64 64] div_mult2_eq [of n 4096 64] by simp_all
  have e1: "64 * (n div 64) + n mod 64 = n"
    and e2: "64 * (n div 4096) + n div 64 mod 64 = n div 64"
    and e3: "64 * (n div 262144) + n div 4096 mod 64 = n div 4096"
    using mult_div_mod_eq [of 64 n] mult_div_mod_eq [of 64 "n div 64"]
      mult_div_mod_eq [of 64 "n div 4096"] d2 d3 by simp_all
  show "n div 262144 < 64" using assms by linarith
  show "n div 4096 mod 64 < 64" "n div 64 mod 64 < 64" "n mod 64 < 64" by simp_all
  show whole: "262144 * (n div 262144) + 4096 * (n div 4096 mod 64) + 64 * (n div 64 mod 64)
      + n mod 64 = n"
    using e1 e2 e3 by linarith
  then show "n mod 64 = 0 \<Longrightarrow>
      262144 * (n div 262144) + 4096 * (n div 4096 mod 64) + 64 * (n div 64 mod 64) = n"
    by simp
  have "n mod 4096 = 64 * (n div 64 mod 64) + n mod 64"
    using mod_mult2_eq [of n 64 64] by simp
  with whole show "n mod 4096 = 0 \<Longrightarrow> 262144 * (n div 262144) + 4096 * (n div 4096 mod 64) = n"
    by simp
qed

lemma base64_decode_group:
  assumes n: "n < 16777216"
  shows "base64_decode (b64_char (n div 262144) # b64_char (n div 4096 mod 64) # b64_char (n div 64 mod 64)
      # b64_char (n mod 64) # cs) = char_of (n div 65536) # char_of (n div 256) # char_of n # base64_decode cs"
    and "n mod 64 = 0 \<Longrightarrow> base64_decode [b64_char (n div 262144), b64_char (n div 4096 mod 64),
      b64_char (n div 64 mod 64), CHR ''=''] = [char_of (n div 65536), char_of (n div 256)]"
    and "n mod 4096 = 0 \<Longrightarrow> base64_decode [b64_char (n div 262144), b64_char (n div 4096 mod 64),
      CHR ''='', CHR ''=''] = [char_of (n div 65536)]"
  using sextets(5-7) [OF n] sextets(1-4) [OF n]
  by (simp_all only: base64_decode.simps Let_def b64_alphabet_facts if_False if_True refl)

lemma base64_decode_encode: "base64_decode (base64_EncodeToString bs) = bs"
proof (induction bs rule: base64_EncodeToString.induct)
  case 1
  then show ?case by simp
next
  case (2 a)
  let ?n = "65536 * of_char a :: nat"
  have n: "?n < 16777216" using nat_of_char_less_256 [of a] by linarith
  have m: "?n mod 4096 = 0"
    using mod_mult_self1_is_0 [of 4096 "16 * of_char a :: nat"] by simp
  have "char_of (?n div 65536) = a" by simp
  then show ?case
    by (simp only: base64_EncodeToString.simps Let_def base64_decode_group(3) [OF n m])
next
  case (3 a b)
  let ?n = "65536 * of_char a + 256 * of_char b :: nat"
  have n: "?n < 16777216"
    using nat_of_char_less_256 [of a] nat_of_char_less_256 [of b] by linarith
  have m: "?n mod 64 = 0"
    using mod_mult_self1_is_0 [of 64 "1024 * of_char a + 4 * of_char b :: nat"]
    by (simp add: algebra_simps)
  have "char_of (?n div 65536) = a" and "char_of (?n div 256) = b"
    using char_of_div(1,2) [of a b "char_of (0 :: nat)"] by simp_all
  then show ?case
    by (simp only: base64_EncodeToString.simps Let_def base64_decode_group(2) [OF n m])
next
  case (4 a b c cs)
  let ?n = "65536 * of_char a + 256 * of_char b + of_char c :: nat"
  have n: "?n < 16777216"
    using nat_of_char_less_256 [of a] nat_of_char_less_256 [of b] nat_of_char_less_256 [of c]
    by linarith
  show ?case
    by (simp only: base64_EncodeToString.simps Let_def base64_decode_group(1) [OF n] char_of_div
        char_of_char 4)
qed

lemma base64_inject [simp]: "base64_EncodeToString a = base64_EncodeToString b \<longleftrightarrow> a = b"
  by (metis base64_decode_encode)

section \<open>big.Rat.FloatString\<close>

text \<open>
  \<open>big.NewRat(a, b).FloatString(prec)\<close> for positive \<open>b\<close>: the fraction is reduced; an integer prints
  with \<open>prec\<close> zeros; otherwise the quotient, and the remainder scaled to \<open>prec\<close> digits, rounded half
  away from zero with the carry into the quotient, and padded with leading zeros.
\<close>

definition pad_zeros :: "nat \<Rightarrow> string \<Rightarrow> string" where
  "pad_zeros n s = replicate (n - length s) (CHR ''0'') @ s"

definition rat_FloatString :: "int \<Rightarrow> nat \<Rightarrow> nat \<Rightarrow> string" where
  "rat_FloatString a b prec =
     (let g = gcd (nat \<bar>a\<bar>) b; n = nat \<bar>a\<bar> div g; d = b div g;
          sign = (if a < 0 then ''-'' else '''')
      in if d = 1
         then sign @ show_nat n @ (if 0 < prec then CHR ''.'' # replicate prec (CHR ''0'') else [])
         else
           (let q = n div d; p = 10 ^ prec; m = (n mod d) * p; r = m div d; r2 = 2 * (m mod d);
                (q', r') = (if d \<le> r2 then (if p \<le> r + 1 then (q + 1, r + 1 - p) else (q, r + 1))
                            else (q, r))
            in sign @ show_nat q' @
                 (if 0 < prec then CHR ''.'' # pad_zeros prec (show_nat r') else [])))"

text \<open>With a power of ten as the denominator nothing is rounded: the closed form.\<close>

definition fixed_point :: "nat \<Rightarrow> int \<Rightarrow> string" where
  "fixed_point prec a =
     (if a < 0 then ''-'' else []) @ show_nat (nat \<bar>a\<bar> div 10 ^ prec) @
       CHR ''.'' # pad_zeros prec (show_nat (nat \<bar>a\<bar> mod 10 ^ prec))"

lemma pad_zeros_0: "0 < prec \<Longrightarrow> pad_zeros prec (show_nat 0) = replicate prec (CHR ''0'')"
proof -
  assume "0 < prec"
  then obtain k where k: "prec = Suc k" by (cases prec) auto
  have "show_nat 0 = [CHR ''0'']" by code_simp
  with k show ?thesis by (simp add: pad_zeros_def replicate_append_same)
qed

lemma rat_FloatString_pow10:
  assumes prec: "0 < prec"
  shows "rat_FloatString a (10 ^ prec) prec = fixed_point prec a"
proof -
  define A b where "A = nat \<bar>a\<bar>" and "b = (10 :: nat) ^ prec"
  define g where "g = gcd A b"
  have b0: "0 < b" by (simp add: b_def)
  then have g0: "0 < g" by (simp add: g_def)
  obtain n where n: "A = n * g" by (metis g_def gcd_dvd1 dvd_def mult.commute)
  obtain d where d: "b = d * g" by (metis g_def gcd_dvd2 dvd_def mult.commute)
  have nd: "A div g = n" "b div g = d" using n d g0 by simp_all
  have d0: "0 < d" using b0 d by (cases d) auto
  have quot: "A div b = n div d" and rest: "A mod b = (n mod d) * g"
    unfolding n d using g0 by (simp_all add: mult_mod_left)
  have m: "(n mod d) * b = ((n mod d) * g) * d" by (simp add: d)
  then have r: "(n mod d) * b div d = A mod b" "(n mod d) * b mod d = 0"
    unfolding m using d0 rest by simp_all
  show ?thesis
  proof (cases "d = 1")
    case True
    with quot rest have "A div b = n" "A mod b = 0" by simp_all
    with True nd prec show ?thesis
      by (simp add: rat_FloatString_def fixed_point_def Let_def pad_zeros_0
          flip: A_def b_def g_def)
  next
    case False
    have "\<not> d \<le> 2 * ((n mod d) * b mod d)" using r d0 by simp
    with False nd prec r quot show ?thesis
      by (simp add: rat_FloatString_def fixed_point_def Let_def flip: A_def b_def g_def)
  qed
qed

text \<open>Reading a decimal with \<open>prec\<close> fraction digits back, in units of its last digit.\<close>

definition decimal_units :: "nat \<Rightarrow> string \<Rightarrow> int option" where
  "decimal_units prec s =
     (let (neg, u) = (case s of [] \<Rightarrow> (False, []) | c # cs \<Rightarrow> if c = CHR ''-'' then (True, cs) else (False, s))
      in case split_on (CHR ''.'') u of
           [i, f] \<Rightarrow> if i \<noteq> [] \<and> list_all is_digit i \<and> list_all is_digit f \<and> length f = prec
                     then Some ((if neg then -1 else 1) * int (digits_val i * 10 ^ prec + digits_val f))
                     else None
         | _ \<Rightarrow> None)"

lemma digits_val_zeros: "digits_val (replicate k (CHR ''0'') @ s) = digits_val s"
proof -
  have "foldl (\<lambda>n c. 10 * n + digit_val c) 0 (replicate k (CHR ''0'')) = 0"
    by (induction k) (simp_all add: digit_val_def)
  then show ?thesis by (simp add: digits_val_def)
qed

lemma digits_val_pad_zeros [simp]: "digits_val (pad_zeros k s) = digits_val s"
  by (simp add: pad_zeros_def digits_val_zeros)

lemma pad_zeros_digits: "list_all is_digit s \<Longrightarrow> list_all is_digit (pad_zeros k s)"
  by (auto simp: pad_zeros_def list_all_iff is_digit_iff)

lemma length_show_nat: "n < 10 ^ Suc k \<Longrightarrow> length (show_nat n) \<le> Suc k"
proof (induction k arbitrary: n)
  case 0
  then show ?case by (subst show_nat.simps) simp
next
  case (Suc k)
  show ?case
  proof (cases "n < 10")
    case True
    then show ?thesis by (subst show_nat.simps) simp
  next
    case False
    from Suc.prems have "n div 10 < 10 ^ Suc k" by (simp add: less_mult_imp_div_less mult.commute)
    with False Suc.IH show ?thesis by (subst show_nat.simps) simp
  qed
qed

lemma digits_no_dot: "list_all is_digit s \<Longrightarrow> CHR ''.'' \<notin> set s"
  by (auto simp: list_all_iff is_digit_iff)

lemma decimal_units_fixed_point:
  assumes prec: "0 < prec"
  shows "decimal_units prec (fixed_point prec a) = Some a"
proof -
  define i where "i = show_nat (nat \<bar>a\<bar> div 10 ^ prec)"
  define f where "f = pad_zeros prec (show_nat (nat \<bar>a\<bar> mod 10 ^ prec))"
  have di: "list_all is_digit i" "i \<noteq> []" by (simp_all add: i_def show_nat_digits)
  have df: "list_all is_digit f" by (simp add: f_def show_nat_digits pad_zeros_digits)
  obtain k where "prec = Suc k" using prec by (cases prec) auto
  then have lf: "length f = prec"
    using length_show_nat [of "nat \<bar>a\<bar> mod 10 ^ prec" k] by (simp add: f_def pad_zeros_def)
  have sp: "split_on (CHR ''.'') (i @ CHR ''.'' # f) = [i, f]"
    using di df by (simp add: split_on_two_iff digits_no_dot)
  obtain c cs where i: "i = c # cs" using di by (cases i) auto
  with di have "is_digit c" by simp
  then have c: "c \<noteq> CHR ''-''" by (auto simp: is_digit_iff)
  have "digits_val i * 10 ^ prec + digits_val f = nat \<bar>a\<bar>"
    by (simp add: i_def f_def div_mult_mod_eq)
  then have val: "int (digits_val i * 10 ^ prec + digits_val f) = \<bar>a\<bar>" by simp
  have fp: "fixed_point prec a = (if a < 0 then ''-'' else []) @ i @ CHR ''.'' # f"
    by (simp add: fixed_point_def i_def f_def)
  show ?thesis
  proof (cases "a < 0")
    case True
    with fp sp di df lf val show ?thesis
      by (simp only: decimal_units_def Let_def) (auto simp del: of_nat_add of_nat_mult)
  next
    case False
    with fp c i have "fixed_point prec a = c # cs @ CHR ''.'' # f" by simp
    with False sp di df lf val c i show ?thesis
      by (simp only: decimal_units_def Let_def) (auto simp del: of_nat_add of_nat_mult)
  qed
qed

end
