(* ===== verification/GoJson.thy ===== *)
theory GoJson
  imports GoCodec
begin

text \<open>
  The part of Go's \<open>encoding/json\<close> behind \<open>pkg/persistency.go\<close>: the encoding of a string and the
  decoding of a document (syntax, nesting limit, string escapes, invalid UTF-8), each as the library
  defines it. A document is parsed into a value first, as \<open>json.Unmarshal\<close> checks the syntax of the
  whole input before it stores anything.
\<close>

abbreviation ascii :: "char \<Rightarrow> nat" where
  "ascii c \<equiv> of_char c"

section \<open>UTF-8\<close>

text \<open>
  The continuation bytes of the rune that starts with this non-ASCII byte: \<open>None\<close> when no valid
  encoding starts here.
\<close>

definition utf8_more :: "char \<Rightarrow> string \<Rightarrow> nat option" where
  "utf8_more c cs =
     (let n = ascii c; b = map ascii (take 3 cs);
          cont = (\<lambda>k. k < length b \<and> 128 \<le> b ! k \<and> b ! k \<le> 191);
          second = (\<lambda>lo hi. 0 < length b \<and> lo \<le> b ! 0 \<and> b ! 0 \<le> hi) in
      if 194 \<le> n \<and> n \<le> 223 then (if cont 0 then Some 1 else None)
      else if 224 \<le> n \<and> n \<le> 239
        then (if second (if n = 224 then 160 else 128) (if n = 237 then 159 else 191) \<and> cont 1
              then Some 2 else None)
      else if 240 \<le> n \<and> n \<le> 244
        then (if second (if n = 240 then 144 else 128) (if n = 244 then 143 else 191) \<and> cont 1 \<and> cont 2
              then Some 3 else None)
      else None)"

definition utf8_encode :: "nat \<Rightarrow> bytes" where
  "utf8_encode r =
     (if r < 128 then [char_of r]
      else if r < 2048 then [char_of (192 + r div 64), char_of (128 + r mod 64)]
      else if r < 65536
        then [char_of (224 + r div 4096), char_of (128 + r div 64 mod 64), char_of (128 + r mod 64)]
      else [char_of (240 + r div 262144), char_of (128 + r div 4096 mod 64),
            char_of (128 + r div 64 mod 64), char_of (128 + r mod 64)])"

definition replacement :: bytes where
  "replacement = utf8_encode 65533"

section \<open>Encoding a string\<close>

definition hex2 :: "nat \<Rightarrow> string" where
  "hex2 n = [hex_digit (n div 16), hex_digit (n mod 16)]"

text \<open>One ASCII byte between the quotes, with HTML escaping on.\<close>

definition json_escape :: "char \<Rightarrow> string" where
  "json_escape c =
     (let n = ascii c in
      if n = 34 \<or> n = 92 then [char_of (92 :: nat), c]
      else if n = 10 then [char_of (92 :: nat), CHR ''n'']
      else if n = 13 then [char_of (92 :: nat), CHR ''r'']
      else if n = 9 then [char_of (92 :: nat), CHR ''t'']
      else if n < 32 \<or> n = 60 \<or> n = 62 \<or> n = 38 then char_of (92 :: nat) # ''u00'' @ hex2 n
      else [c])"

fun json_encode_body :: "string \<Rightarrow> string" where
  "json_encode_body [] = []"
| "json_encode_body (c # cs) =
     (if ascii c < 128 then json_escape c @ json_encode_body cs
      else (case utf8_more c cs of
              None \<Rightarrow> char_of (92 :: nat) # ''ufffd'' @ json_encode_body cs
            | Some k \<Rightarrow>
                if c = char_of (226 :: nat) \<and> take 1 cs = [char_of (128 :: nat)] \<and> k = 2 \<and>
                   (cs ! 1 = char_of (168 :: nat) \<or> cs ! 1 = char_of (169 :: nat))
                then char_of (92 :: nat) # ''u202'' @ [hex_digit (ascii (cs ! 1) mod 16)]
                       @ json_encode_body (drop k cs)
                else c # take k cs @ json_encode_body (drop k cs)))"

definition json_encode_string :: "string \<Rightarrow> string" where
  "json_encode_string s = CHR 0x22 # json_encode_body s @ [CHR 0x22]"

section \<open>Reading a document\<close>

datatype json = JNull | JBool bool | JNum string | JStr bytes | JArr "json list" | JObj "(bytes \<times> json) list"

definition is_ws :: "char \<Rightarrow> bool" where
  "is_ws c \<longleftrightarrow> ascii c = 32 \<or> ascii c = 9 \<or> ascii c = 10 \<or> ascii c = 13"

definition skip_ws :: "string \<Rightarrow> string" where
  "skip_ws s = dropWhile is_ws s"

definition hex4 :: "string \<Rightarrow> nat option" where
  "hex4 s =
     (case map from_hex_char (take 4 s) of
        [Some a, Some b, Some c, Some d] \<Rightarrow> Some (4096 * a + 256 * b + 16 * c + d)
      | _ \<Rightarrow> None)"

text \<open>The four digits after a second \<open>\u\<close>, for the low half of a surrogate pair.\<close>

definition second_unit :: "string \<Rightarrow> nat option" where
  "second_unit s =
     (case s of b # u # ds \<Rightarrow> if ascii b = 92 \<and> u = CHR ''u'' then hex4 ds else None | _ \<Rightarrow> None)"

definition simple_escape :: "char \<Rightarrow> char option" where
  "simple_escape e =
     (if ascii e = 34 \<or> ascii e = 92 \<or> ascii e = 47 then Some e
      else if e = CHR ''b'' then Some (char_of (8 :: nat))
      else if e = CHR ''f'' then Some (char_of (12 :: nat))
      else if e = CHR ''n'' then Some (char_of (10 :: nat))
      else if e = CHR ''r'' then Some (char_of (13 :: nat))
      else if e = CHR ''t'' then Some (char_of (9 :: nat))
      else None)"

definition prefix_bytes :: "bytes \<Rightarrow> (bytes \<times> string) option \<Rightarrow> (bytes \<times> string) option" where
  "prefix_bytes bs r = map_option (\<lambda>(b, rest). (bs @ b, rest)) r"

text \<open>
  One character of a string literal (an escape, a byte, a rune): the bytes it stands for and how
  many characters after the first it takes. A surrogate without its partner is replaced.
\<close>

definition str_escape :: "string \<Rightarrow> (bytes \<times> nat) option" where
  "str_escape cs =
     (case cs of
        [] \<Rightarrow> None
      | e # es \<Rightarrow>
          if e = CHR ''u''
          then (case hex4 es of
                  None \<Rightarrow> None
                | Some u \<Rightarrow>
                    if 55296 \<le> u \<and> u < 57344
                    then (case second_unit (drop 4 es) of
                            Some v \<Rightarrow>
                              if u < 56320 \<and> 56320 \<le> v \<and> v < 57344
                              then Some (utf8_encode (65536 + 1024 * (u - 55296) + (v - 56320)), 11)
                              else Some (replacement, 5)
                          | None \<Rightarrow> Some (replacement, 5))
                    else Some (utf8_encode u, 5))
          else map_option (\<lambda>b. ([b], 1)) (simple_escape e))"

definition str_char :: "char \<Rightarrow> string \<Rightarrow> (bytes \<times> nat) option" where
  "str_char c cs =
     (if ascii c = 92 then str_escape cs
      else if ascii c < 32 then None
      else if ascii c < 128 then Some ([c], 0)
      else (case utf8_more c cs of
              Some k \<Rightarrow> Some (c # take k cs, k)
            | None \<Rightarrow> Some (replacement, 0)))"

text \<open>The rest of a string literal after its opening quote, unquoted.\<close>

fun parse_str :: "string \<Rightarrow> (bytes \<times> string) option" where
  "parse_str [] = None"
| "parse_str (c # cs) =
     (if ascii c = 34 then Some ([], cs)
      else (case str_char c cs of
              None \<Rightarrow> None
            | Some (bs, k) \<Rightarrow> prefix_bytes bs (parse_str (drop k cs))))"

text \<open>Numbers: optional minus, no leading zeros, optional fraction and exponent.\<close>

definition take_digits :: "string \<Rightarrow> (string \<times> string) option" where
  "take_digits s =
     (let ds = takeWhile is_digit s in if ds = [] then None else Some (ds, drop (length ds) s))"

definition parse_num :: "string \<Rightarrow> (string \<times> string) option" where
  "parse_num s =
     (let (sg, t) = (case s of c # cs \<Rightarrow> if c = CHR ''-'' then ([c], cs) else ([], s) | [] \<Rightarrow> ([], []));
          int_part = (case t of
            c # cs \<Rightarrow> if c = CHR ''0'' then Some ([c], cs) else take_digits t
          | [] \<Rightarrow> None)
      in case int_part of
           None \<Rightarrow> None
         | Some (i, t1) \<Rightarrow>
             (let frac = (case t1 of
                c # cs \<Rightarrow> if c = CHR ''.''
                          then map_option (\<lambda>(f, r). (c # f, r)) (take_digits cs) else Some ([], t1)
              | [] \<Rightarrow> Some ([], []))
              in case frac of
                   None \<Rightarrow> None
                 | Some (f, t2) \<Rightarrow>
                     (let expo = (case t2 of
                        c # cs \<Rightarrow>
                          if c = CHR ''e'' \<or> c = CHR ''E''
                          then (case cs of
                                  d # ds \<Rightarrow>
                                    if d = CHR ''+'' \<or> d = CHR ''-''
                                    then map_option (\<lambda>(x, r). (c # d # x, r)) (take_digits ds)
                                    else map_option (\<lambda>(x, r). (c # x, r)) (take_digits cs)
                                | [] \<Rightarrow> None)
                          else Some ([], t2)
                      | [] \<Rightarrow> Some ([], []))
                      in map_option (\<lambda>(x, r). (sg @ i @ f @ x, r)) expo)))"

definition parse_lit :: "string \<Rightarrow> json \<Rightarrow> string \<Rightarrow> (json \<times> string) option" where
  "parse_lit lit v s = (if take (length lit) s = lit then Some (v, drop (length lit) s) else None)"

text \<open>
  Values, the elements of an array and the members of an object. The nesting depth is limited
  (\<open>maxNestingDepth\<close>). The guards on the length of the rest always hold (\<open>parse_shorter\<close> below); they
  make the recursion terminate.
\<close>

function parse_value :: "nat \<Rightarrow> string \<Rightarrow> (json \<times> string) option"
  and parse_elems :: "nat \<Rightarrow> string \<Rightarrow> (json list \<times> string) option"
  and parse_members :: "nat \<Rightarrow> string \<Rightarrow> ((bytes \<times> json) list \<times> string) option" where
  "parse_value d s =
     (case skip_ws s of
        [] \<Rightarrow> None
      | c # cs \<Rightarrow>
          if c = CHR ''{''
          then (case skip_ws cs of
                  [] \<Rightarrow> None
                | k # r \<Rightarrow>
                    if d = 0 then None
                    else if k = CHR ''}'' then Some (JObj [], r)
                    else if length (k # r) < length s
                      then map_option (\<lambda>(ms, t). (JObj ms, t)) (parse_members (d - 1) (k # r)) else None)
          else if c = CHR ''[''
          then (case skip_ws cs of
                  [] \<Rightarrow> None
                | k # r \<Rightarrow>
                    if d = 0 then None
                    else if k = CHR '']'' then Some (JArr [], r)
                    else if length (k # r) < length s
                      then map_option (\<lambda>(vs, t). (JArr vs, t)) (parse_elems (d - 1) (k # r)) else None)
          else if ascii c = 34 then map_option (\<lambda>(b, t). (JStr b, t)) (parse_str cs)
          else if c = CHR ''t'' then parse_lit ''true'' (JBool True) (c # cs)
          else if c = CHR ''f'' then parse_lit ''false'' (JBool False) (c # cs)
          else if c = CHR ''n'' then parse_lit ''null'' JNull (c # cs)
          else map_option (\<lambda>(n, t). (JNum n, t)) (parse_num (c # cs)))"
| "parse_elems d s =
     (case parse_value d s of
        None \<Rightarrow> None
      | Some (v, r) \<Rightarrow>
          (case skip_ws r of
             [] \<Rightarrow> None
           | c # t \<Rightarrow>
               if c = CHR '','' \<and> length t < length s
               then map_option (\<lambda>(vs, u). (v # vs, u)) (parse_elems d t)
               else if c = CHR '']'' then Some ([v], t) else None))"
| "parse_members d s =
     (case skip_ws s of
        [] \<Rightarrow> None
      | q # cs \<Rightarrow>
          if ascii q \<noteq> 34 then None
          else (case parse_str cs of
                  None \<Rightarrow> None
                | Some (key, r) \<Rightarrow>
                    (case skip_ws r of
                       [] \<Rightarrow> None
                     | c # r2 \<Rightarrow>
                         if c = CHR '':'' \<and> length r2 < length s
                         then (case parse_value d r2 of
                                 None \<Rightarrow> None
                               | Some (v, r3) \<Rightarrow>
                                   (case skip_ws r3 of
                                      [] \<Rightarrow> None
                                    | e # r4 \<Rightarrow>
                                        if e = CHR '','' \<and> length r4 < length s
                                        then map_option (\<lambda>(ms, u). ((key, v) # ms, u)) (parse_members d r4)
                                        else if e = CHR ''}'' then Some ([(key, v)], r4) else None))
                         else None)))"
  by pat_completeness auto
termination
  by (relation "measure (\<lambda>x. case x of Inl (d, s) \<Rightarrow> 2 * length s
       | Inr (Inl (d, s)) \<Rightarrow> 2 * length s + 1 | Inr (Inr (d, s)) \<Rightarrow> 2 * length s + 1)") auto

declare parse_value.simps [simp del] parse_elems.simps [simp del] parse_members.simps [simp del]

text \<open>A document is one value and white space.\<close>

definition json_parse :: "string \<Rightarrow> error + json" where
  "json_parse s =
     (case parse_value 10000 s of
        Some (v, r) \<Rightarrow> if skip_ws r = [] then Inr v else Inl (LibraryError ''json: syntax error'')
      | None \<Rightarrow> Inl (LibraryError ''json: syntax error''))"

section \<open>The parser consumes its input\<close>

lemma length_skip_ws: "length (skip_ws s) \<le> length s"
  by (simp add: skip_ws_def length_dropWhile_le)

lemma skip_ws_Cons_less: "skip_ws s = c # cs \<Longrightarrow> length cs < length s"
  using length_skip_ws [of s] by simp

lemma prefix_bytes_Some [simp]:
  "prefix_bytes bs r = Some (x, t) \<longleftrightarrow> (\<exists>b. r = Some (b, t) \<and> x = bs @ b)"
  by (auto simp: prefix_bytes_def)

lemma parse_str_shorter: "parse_str s = Some (b, r) \<Longrightarrow> length r < length s"
proof (induction s arbitrary: b r rule: parse_str.induct)
  case 1
  then show ?case by simp
next
  case (2 c cs)
  show ?case
  proof (cases "ascii c = 34")
    case True
    with "2.prems" show ?thesis by simp
  next
    case False
    with "2.prems" obtain bs k b' where "str_char c cs = Some (bs, k)"
      and rest: "parse_str (drop k cs) = Some (b', r)"
      by (auto split: option.splits)
    with "2.IH" False have "length r < length (drop k cs)" by metis
    then show ?thesis by simp
  qed
qed

lemma take_digits_shorter: "take_digits s = Some (x, r) \<Longrightarrow> length r < length s"
  by (auto simp: take_digits_def Let_def split: if_splits)
     (metis diff_less length_greater_0_conv takeWhile.simps(1))

lemma parse_num_shorter: "parse_num s = Some (x, r) \<Longrightarrow> length r < length s"
  by (auto simp: parse_num_def Let_def split: list.splits if_splits option.splits prod.splits
      dest!: take_digits_shorter)

lemma parse_lit_shorter: "lit \<noteq> [] \<Longrightarrow> parse_lit lit v (c # cs) = Some (x, r) \<Longrightarrow> length r < length (c # cs)"
  by (cases lit) (auto simp: parse_lit_def split: if_splits)

text \<open>A value that is neither an object nor an array.\<close>

lemma parse_scalar_shorter:
  assumes "parse_value d s = Some (v, r)" and "skip_ws s = c # cs" and "c \<noteq> CHR ''{''" "c \<noteq> CHR ''[''"
  shows "length r < length s"
  using assms skip_ws_Cons_less [OF assms(2)]
  by (auto simp: parse_value.simps split: if_splits
      dest!: parse_str_shorter parse_num_shorter parse_lit_shorter [of "''true''", simplified]
        parse_lit_shorter [of "''false''", simplified] parse_lit_shorter [of "''null''", simplified])

text \<open>What a parsed list of members consists of.\<close>

lemma parse_members_Some:
  assumes prems: "parse_members d s = Some (ms, r)"
  obtains q cs key r0 c r2 w r3 e r4 where "skip_ws s = q # cs" "\<not> ascii q \<noteq> 34" "parse_str cs = Some (key, r0)"
    "skip_ws r0 = c # r2" "c = CHR '':'' \<and> length r2 < length s" "parse_value d r2 = Some (w, r3)" "skip_ws r3 = e # r4"
    "e = CHR '','' \<and> length r4 < length s \<and> (\<exists>ms'. parse_members d r4 = Some (ms', r)) \<or> r = r4"
proof -
  from prems obtain q cs where q: "skip_ws s = q # cs"
    by (cases "skip_ws s") (simp_all add: parse_members.simps)
  with prems have quote: "\<not> ascii q \<noteq> 34" by (simp add: parse_members.simps split: if_splits)
  with prems q obtain key r0 where k: "parse_str cs = Some (key, r0)"
    by (cases "parse_str cs") (auto simp: parse_members.simps)
  with prems q quote obtain c r2 where c: "skip_ws r0 = c # r2"
    by (cases "skip_ws r0") (auto simp: parse_members.simps)
  with prems q quote k have colon: "c = CHR '':'' \<and> length r2 < length s"
    by (simp add: parse_members.simps split: if_splits)
  with prems q quote k c obtain w r3 where v: "parse_value d r2 = Some (w, r3)"
    by (cases "parse_value d r2") (auto simp: parse_members.simps)
  with prems q quote k c colon obtain e r4 where e: "skip_ws r3 = e # r4"
    by (cases "skip_ws r3") (auto simp: parse_members.simps)
  have "e = CHR '','' \<and> length r4 < length s \<and> (\<exists>ms'. parse_members d r4 = Some (ms', r)) \<or> r = r4"
    using prems q quote k c colon v e by (auto simp: parse_members.simps [of d s] split: if_splits)
  with q quote k c colon v e show thesis by (rule that)
qed

lemma parse_shorter:
  shows "parse_value d s = Some (v, r) \<Longrightarrow> length r < length s"
    and "parse_elems d s = Some (vs, r) \<Longrightarrow> length r < length s"
    and "parse_members d s = Some (ms, r) \<Longrightarrow> length r < length s"
proof (induction d s and d s and d s arbitrary: v r and vs r and ms r
    rule: parse_value_parse_elems_parse_members.induct)
  case (1 d s)
  note members = "1.IH"(1) and elems = "1.IH"(2) and prems = "1.prems"
  from prems obtain c cs where Cons: "skip_ws s = c # cs" by (cases "skip_ws s") (auto simp: parse_value.simps)
  note len = skip_ws_Cons_less [OF Cons]
  consider "c = CHR ''{''" | "c = CHR ''[''" "c \<noteq> CHR ''{''" | "c \<noteq> CHR ''{''" "c \<noteq> CHR ''[''" by blast
  then show ?case
  proof cases
    case 1
    with prems Cons obtain k t where k: "skip_ws cs = k # t" by (cases "skip_ws cs") (auto simp: parse_value.simps)
    then show ?thesis using prems Cons 1 len skip_ws_Cons_less [OF k] members [OF Cons 1 k]
      by (fastforce simp: parse_value.simps split: if_splits)
  next
    case 2
    with prems Cons obtain k t where k: "skip_ws cs = k # t" by (cases "skip_ws cs") (auto simp: parse_value.simps)
    then show ?thesis using prems Cons 2 len skip_ws_Cons_less [OF k] elems [OF Cons 2(2,1) k]
      by (fastforce simp: parse_value.simps split: if_splits)
  next
    case 3
    then show ?thesis using parse_scalar_shorter [OF prems Cons] by simp
  qed
next
  case (2 d s)
  then show ?case
    by (subst (asm) parse_elems.simps)
       (fastforce split: list.splits if_splits option.splits dest!: skip_ws_Cons_less)
next
  case (3 d s)
  obtain q cs key r0 c r2 w r3 e r4 where q: "skip_ws s = q # cs" "\<not> ascii q \<noteq> 34" "parse_str cs = Some (key, r0)"
    and c: "skip_ws r0 = c # r2" "c = CHR '':'' \<and> length r2 < length s" and v: "parse_value d r2 = Some (w, r3)"
    and e: "skip_ws r3 = e # r4"
    and rest: "e = CHR '','' \<and> length r4 < length s \<and> (\<exists>ms'. parse_members d r4 = Some (ms', r)) \<or> r = r4"
    using "3.prems" by (rule parse_members_Some)
  have "length r3 < length r2" by (rule "3.IH"(1) [OF q refl c v])
  then have len: "length r4 < length s" using skip_ws_Cons_less [OF e] c by simp
  from rest show ?case
  proof
    assume more: "e = CHR '','' \<and> length r4 < length s \<and> (\<exists>ms'. parse_members d r4 = Some (ms', r))"
    then obtain ms' where "parse_members d r4 = Some (ms', r)" by blast
    then have "length r < length r4" using more by (intro "3.IH"(2) [OF q refl c v refl e]) simp_all
    with len show ?thesis by simp
  next
    assume "r = r4"
    with len show ?thesis by simp
  qed
qed

section \<open>What is written is read back\<close>

lemma parse_str_escape:
  assumes "ascii c < 128"
  shows "parse_str (json_escape c @ t) = prefix_bytes [c] (parse_str t)"
proof -
  have c: "c = char_of (ascii c)" by simp
  have hex: "hex4 (CHR ''0'' # CHR ''0'' # hex2 n @ u) = Some n" if "n < 128" for n u
  proof -
    have "n div 16 < 16" using that by linarith
    moreover have "16 * (n div 16) + n mod 16 = n" by simp
    ultimately show ?thesis by (simp add: hex4_def hex2_def) (simp add: from_hex_char_def)
  qed
  show ?thesis
  proof (cases "ascii c < 32 \<or> ascii c = 60 \<or> ascii c = 62 \<or> ascii c = 38")
    case True
    show ?thesis
    proof (cases "ascii c = 10 \<or> ascii c = 13 \<or> ascii c = 9")
      case True
      then have "c = char_of (10 :: nat) \<or> c = char_of (13 :: nat) \<or> c = char_of (9 :: nat)"
        by (metis char_of_char)
      then show ?thesis
        by (auto simp: json_escape_def Let_def str_char_def str_escape_def simple_escape_def)
    next
      case False
      with \<open>ascii c < 32 \<or> _\<close> have "json_escape c = char_of (92 :: nat) # ''u00'' @ hex2 (ascii c)"
        by (auto simp: json_escape_def Let_def)
      moreover have "utf8_encode (ascii c) = [c]" using assms by (simp add: utf8_encode_def)
      moreover have "drop 5 (CHR ''u'' # CHR ''0'' # CHR ''0'' # hex2 n @ t) = t" for n
        by (simp add: hex2_def)
      ultimately show ?thesis
        using assms hex [OF assms] by (simp add: str_char_def str_escape_def)
    qed
  next
    case False
    then show ?thesis
      using assms
      by (auto simp: json_escape_def Let_def str_char_def str_escape_def simple_escape_def)
  qed
qed

lemma parse_str_encode:
  "list_all (\<lambda>c. ascii c < 128) s \<Longrightarrow>
   parse_str (json_encode_body s @ CHR 0x22 # rest) = Some (s, rest)"
  by (induction s) (simp_all add: parse_str_escape)

lemma take_digits_append:
  assumes "list_all is_digit ds" "ds \<noteq> []" "rest = [] \<or> \<not> is_digit (hd rest)"
  shows "take_digits (ds @ rest) = Some (ds, rest)"
proof -
  have "takeWhile is_digit (ds @ rest) = ds"
    using assms by (cases rest) (auto simp: list_all_iff takeWhile_append2)
  with assms show ?thesis by (simp add: take_digits_def)
qed

lemma show_nat_hd_zero: "n \<noteq> 0 \<Longrightarrow> hd (show_nat n) \<noteq> CHR ''0''"
proof (induction n rule: show_nat.induct)
  case (1 n)
  show ?case
  proof (cases "n < 10")
    case True
    then have "ascii (digit_char n) = 48 + n" by simp
    with 1 have "digit_char n \<noteq> CHR ''0''" by auto
    with True show ?thesis by (subst show_nat.simps) simp
  next
    case False
    with 1 show ?thesis by (subst show_nat.simps) simp
  qed
qed

lemma parse_num_show_nat:
  assumes "rest = CHR '','' # u"
  shows "parse_num (show_nat n @ rest) = Some (show_nat n, rest)"
proof -
  obtain c cs where s: "show_nat n = c # cs" by (cases "show_nat n") auto
  have ds: "list_all is_digit (show_nat n)" by (rule show_nat_digits)
  with s have c: "is_digit c" by simp
  then have neg: "c \<noteq> CHR ''-''" by (auto simp: is_digit_iff)
  have comma: "\<not> is_digit (CHR '','')" by (simp add: is_digit_iff)
  show ?thesis
  proof (cases "n = 0")
    case True
    moreover have "show_nat 0 = ''0''" by code_simp
    ultimately show ?thesis using assms by (simp add: parse_num_def)
  next
    case False
    then have "c \<noteq> CHR ''0''" using show_nat_hd_zero [OF False] s by simp
    moreover have "take_digits (show_nat n @ rest) = Some (show_nat n, rest)"
      using take_digits_append [OF ds] assms comma by simp
    ultimately show ?thesis using neg s assms by (simp add: parse_num_def)
  qed
qed

end
