(* ===== verification/BridgeEnv.thy ===== *)
theory BridgeEnv
  imports BridgePrelude
begin

text \<open>
  The data of the daemon (\<open>pkg/config.go\<close>, the event types of \<open>pkg/substrate/events.go\<close>) and its
  surroundings. What the daemon calls outside this repository is a parameter: the client library of
  the chain (\<open>chain_api\<close>), Horizon, \<open>txnbuild\<close> and \<open>keypair\<close> (\<open>stellar_api\<close>), and the choices of the
  Go runtime and the operating system (\<open>go_runtime\<close>). Each of these operations takes the outside
  world \<open>'w\<close> and returns it changed; nothing is assumed about them here.
\<close>

section \<open>Configuration\<close>

record StellarConfig =
  StellarBridgeAccount :: string
  StellarNetwork :: string
  StellarSeed :: string
  StellarHorizonUrl :: string

record BridgeConfig =
  TfchainURL :: string
  TfchainSeed :: string
  RescanBridgeAccount :: bool
  PersistencyFile :: string
  StellarConfigOf :: StellarConfig

section \<open>Events of the chain\<close>

type_synonym AccountID = bytes

record WithdrawCreatedEvent =
  wc_ID :: uint64
  wc_Source :: AccountID
  wc_Target :: string
  wc_Amount :: uint64

record WithdrawReadyEvent =
  wr_ID :: uint64

record WithdrawExpiredEvent =
  we_ID :: uint64
  we_Target :: string
  we_Amount :: uint64

record RefundTransactionReadyEvent =
  rr_Hash :: string

record RefundTransactionExpiredEvent =
  re_Hash :: string
  re_Target :: string
  re_Amount :: uint64

record RefundTransactionCreatedEvent =
  rc_Hash :: string
  rc_Target :: string
  rc_Amount :: uint64
  rc_TxID :: string

record Events =
  WithdrawCreatedEvents :: "WithdrawCreatedEvent list"
  WithdrawReadyEvents :: "WithdrawReadyEvent list"
  WithdrawExpiredEvents :: "WithdrawExpiredEvent list"
  RefundCreatedEvents :: "RefundTransactionCreatedEvent list"
  RefundReadyEvents :: "RefundTransactionReadyEvent list"
  RefundExpiredEvents :: "RefundTransactionExpiredEvent list"

definition empty_Events :: Events where
  "empty_Events = \<lparr>WithdrawCreatedEvents = [], WithdrawReadyEvents = [], WithdrawExpiredEvents = [],
     RefundCreatedEvents = [], RefundReadyEvents = [], RefundExpiredEvents = []\<rparr>"

record EventSubscription =
  sub_Events :: Events
  sub_Err :: "error option"

section \<open>The chain's client library\<close>

record StellarSignature =
  Signature :: string
  StellarAddress :: string

record BurnTransaction =
  burn_Target :: string
  burn_Amount :: uint64
  burn_Signatures :: "StellarSignature list"
  burn_SequenceNumber :: uint64

record RefundTransaction =
  refund_Target :: string
  refund_Amount :: uint64
  refund_TxHash :: string
  refund_Signatures :: "StellarSignature list"
  refund_SequenceNumber :: uint64

text \<open>The bridge events of one block, as the library decodes them.\<close>

record EventRecords =
  RefundTransactionReady :: "string list"
  RefundTransactionExpired :: "(string \<times> string \<times> uint64) list"
  BurnTransactionCreated :: "(uint64 \<times> AccountID \<times> string \<times> uint64) list"
  BurnTransactionReady :: "uint64 list"
  BurnTransactionExpired :: "(uint64 \<times> string \<times> uint64) list"

text \<open>
  \<open>IsMintedAlready\<close> keeps both results of the Go function, since the code goes on with the flag
  after the error \<open>ErrMintTransactionNotFound\<close>. A twin and an entity are known by their account,
  a farm and a node by the id of their twin.
\<close>

record ('w, 'id) chain_api =
  IsMintedAlready :: "string \<Rightarrow> 'w \<Rightarrow> (bool \<times> error option) \<times> 'w"
  IsBurnedAlready :: "uint64 \<Rightarrow> 'w \<Rightarrow> (error + bool) \<times> 'w"
  IsRefundedAlready :: "string \<Rightarrow> 'w \<Rightarrow> (error + bool) \<times> 'w"
  ProposeOrVoteMintTransaction :: "'id \<Rightarrow> string \<Rightarrow> AccountID \<Rightarrow> int \<Rightarrow> 'w \<Rightarrow> error option \<times> 'w"
  SetBurnTransactionExecuted :: "'id \<Rightarrow> uint64 \<Rightarrow> 'w \<Rightarrow> error option \<times> 'w"
  ProposeBurnTransactionOrAddSig ::
    "'id \<Rightarrow> uint64 \<Rightarrow> string \<Rightarrow> int \<Rightarrow> string \<Rightarrow> string \<Rightarrow> uint64 \<Rightarrow> 'w \<Rightarrow> error option \<times> 'w"
  CreateRefundTransactionOrAddSig ::
    "'id \<Rightarrow> string \<Rightarrow> string \<Rightarrow> int64 \<Rightarrow> string \<Rightarrow> string \<Rightarrow> uint64 \<Rightarrow> 'w \<Rightarrow> error option \<times> 'w"
  SetRefundTransactionExecuted :: "'id \<Rightarrow> string \<Rightarrow> 'w \<Rightarrow> error option \<times> 'w"
  GetBurnTransaction :: "uint64 \<Rightarrow> 'w \<Rightarrow> (error + BurnTransaction) \<times> 'w"
  GetRefundTransaction :: "string \<Rightarrow> 'w \<Rightarrow> (error + RefundTransaction) \<times> 'w"
  GetTwinAccount :: "uint32 \<Rightarrow> 'w \<Rightarrow> (error + AccountID) \<times> 'w"
  GetFarmTwinID :: "uint32 \<Rightarrow> 'w \<Rightarrow> (error + uint32) \<times> 'w"
  GetNodeTwinID :: "uint32 \<Rightarrow> 'w \<Rightarrow> (error + uint32) \<times> 'w"
  GetEntityAccount :: "uint32 \<Rightarrow> 'w \<Rightarrow> (error + AccountID) \<times> 'w"
  GetDepositFee :: "'w \<Rightarrow> (error + int64) \<times> 'w"
  GetEventsForBlock :: "uint32 \<Rightarrow> 'w \<Rightarrow> (error + EventRecords) \<times> 'w"
  ManagerSubstrate :: "string \<Rightarrow> 'w \<Rightarrow> error option \<times> 'w"
  IsValidator :: "'id \<Rightarrow> 'w \<Rightarrow> (error + bool) \<times> 'w"
  NewIdentityFromSr25519Phrase :: "string \<Rightarrow> error + 'id"
  AccountString :: "AccountID \<Rightarrow> string"
  FromAddress :: "string \<Rightarrow> error + AccountID"

section \<open>Horizon, txnbuild and keypair\<close>

record hz_balance =
  bal_Code :: string
  bal_Issuer :: string
  bal_Limit :: string

text \<open>
  \<open>GetSequenceNumber\<close> is a method of Horizon's account: its two results are part of the account here.
\<close>

record hz_account =
  acc_AccountID :: string
  acc_Balances :: "hz_balance list"
  acc_MedThreshold :: "8 word"
  acc_GetSequenceNumber :: "int64 \<times> error option"

record hz_transaction =
  Hash :: string
  Successful :: bool
  Memo :: string
  MemoType :: string
  PagingToken :: string

text \<open>
  An effect and an operation are Go interfaces: a type string, and the concrete struct that a type
  assertion finds there (\<open>None\<close> when it is another one, which panics).
\<close>

record hz_effect =
  eff_GetAccount :: string
  eff_GetType :: string
  eff_AccountCredited :: "(string \<times> string) option"

record hz_payment =
  pay_From :: string
  pay_To :: string
  pay_Amount :: string

record hz_operation =
  op_GetType :: string
  op_Payment :: "hz_payment option"

datatype horizon_client = HorizonURL string | DefaultTestNetClient | DefaultPublicNetClient

datatype tx_memo = NoMemo | MemoReturn bytes

datatype timebounds = InfiniteTimeout

record payment_op =
  Destination :: string
  Amount :: string
  AssetCode :: string
  AssetIssuer :: string
  SourceAccount :: string

record TransactionParams =
  Operations :: "payment_op list"
  Timebounds :: timebounds
  SourceAccountID :: string
  SourceSequence :: int64
  BaseFee :: int64
  IncrementSequenceNum :: bool
  TxMemo :: tx_memo

record ('w, 'tx, 'kp) stellar_api =
  ParseFull :: "string \<Rightarrow> error + 'kp"
  Address :: "'kp \<Rightarrow> string"
  AccountDetail :: "horizon_client \<Rightarrow> string \<Rightarrow> 'w \<Rightarrow> (error + hz_account) \<times> 'w"
  HzTransactions :: "horizon_client \<Rightarrow> string \<Rightarrow> string \<Rightarrow> 'w \<Rightarrow> (error + hz_transaction list) \<times> 'w"
  HzEffects :: "horizon_client \<Rightarrow> string \<Rightarrow> 'w \<Rightarrow> (error + hz_effect list) \<times> 'w"
  HzOperations :: "horizon_client \<Rightarrow> string \<Rightarrow> 'w \<Rightarrow> (error + hz_operation list) \<times> 'w"
  SubmitTransaction :: "horizon_client \<Rightarrow> 'tx \<Rightarrow> 'w \<Rightarrow> (error + string) \<times> 'w"
  NewTransaction :: "TransactionParams \<Rightarrow> error + 'tx"
  SignTx :: "string \<Rightarrow> 'kp \<Rightarrow> 'tx \<Rightarrow> error + 'tx"
  AddSignatureBase64 :: "string \<Rightarrow> string \<Rightarrow> string \<Rightarrow> 'tx \<Rightarrow> error + 'tx"
  TxSignatures :: "'tx \<Rightarrow> bytes list"
  TxSequenceNumber :: "'tx \<Rightarrow> int64"
  MinBaseFee :: int64
  TestNetworkPassphrase :: string
  PublicNetworkPassphrase :: string
  amount_ParseInt64 :: "string \<Rightarrow> error + int64"

section \<open>The Go runtime and the operating system\<close>

text \<open>
  \<open>select_wait\<close>: which arm of \<open>select { case <-ctx.Done(): ... case <-time.After(...): ... }\<close> is
  taken, true for \<open>ctx.Done\<close>. \<open>map_start\<close>: where the iteration over a map starts, which Go leaves
  open. \<open>read_fault\<close>: the error of \<open>os.ReadFile\<close> other than a missing file. \<open>write_fault\<close>: the error
  of \<open>os.WriteFile\<close>, with what it left in the file.
\<close>

record 'w go_runtime =
  select_wait :: "'w \<Rightarrow> bool \<times> 'w"
  map_start :: "'w \<Rightarrow> nat \<times> 'w"
  read_fault :: "'w \<Rightarrow> error option \<times> 'w"
  write_fault :: "'w \<Rightarrow> (error \<times> bytes option) option \<times> 'w"

text \<open>\<open>context.Background()\<close> is never cancelled; the daemon's own context may be.\<close>

datatype go_context = Background | DaemonContext

record ('w, 'tx, 'kp, 'id) env =
  chain :: "('w, 'id) chain_api"
  stellar :: "('w, 'tx, 'kp) stellar_api"
  runtime :: "'w go_runtime"

section \<open>The daemon's own state\<close>

record 'kp StellarWallet =
  wal_keypair :: 'kp
  wal_config :: StellarConfig
  wal_signatureCount :: nat
  wal_sequenceNumber :: int64

text \<open>The wallet (only its sequence number changes after start), the persistency file, the outside.\<close>

record ('w, 'kp) state =
  wallet :: "'kp StellarWallet"
  disk :: "bytes option"
  world :: 'w

type_synonym ('w, 'kp, 'a) daemon = "(('w, 'kp) state, 'a) prog"

definition worldP :: "('w \<Rightarrow> 'a \<times> 'w) \<Rightarrow> ('w, 'kp, 'a) daemon" where
  "worldP f s = (let (a, w) = f (world s) in Some (Ok a, s\<lparr>world := w\<rparr>))"

definition worldM :: "('w \<Rightarrow> (error + 'a) \<times> 'w) \<Rightarrow> ('w, 'kp, 'a) daemon" where
  "worldM f = bindM (worldP f) liftE"

definition worldL :: "('w \<Rightarrow> (error option \<times> 'w) option) \<Rightarrow> ('w, 'kp, unit) daemon" where
  "worldL f s =
     (case f (world s) of
        None \<Rightarrow> None
      | Some (None, w) \<Rightarrow> Some (Ok (), s\<lparr>world := w\<rparr>)
      | Some (Some e, w) \<Rightarrow> Some (Err e, s\<lparr>world := w\<rparr>))"

definition modify_wallet :: "('kp StellarWallet \<Rightarrow> 'kp StellarWallet) \<Rightarrow> ('w, 'kp, unit) daemon" where
  "modify_wallet f = modifyM (\<lambda>s. s\<lparr>wallet := f (wallet s)\<rparr>)"

lemma worldM_eq:
  "worldM f s =
     (case f (world s) of
        (Inl e, w) \<Rightarrow> Some (Err e, s\<lparr>world := w\<rparr>)
      | (Inr a, w) \<Rightarrow> Some (Ok a, s\<lparr>world := w\<rparr>))"
  by (auto simp: worldM_def worldP_def bindM_def liftE_def split: prod.splits sum.splits)

lemma world_keeps [keeps_rules]:
  "keeps disk (worldP f)" "keeps wallet (worldP f)"
  "keeps disk (worldM g)" "keeps wallet (worldM g)"
  "keeps disk (worldL h)" "keeps wallet (worldL h)"
  "keeps disk (modify_wallet k)" "keeps world (modify_wallet k)"
  by (auto simp: keeps_def worldP_def worldM_eq worldL_def modify_wallet_def modifyM_def Let_def
      split: prod.splits sum.splits option.splits)

lemma world_returns [returns_rules]: "returns (worldP f)" "returns (worldM g)" "returns (modify_wallet k)"
  by (auto simp: returns_def worldP_def worldM_eq modify_wallet_def modifyM_def Let_def
      split: prod.splits sum.splits)

lemma world_crash_free [crash_free_rules]:
  "crash_free (worldP f)" "crash_free (worldM g)" "crash_free (worldL h)" "crash_free (modify_wallet k)"
  by (auto simp: crash_free_def worldP_def worldM_eq worldL_def modify_wallet_def modifyM_def Let_def
      split: prod.splits sum.splits option.splits)

end
