(* ===== verification/SampleWorld.thy ===== *)
theory SampleWorld
  imports BridgeEnv GoCodec
begin

text \<open>
  A small concrete network, in which the witnesses of the properties run: a ledger of accounts,
  transactions, effects and operations that answers Horizon's requests, and transactions that
  carry their parameters and their signatures (a signature is the signer's name). The chain part of
  the world is left open (\<open>'c\<close>). Nothing in the model depends on this theory.
\<close>

record 'c sample_world =
  sw_accounts :: "(string \<times> hz_account) list"
  sw_history :: "hz_transaction list"
  sw_effects :: "(string \<times> hz_effect list) list"
  sw_operations :: "(string \<times> hz_operation list) list"
  sw_submitted :: "(TransactionParams \<times> bytes list) list"
  sw_online :: bool
  sw_chain :: 'c

type_synonym sample_tx = "TransactionParams \<times> bytes list"

definition lookup_or :: "error \<Rightarrow> (string \<times> 'a) list \<Rightarrow> string \<Rightarrow> error + 'a" where
  "lookup_or e m k = (case map_of m k of None \<Rightarrow> Inl e | Some v \<Rightarrow> Inr v)"

definition not_found :: error where
  "not_found = LibraryError ''not found''"

fun amount_int64 :: "string \<Rightarrow> error + int64" where
  "amount_int64 s = (case decimal_units 7 s of None \<Rightarrow> Inl not_found | Some n \<Rightarrow> Inr (of_int n))"

definition sample_stellar :: "('c sample_world, sample_tx, string) stellar_api" where
  "sample_stellar =
     \<lparr>ParseFull = (\<lambda>seed. Inr seed),
      Address = (\<lambda>kp. ''G'' @ kp),
      AccountDetail = (\<lambda>_ address w.
        (case lookup_or not_found (sw_accounts w) address of
           Inl e \<Rightarrow> Inl e | Inr account \<Rightarrow> Inr (account\<lparr>acc_AccountID := address\<rparr>), w)),
      HzTransactions = (\<lambda>_ _ cursor w.
        (Inr (let after = dropWhile (\<lambda>t. PagingToken t \<noteq> cursor) (sw_history w)
              in if after = [] then sw_history w else tl after), w)),
      HzEffects = (\<lambda>_ h w. (lookup_or not_found (sw_effects w) h, w)),
      HzOperations = (\<lambda>_ h w. (lookup_or not_found (sw_operations w) h, w)),
      SubmitTransaction = (\<lambda>_ tx w.
        if sw_online w then (Inr ''result'', w\<lparr>sw_submitted := sw_submitted w @ [tx]\<rparr>)
        else (Inl (LibraryError ''tx_bad_seq''), w)),
      NewTransaction = (\<lambda>p. Inr (p, [])),
      SignTx = (\<lambda>_ kp (p, sigs). Inr (p, sigs @ [kp])),
      AddSignatureBase64 = (\<lambda>_ _ sig (p, sigs). Inr (p, sigs @ [base64_decode sig])),
      TxSignatures = snd,
      TxSequenceNumber = (\<lambda>(p, sigs). SourceSequence p),
      MinBaseFee = 100,
      TestNetworkPassphrase = ''Test SDF Network ; September 2015'',
      PublicNetworkPassphrase = ''Public Global Stellar Network ; September 2015'',
      amount_ParseInt64 = amount_int64\<rparr>"

definition sample_runtime :: "'w go_runtime" where
  "sample_runtime = \<lparr>select_wait = (\<lambda>w. (False, w)), map_start = (\<lambda>w. (0, w)),
     read_fault = (\<lambda>w. (None, w)), write_fault = (\<lambda>w. (None, w))\<rparr>"

definition sample_config :: StellarConfig where
  "sample_config = \<lparr>StellarBridgeAccount = ''GBRIDGE'', StellarNetwork = ''testnet'',
     StellarSeed = ''SEED'', StellarHorizonUrl = []\<rparr>"

definition sample_wallet :: "string StellarWallet" where
  "sample_wallet = \<lparr>wal_keypair = ''alice'', wal_config = sample_config,
     wal_signatureCount = 1, wal_sequenceNumber = 41\<rparr>"

definition tft_issuer :: string where
  "tft_issuer = ''GA47YZA3PKFUZMPLQ3B5F2E3CJIB57TGGU7SPCQT2WAEYKN766PWIMB3''"

definition sample_account :: "string \<Rightarrow> hz_account" where
  "sample_account address = \<lparr>acc_AccountID = address,
     acc_Balances = [\<lparr>bal_Code = [], bal_Issuer = [], bal_Limit = []\<rparr>,
                     \<lparr>bal_Code = ''TFT'', bal_Issuer = tft_issuer, bal_Limit = ''1000.0000000''\<rparr>],
     acc_MedThreshold = 1, acc_GetSequenceNumber = (41, None)\<rparr>"

definition sample_net :: "'c \<Rightarrow> 'c sample_world" where
  "sample_net c = \<lparr>sw_accounts = [(''GBRIDGE'', sample_account ''GBRIDGE''), (''GUSER'', sample_account ''GUSER'')],
     sw_history = [], sw_effects = [], sw_operations = [], sw_submitted = [], sw_online = True, sw_chain = c\<rparr>"

definition sample_state :: "'c \<Rightarrow> ('c sample_world, string) state" where
  "sample_state c = \<lparr>wallet = sample_wallet, disk = None, world = sample_net c\<rparr>"

named_theorems sample_defs \<open>definitions of the sample network\<close>

lemmas [sample_defs] = sample_stellar_def sample_runtime_def sample_config_def sample_wallet_def
  sample_account_def sample_net_def sample_state_def tft_issuer_def lookup_or_def not_found_def

end
