(* ===== verification/Persistency.thy ===== *)
theory Persistency
  imports GoJson SampleWorld
begin

text \<open>
  \<open>pkg/persistency.go\<close>: the file that holds the last block height and the cursor in the stream of
  Stellar transactions, as JSON. The file's content is the \<open>disk\<close> of the daemon's state (\<open>None\<close>: no
  such file); the operating system may fail any read or write.
\<close>

record Blockheight =
  LastHeight :: uint32
  StellarCursor :: string

definition zero_Blockheight :: Blockheight where
  "zero_Blockheight = \<lparr>LastHeight = 0, StellarCursor = []\<rparr>"

text \<open>\<open>json.Marshal\<close> of the struct, with its field tags.\<close>

definition json_Marshal :: "Blockheight \<Rightarrow> bytes" where
  "json_Marshal b =
     CHR ''{'' # json_encode_string ''lastHeight'' @ CHR '':'' # show_nat (unat (LastHeight b)) @
       CHR '','' # json_encode_string ''stellarCursor'' @ CHR '':'' # json_encode_string (StellarCursor b) @ ''}''"

text \<open>
  Field names match up to case folding (the folding of Go also identifies the long s with \<open>s\<close>
  and the Kelvin sign with \<open>k\<close>).
\<close>

fun fold_key :: "string \<Rightarrow> string" where
  "fold_key [] = []"
| "fold_key (c # cs) =
     (if ascii c = 197 \<and> take 1 cs = [char_of (191 :: nat)] then CHR ''s'' # fold_key (drop 1 cs)
      else if ascii c = 226 \<and> take 2 cs = [char_of (132 :: nat), char_of (170 :: nat)]
        then CHR ''k'' # fold_key (drop 2 cs)
      else (if 65 \<le> ascii c \<and> ascii c \<le> 90 then char_of (ascii c + 32) else c) # fold_key cs)"

definition type_error :: error where
  "type_error = LibraryError ''json: cannot unmarshal into Go struct field''"

text \<open>
  One member of the object: the value of a known field is stored, \<open>null\<close> leaves it, a value of the
  wrong type or out of range is remembered as the error and skipped; unknown keys are ignored.
\<close>

definition json_member :: "bytes \<times> json \<Rightarrow> Blockheight \<times> error option \<Rightarrow> Blockheight \<times> error option" where
  "json_member m st =
     (let (key, v) = m; (b, err) = st; bad = (b, case err of None \<Rightarrow> Some type_error | Some e \<Rightarrow> Some e) in
      if fold_key key = ''lastheight''
      then (case v of
              JNull \<Rightarrow> st
            | JNum n \<Rightarrow> if list_all is_digit n \<and> digits_val n < 2 ^ 32
                       then (b\<lparr>LastHeight := of_nat (digits_val n)\<rparr>, err) else bad
            | _ \<Rightarrow> bad)
      else if fold_key key = ''stellarcursor''
      then (case v of JNull \<Rightarrow> st | JStr s \<Rightarrow> (b\<lparr>StellarCursor := s\<rparr>, err) | _ \<Rightarrow> bad)
      else st)"

definition json_Unmarshal :: "bytes \<Rightarrow> error + Blockheight" where
  "json_Unmarshal data =
     (case json_parse data of
        Inl e \<Rightarrow> Inl e
      | Inr JNull \<Rightarrow> Inr zero_Blockheight
      | Inr (JObj ms) \<Rightarrow>
          (case fold json_member ms (zero_Blockheight, None) of
             (b, None) \<Rightarrow> Inr b
           | (b, Some e) \<Rightarrow> Inl e)
      | Inr _ \<Rightarrow> Inl type_error)"

section \<open>The operations\<close>

definition os_ReadFile :: "'w go_runtime \<Rightarrow> ('w, 'kp, bytes option) daemon" where
  "os_ReadFile R =
     bindM (worldP (read_fault R)) (\<lambda>fault.
       case fault of Some e \<Rightarrow> failM e | None \<Rightarrow> getM disk)"

definition os_WriteFile :: "'w go_runtime \<Rightarrow> bytes \<Rightarrow> ('w, 'kp, unit) daemon" where
  "os_WriteFile R data =
     bindM (worldP (write_fault R)) (\<lambda>fault.
       case fault of
         None \<Rightarrow> modifyM (\<lambda>s. s\<lparr>disk := Some data\<rparr>)
       | Some (e, left) \<Rightarrow> bindM (modifyM (\<lambda>s. s\<lparr>disk := left\<rparr>)) (\<lambda>_. failM e))"

definition GetHeight :: "'w go_runtime \<Rightarrow> ('w, 'kp, Blockheight) daemon" where
  "GetHeight R =
     bindM (os_ReadFile R) (\<lambda>file.
       case file of
         None \<Rightarrow> returnM zero_Blockheight
       | Some data \<Rightarrow> liftE (json_Unmarshal data))"

definition Save :: "'w go_runtime \<Rightarrow> Blockheight \<Rightarrow> ('w, 'kp, unit) daemon" where
  "Save R blockheight = os_WriteFile R (json_Marshal blockheight)"

definition SaveHeight :: "'w go_runtime \<Rightarrow> uint32 \<Rightarrow> ('w, 'kp, unit) daemon" where
  "SaveHeight R height = bindM (GetHeight R) (\<lambda>b. Save R (b\<lparr>LastHeight := height\<rparr>))"

definition SaveStellarCursor :: "'w go_runtime \<Rightarrow> string \<Rightarrow> ('w, 'kp, unit) daemon" where
  "SaveStellarCursor R cursor = bindM (GetHeight R) (\<lambda>b. Save R (b\<lparr>StellarCursor := cursor\<rparr>))"

section \<open>Reading back what was saved\<close>

definition ascii_string :: "string \<Rightarrow> bool" where
  "ascii_string s \<longleftrightarrow> list_all (\<lambda>c. ascii c < 128) s"

lemma keys_encoded:
  "json_encode_string ''lastHeight'' = CHR 0x22 # ''lastHeight'' @ [CHR 0x22]"
  "json_encode_string ''stellarCursor'' = CHR 0x22 # ''stellarCursor'' @ [CHR 0x22]"
  by code_simp+

lemma parse_keys:
  "parse_str (''lastHeight'' @ CHR 0x22 # r) = Some (''lastHeight'', r)"
  "parse_str (''stellarCursor'' @ CHR 0x22 # r) = Some (''stellarCursor'', r)"
proof -
  have e: "json_encode_body ''lastHeight'' = ''lastHeight''"
    "json_encode_body ''stellarCursor'' = ''stellarCursor''" by code_simp+
  show "parse_str (''lastHeight'' @ CHR 0x22 # r) = Some (''lastHeight'', r)"
    using parse_str_encode [of "''lastHeight''" r] by (simp only: e) simp
  show "parse_str (''stellarCursor'' @ CHR 0x22 # r) = Some (''stellarCursor'', r)"
    using parse_str_encode [of "''stellarCursor''" r] by (simp only: e) simp
qed

lemma skip_ws_digits: "n = show_nat k \<Longrightarrow> skip_ws (n @ r) = n @ r"
proof -
  assume n: "n = show_nat k"
  obtain c cs where s: "show_nat k = c # cs" by (cases "show_nat k") auto
  with show_nat_digits [of k] have "is_digit c" by simp
  then have "\<not> is_ws c" by (auto simp: is_digit_iff is_ws_def)
  with n s show ?thesis by (simp add: skip_ws_def)
qed

lemma parse_value_number:
  "r = CHR '','' # u \<Longrightarrow> parse_value d (show_nat k @ r) = Some (JNum (show_nat k), r)"
proof -
  assume r: "r = CHR '','' # u"
  obtain c cs where s: "show_nat k = c # cs" by (cases "show_nat k") auto
  with show_nat_digits [of k] have c: "is_digit c" by simp
  then have "c \<noteq> CHR ''{''" "c \<noteq> CHR ''[''" "ascii c \<noteq> 34" "c \<noteq> CHR ''t''" "c \<noteq> CHR ''f''" "c \<noteq> CHR ''n''"
    by (auto simp: is_digit_iff)
  moreover have "parse_num (c # cs @ r) = Some (show_nat k, r)"
    using parse_num_show_nat [OF r, of k] s by simp
  moreover have "skip_ws (show_nat k @ r) = c # cs @ r" using skip_ws_digits [OF refl, of k r] s by simp
  ultimately show ?thesis using s by (simp add: parse_value.simps)
qed

lemma parse_value_string:
  "ascii_string s \<Longrightarrow> parse_value d (json_encode_string s @ r) = Some (JStr s, r)"
  using parse_str_encode [of s r]
  by (simp add: parse_value.simps json_encode_string_def skip_ws_def is_ws_def ascii_string_def)

lemma json_parse_Marshal:
  assumes "ascii_string (StellarCursor b)"
  shows "json_parse (json_Marshal b) =
    Inr (JObj [(''lastHeight'', JNum (show_nat (unat (LastHeight b)))),
               (''stellarCursor'', JStr (StellarCursor b))])"
proof -
  let ?n = "show_nat (unat (LastHeight b))" and ?c = "StellarCursor b"
  define tail1 where "tail1 = CHR 0x22 # ''stellarCursor'' @ CHR 0x22 # CHR '':'' # json_encode_string ?c @ ''}''"
  define body where "body = CHR 0x22 # ''lastHeight'' @ CHR 0x22 # CHR '':'' # ?n @ CHR '','' # tail1"
  have doc: "json_Marshal b = CHR ''{'' # body"
    by (simp add: json_Marshal_def keys_encoded body_def tail1_def)
  have ws: "skip_ws (c # cs) = c # cs" if "\<not> is_ws c" for c cs
    using that by (simp add: skip_ws_def)
  have nws: "\<not> is_ws (CHR 0x22)" "\<not> is_ws (CHR '':'')" "\<not> is_ws (CHR '','')" "\<not> is_ws (CHR ''{'')"
    "\<not> is_ws (CHR ''}'')"
    by (simp_all add: is_ws_def)
  have last: "parse_members 9999 tail1 = Some ([(''stellarCursor'', JStr ?c)], [])"
    unfolding tail1_def
    using parse_keys(2) parse_value_string [OF assms]
    by (subst parse_members.simps) (simp add: ws nws)
  have "parse_members 9999 body =
      Some ([(''lastHeight'', JNum ?n), (''stellarCursor'', JStr ?c)], [])"
    unfolding body_def
    using parse_keys(1) parse_value_number [OF refl] last
    by (subst parse_members.simps) (simp add: ws nws)
  moreover obtain bt where "body = CHR 0x22 # bt" by (simp add: body_def)
  ultimately have "parse_value 10000 (CHR ''{'' # body) =
      Some (JObj [(''lastHeight'', JNum ?n), (''stellarCursor'', JStr ?c)], [])"
    by (subst parse_value.simps) (simp add: ws nws)
  then show ?thesis by (simp add: json_parse_def doc skip_ws_def)
qed

lemma json_Unmarshal_Marshal:
  assumes "ascii_string (StellarCursor b)"
  shows "json_Unmarshal (json_Marshal b) = Inr b"
proof -
  have "fold_key ''lastHeight'' = ''lastheight''" "fold_key ''stellarCursor'' = ''stellarcursor''"
    by code_simp+
  moreover have "unat (LastHeight b) < 2 ^ 32" using unsigned_less [of "LastHeight b"] by simp
  ultimately show ?thesis
    by (simp add: json_Unmarshal_def json_parse_Marshal [OF assms] json_member_def show_nat_digits
        zero_Blockheight_def)
qed

lemma GetHeight_eq:
  "GetHeight R s =
     (case read_fault R (world s) of
        (Some e, w) \<Rightarrow> Some (Err e, s\<lparr>world := w\<rparr>)
      | (None, w) \<Rightarrow>
          (case disk s of
             None \<Rightarrow> Some (Ok zero_Blockheight, s\<lparr>world := w\<rparr>)
           | Some data \<Rightarrow>
               (case json_Unmarshal data of
                  Inl e \<Rightarrow> Some (Err e, s\<lparr>world := w\<rparr>)
                | Inr b \<Rightarrow> Some (Ok b, s\<lparr>world := w\<rparr>))))"
  by (simp add: GetHeight_def os_ReadFile_def worldP_def prog_defs
      split: prod.splits option.splits sum.splits)

lemma Save_Ok:
  "Save R b s = Some (Ok (), t) \<Longrightarrow> disk t = Some (json_Marshal b) \<and> wallet t = wallet s"
  by (auto simp: Save_def os_WriteFile_def worldP_def prog_defs split: prod.splits option.splits)

lemma persistency_keeps [keeps_rules]:
  "keeps wallet (GetHeight R)" "keeps disk (GetHeight R)" "keeps wallet (Save R b)"
  "keeps wallet (SaveHeight R h)" "keeps wallet (SaveStellarCursor R c)"
  unfolding GetHeight_def os_ReadFile_def Save_def os_WriteFile_def SaveHeight_def SaveStellarCursor_def
  by (intro keeps_rules keeps_modifyM; simp)+

lemma persistency_returns [returns_rules]:
  "returns (GetHeight R)" "returns (Save R b)" "returns (SaveHeight R h)" "returns (SaveStellarCursor R c)"
  unfolding GetHeight_def os_ReadFile_def Save_def os_WriteFile_def SaveHeight_def SaveStellarCursor_def
  by (intro returns_rules)+

lemma persistency_crash_free [crash_free_rules]:
  "crash_free (GetHeight R)" "crash_free (Save R b)" "crash_free (SaveHeight R h)"
  "crash_free (SaveStellarCursor R c)"
  unfolding GetHeight_def os_ReadFile_def Save_def os_WriteFile_def SaveHeight_def SaveStellarCursor_def
  by (intro crash_free_rules)+

text \<open>A successful save reads the file as it was and replaces one of its two fields.\<close>

lemma SaveStellarCursor_Ok:
  assumes "SaveStellarCursor R c s = Some (Ok (), t)"
  obtains b where "disk s = None \<and> b = zero_Blockheight \<or> (\<exists>d. disk s = Some d \<and> json_Unmarshal d = Inr b)"
    and "disk t = Some (json_Marshal (b\<lparr>StellarCursor := c\<rparr>))"
proof -
  from assms obtain b u where g: "GetHeight R s = Some (Ok b, u)"
    and sv: "Save R (b\<lparr>StellarCursor := c\<rparr>) u = Some (Ok (), t)"
    by (auto simp: SaveStellarCursor_def bindM_Ok_iff)
  from g have "disk s = None \<and> b = zero_Blockheight \<or> (\<exists>d. disk s = Some d \<and> json_Unmarshal d = Inr b)"
    by (auto simp: GetHeight_eq split: prod.splits option.splits sum.splits)
  moreover from sv have "disk t = Some (json_Marshal (b\<lparr>StellarCursor := c\<rparr>))" by (simp add: Save_Ok)
  ultimately show thesis by (rule that)
qed

lemma SaveHeight_Ok:
  assumes "SaveHeight R h s = Some (Ok (), t)"
  obtains b where "disk s = None \<and> b = zero_Blockheight \<or> (\<exists>d. disk s = Some d \<and> json_Unmarshal d = Inr b)"
    and "disk t = Some (json_Marshal (b\<lparr>LastHeight := h\<rparr>))"
proof -
  from assms obtain b u where g: "GetHeight R s = Some (Ok b, u)"
    and sv: "Save R (b\<lparr>LastHeight := h\<rparr>) u = Some (Ok (), t)"
    by (auto simp: SaveHeight_def bindM_Ok_iff)
  from g have "disk s = None \<and> b = zero_Blockheight \<or> (\<exists>d. disk s = Some d \<and> json_Unmarshal d = Inr b)"
    by (auto simp: GetHeight_eq split: prod.splits option.splits sum.splits)
  moreover from sv have "disk t = Some (json_Marshal (b\<lparr>LastHeight := h\<rparr>))" by (simp add: Save_Ok)
  ultimately show thesis by (rule that)
qed

section \<open>The store of the cursor\<close>

text \<open>What a restarted daemon would read from the file; \<open>None\<close> when the file is not readable as one.\<close>

definition stored :: "('w, 'kp) state \<Rightarrow> Blockheight option" where
  "stored s =
     (case disk s of
        None \<Rightarrow> Some zero_Blockheight
      | Some data \<Rightarrow> (case json_Unmarshal data of Inl e \<Rightarrow> None | Inr b \<Rightarrow> Some b))"

definition stored_cursor :: "('w, 'kp) state \<Rightarrow> string option" where
  "stored_cursor s = map_option StellarCursor (stored s)"

lemma stored_cursor_disk: "disk t = disk s \<Longrightarrow> stored_cursor t = stored_cursor s"
  by (simp add: stored_cursor_def stored_def)

lemma keeps_stored_cursor: "keeps disk m \<Longrightarrow> keeps stored_cursor m"
  unfolding keeps_def using stored_cursor_disk by blast

text \<open>
  The contract between the handlers and the file: a save that succeeds is what a restart reads, and
  the call always comes back. The handlers do their work first and save the cursor last.
\<close>

locale cursor_store =
  fixes save :: "string \<Rightarrow> ('s, unit) prog"
    and cursor :: "'s \<Rightarrow> string option"
    and storable :: "string \<Rightarrow> bool"
  assumes save_stores: "save c s = Some (Ok (), t) \<Longrightarrow> storable c \<Longrightarrow> cursor t = Some c"
    and save_returns: "returns (save c)"
begin

lemma saved_last:
  assumes "bindM m (\<lambda>_. save c) s = Some (Ok (), t)" and "storable c"
  obtains a u where "m s = Some (Ok a, u)" and "cursor t = Some c"
  using assms save_stores unfolding bindM_Ok_iff by blast

lemma moved_only_after_success:
  assumes "bindM m (\<lambda>_. save c) s = Some (r, t)" and "keeps cursor m" and "cursor t \<noteq> cursor s"
  obtains a u where "m s = Some (Ok a, u)" and "save c u = Some (r, t)"
  using assms keepsD [OF assms(2)] unfolding bindM_Some_iff by blast

lemma save_last_returns: "m s \<noteq> None \<Longrightarrow> bindM m (\<lambda>_. save c) s \<noteq> None"
  using save_returns by (auto simp: bindM_def returns_def split: option.splits outcome.splits)

end

lemma SaveStellarCursor_stored:
  assumes "SaveStellarCursor R c s = Some (Ok (), t)" and "ascii_string c"
  shows "\<exists>b. stored s = Some b \<and> stored t = Some (b\<lparr>StellarCursor := c\<rparr>)"
proof -
  obtain b where b: "disk s = None \<and> b = zero_Blockheight \<or> (\<exists>d. disk s = Some d \<and> json_Unmarshal d = Inr b)"
    and t: "disk t = Some (json_Marshal (b\<lparr>StellarCursor := c\<rparr>))"
    using assms(1) by (rule SaveStellarCursor_Ok)
  from b have "stored s = Some b" by (auto simp: stored_def)
  moreover have "json_Unmarshal (json_Marshal (b\<lparr>StellarCursor := c\<rparr>)) = Inr (b\<lparr>StellarCursor := c\<rparr>)"
    by (rule json_Unmarshal_Marshal) (simp add: assms(2))
  ultimately show ?thesis using t by (simp add: stored_def)
qed

interpretation cursor_file: cursor_store "SaveStellarCursor R" stored_cursor ascii_string for R
proof
  fix c s and t :: "('a, 'b) state"
  assume "SaveStellarCursor R c s = Some (Ok (), t)" and "ascii_string c"
  from SaveStellarCursor_stored [OF this] show "stored_cursor t = Some c"
    by (auto simp: stored_cursor_def)
next
  show "returns (SaveStellarCursor R c)" for c by (rule persistency_returns)
qed

section \<open>Properties\<close>

text \<open>
  C36: What \<open>Save\<close> writes, \<open>GetHeight\<close> reads back: for every height and every cursor of ASCII
  characters (Stellar's paging tokens are digits), the JSON document round-trips.
\<close>

theorem blockheight_roundtrip:
  assumes "ascii_string (StellarCursor b)" and "Save R b s = Some (Ok (), t)"
    and "read_fault R (world t) = (None, w)"
  shows "GetHeight R t = Some (Ok b, t\<lparr>world := w\<rparr>)"
  using Save_Ok [OF assms(2)] assms(3) by (simp add: GetHeight_eq json_Unmarshal_Marshal [OF assms(1)])

lemma sample_Save: "Save sample_runtime b s = Some (Ok (), s\<lparr>disk := Some (json_Marshal b)\<rparr>)"
  by (simp add: Save_def os_WriteFile_def worldP_def sample_runtime_def prog_defs)

lemma sample_GetHeight:
  "stored s = Some b \<Longrightarrow> GetHeight sample_runtime s = Some (Ok b, s)"
  by (simp add: GetHeight_eq sample_runtime_def stored_def split: option.splits sum.splits)

theorem blockheight_roundtrip_witness:
  "\<exists>t. Save sample_runtime \<lparr>LastHeight = 7, StellarCursor = ''1001''\<rparr> (sample_state ()) = Some (Ok (), t) \<and>
     GetHeight sample_runtime t = Some (Ok \<lparr>LastHeight = 7, StellarCursor = ''1001''\<rparr>, t)"
proof -
  let ?b = "\<lparr>LastHeight = 7, StellarCursor = ''1001''\<rparr>" and ?s = "sample_state ()"
  let ?t = "?s\<lparr>disk := Some (json_Marshal ?b)\<rparr>"
  have "ascii_string (StellarCursor ?b)" by (simp add: ascii_string_def)
  moreover have "Save sample_runtime ?b ?s = Some (Ok (), ?t)" by (rule sample_Save)
  moreover have "read_fault sample_runtime (world ?t) = (None, world ?t)" by (simp add: sample_runtime_def)
  ultimately have "GetHeight sample_runtime ?t = Some (Ok ?b, ?t\<lparr>world := world ?t\<rparr>)"
    by (rule blockheight_roundtrip)
  then show ?thesis using sample_Save by auto
qed

text \<open>
  Saving the cursor keeps the height that is on file, saving the height keeps the cursor, and
  each is what a restart reads.
\<close>

theorem saves_are_independent:
  assumes "ascii_string c" and "stored s = Some b" and "ascii_string (StellarCursor b)"
    and "SaveStellarCursor R c s = Some (Ok (), t)" and "SaveHeight R h t = Some (Ok (), u)"
  shows "stored t = Some \<lparr>LastHeight = LastHeight b, StellarCursor = c\<rparr> \<and>
    stored u = Some \<lparr>LastHeight = h, StellarCursor = c\<rparr>"
proof -
  from SaveStellarCursor_stored [OF assms(4,1)] assms(2)
  have t: "stored t = Some \<lparr>LastHeight = LastHeight b, StellarCursor = c\<rparr>" by simp
  obtain b' where b': "disk t = None \<and> b' = zero_Blockheight \<or> (\<exists>d. disk t = Some d \<and> json_Unmarshal d = Inr b')"
    and u: "disk u = Some (json_Marshal (b'\<lparr>LastHeight := h\<rparr>))"
    using assms(5) by (rule SaveHeight_Ok)
  from b' t have "b' = \<lparr>LastHeight = LastHeight b, StellarCursor = c\<rparr>" by (auto simp: stored_def)
  then have "json_Unmarshal (json_Marshal (b'\<lparr>LastHeight := h\<rparr>)) = Inr \<lparr>LastHeight = h, StellarCursor = c\<rparr>"
    using json_Unmarshal_Marshal [of "b'\<lparr>LastHeight := h\<rparr>"] assms(1) by simp
  with t u show ?thesis by (simp add: stored_def)
qed

theorem saves_are_independent_witness:
  "\<exists>t u. SaveStellarCursor sample_runtime ''1001'' (sample_state ()) = Some (Ok (), t) \<and>
     SaveHeight sample_runtime 5 t = Some (Ok (), u) \<and>
     stored u = Some \<lparr>LastHeight = 5, StellarCursor = ''1001''\<rparr>"
proof -
  let ?s = "sample_state ()"
  have s: "stored ?s = Some zero_Blockheight" by (simp add: stored_def sample_state_def)
  let ?t = "?s\<lparr>disk := Some (json_Marshal (zero_Blockheight\<lparr>StellarCursor := ''1001''\<rparr>))\<rparr>"
  have t: "SaveStellarCursor sample_runtime ''1001'' ?s = Some (Ok (), ?t)"
    by (simp add: SaveStellarCursor_def bindM_def sample_GetHeight [OF s] sample_Save)
  have a: "ascii_string ''1001''" by (simp add: ascii_string_def)
  obtain b where "stored ?t = Some b" using SaveStellarCursor_stored [OF t a] by blast
  then obtain u where u: "SaveHeight sample_runtime 5 ?t = Some (Ok (), u)"
    by (simp add: SaveHeight_def bindM_def sample_GetHeight sample_Save)
  have "ascii_string (StellarCursor zero_Blockheight)" by (simp add: ascii_string_def zero_Blockheight_def)
  from saves_are_independent [OF a s this t u] t u show ?thesis by blast
qed

end
