(* ===== verification/SampleChain.thy ===== *)
theory SampleChain
  imports SampleWorld
begin

text \<open>
  A small concrete chain for the witnesses, in the open part of the sample network: it records the
  extrinsics it accepted and rejects the next \<open>sc_reject\<close> ones. Nothing in the model depends on it.
\<close>

record sample_chain_state =
  sc_votes :: "(string \<times> AccountID \<times> int) list"
  sc_burned :: "uint64 list"
  sc_refunded :: "string list"
  sc_burns :: "(uint64 \<times> BurnTransaction) list"
  sc_refunds :: "(string \<times> RefundTransaction) list"
  sc_records :: "(uint32 \<times> EventRecords) list"
  sc_reject :: nat

type_synonym sample = "sample_chain_state sample_world"

definition find_or :: "('a \<times> 'b) list \<Rightarrow> 'a \<Rightarrow> error + 'b" where
  "find_or m k = (case map_of m k of None \<Rightarrow> Inl not_found | Some v \<Rightarrow> Inr v)"

definition extrinsic :: "(sample_chain_state \<Rightarrow> sample_chain_state) \<Rightarrow> sample \<Rightarrow> error option \<times> sample" where
  "extrinsic f w =
     (if sc_reject (sw_chain w) = 0 then (None, w\<lparr>sw_chain := f (sw_chain w)\<rparr>)
      else (Some (LibraryError ''rejected''), w\<lparr>sw_chain := (sw_chain w)\<lparr>sc_reject := sc_reject (sw_chain w) - 1\<rparr>\<rparr>))"

definition sign_burn :: "uint64 \<Rightarrow> string \<Rightarrow> int \<Rightarrow> StellarSignature \<Rightarrow> uint64 \<Rightarrow> sample_chain_state \<Rightarrow> sample_chain_state" where
  "sign_burn i target amount sig seqno c = c\<lparr>sc_burns :=
     (i, \<lparr>burn_Target = target, burn_Amount = of_int amount,
          burn_Signatures = (case map_of (sc_burns c) i of None \<Rightarrow> [] | Some b \<Rightarrow> burn_Signatures b) @ [sig],
          burn_SequenceNumber = seqno\<rparr>) # sc_burns c\<rparr>"

definition sign_refund :: "string \<Rightarrow> string \<Rightarrow> int64 \<Rightarrow> StellarSignature \<Rightarrow> uint64 \<Rightarrow> sample_chain_state \<Rightarrow> sample_chain_state" where
  "sign_refund h target amount sig seqno c = c\<lparr>sc_refunds :=
     (h, \<lparr>refund_Target = target, refund_Amount = amount, refund_TxHash = h,
          refund_Signatures = (case map_of (sc_refunds c) h of None \<Rightarrow> [] | Some b \<Rightarrow> refund_Signatures b) @ [sig],
          refund_SequenceNumber = seqno\<rparr>) # sc_refunds c\<rparr>"

text \<open>Twin 1 and twin 2 exist, farm 1 and node 1 belong to twin 2, entity 1 too.\<close>

definition sample_twin :: "uint32 \<Rightarrow> error + AccountID" where
  "sample_twin i = (if i = 1 then Inr ''dave'' else if i = 2 then Inr ''erin'' else Inl not_found)"

definition sample_chain :: "(sample, string) chain_api" where
  "sample_chain =
     \<lparr>IsMintedAlready = (\<lambda>h w. (if h \<in> fst ` set (sc_votes (sw_chain w)) then (True, None)
        else (False, Some ErrMintTransactionNotFound), w)),
      IsBurnedAlready = (\<lambda>i w. (Inr (i \<in> set (sc_burned (sw_chain w))), w)),
      IsRefundedAlready = (\<lambda>h w. (Inr (h \<in> set (sc_refunded (sw_chain w))), w)),
      ProposeOrVoteMintTransaction = (\<lambda>_ h a n. extrinsic (\<lambda>c. c\<lparr>sc_votes := (h, a, n) # sc_votes c\<rparr>)),
      SetBurnTransactionExecuted = (\<lambda>_ i. extrinsic (\<lambda>c. c\<lparr>sc_burned := i # sc_burned c\<rparr>)),
      ProposeBurnTransactionOrAddSig = (\<lambda>_ i t n sig addr seqno.
        extrinsic (sign_burn i t n \<lparr>Signature = sig, StellarAddress = addr\<rparr> seqno)),
      CreateRefundTransactionOrAddSig = (\<lambda>_ h t n sig addr seqno.
        extrinsic (sign_refund h t n \<lparr>Signature = sig, StellarAddress = addr\<rparr> seqno)),
      SetRefundTransactionExecuted = (\<lambda>_ h. extrinsic (\<lambda>c. c\<lparr>sc_refunded := h # sc_refunded c\<rparr>)),
      GetBurnTransaction = (\<lambda>i w. (find_or (sc_burns (sw_chain w)) i, w)),
      GetRefundTransaction = (\<lambda>h w. (find_or (sc_refunds (sw_chain w)) h, w)),
      GetTwinAccount = (\<lambda>i w. (sample_twin i, w)),
      GetFarmTwinID = (\<lambda>i w. (if i = 1 then Inr 2 else Inl not_found, w)),
      GetNodeTwinID = (\<lambda>i w. (if i = 1 then Inr 2 else Inl not_found, w)),
      GetEntityAccount = (\<lambda>i w. (if i = 1 then Inr ''erin'' else Inl not_found, w)),
      GetDepositFee = (\<lambda>w. (Inr 10000000, w)),
      GetEventsForBlock = (\<lambda>h w. (find_or (sc_records (sw_chain w)) h, w)),
      ManagerSubstrate = (\<lambda>_ w. (None, w)),
      IsValidator = (\<lambda>i w. (Inr (i \<in> {''alice'', ''bob''}), w)),
      NewIdentityFromSr25519Phrase = Inr,
      AccountString = (\<lambda>a. ''5'' @ a),
      FromAddress = (\<lambda>s. case s of [] \<Rightarrow> Inl not_found | c # cs \<Rightarrow> Inr cs)\<rparr>"

definition fresh_chain :: sample_chain_state where
  "fresh_chain = \<lparr>sc_votes = [], sc_burned = [], sc_refunded = [], sc_burns = [], sc_refunds = [],
     sc_records = [], sc_reject = 0\<rparr>"

definition sample_env :: "(sample, sample_tx, string, string) env" where
  "sample_env = \<lparr>chain = sample_chain, stellar = sample_stellar, runtime = sample_runtime\<rparr>"

named_theorems chain_defs \<open>definitions of the sample chain\<close>

lemmas [chain_defs] = sample_chain_def fresh_chain_def find_or_def extrinsic_def sign_burn_def
  sign_refund_def sample_twin_def sample_env_def

text \<open>The fields one by one, so that an evaluation keeps the big records folded.\<close>

lemma sample_chain_fields:
  "IsMintedAlready sample_chain h w = (if h \<in> fst ` set (sc_votes (sw_chain w)) then (True, None)
     else (False, Some ErrMintTransactionNotFound), w)"
  "IsBurnedAlready sample_chain i w = (Inr (i \<in> set (sc_burned (sw_chain w))), w)"
  "IsRefundedAlready sample_chain h w = (Inr (h \<in> set (sc_refunded (sw_chain w))), w)"
  "ProposeOrVoteMintTransaction sample_chain x h a n = extrinsic (\<lambda>c. c\<lparr>sc_votes := (h, a, n) # sc_votes c\<rparr>)"
  "SetBurnTransactionExecuted sample_chain x i = extrinsic (\<lambda>c. c\<lparr>sc_burned := i # sc_burned c\<rparr>)"
  "ProposeBurnTransactionOrAddSig sample_chain x i t n sig addr seqno =
     extrinsic (sign_burn i t n \<lparr>Signature = sig, StellarAddress = addr\<rparr> seqno)"
  "CreateRefundTransactionOrAddSig sample_chain x h t m sig addr seqno =
     extrinsic (sign_refund h t m \<lparr>Signature = sig, StellarAddress = addr\<rparr> seqno)"
  "SetRefundTransactionExecuted sample_chain x h = extrinsic (\<lambda>c. c\<lparr>sc_refunded := h # sc_refunded c\<rparr>)"
  "GetBurnTransaction sample_chain i w = (find_or (sc_burns (sw_chain w)) i, w)"
  "GetRefundTransaction sample_chain h w = (find_or (sc_refunds (sw_chain w)) h, w)"
  "GetTwinAccount sample_chain k w = (sample_twin k, w)"
  "GetFarmTwinID sample_chain k w = (if k = 1 then Inr 2 else Inl not_found, w)"
  "GetNodeTwinID sample_chain k w = (if k = 1 then Inr 2 else Inl not_found, w)"
  "GetEntityAccount sample_chain k w = (if k = 1 then Inr ''erin'' else Inl not_found, w)"
  "GetDepositFee sample_chain w = (Inr 10000000, w)"
  "AccountString sample_chain a = ''5'' @ a"
  "FromAddress sample_chain (c # cs) = Inr cs"
  by (simp_all add: sample_chain_def)

lemma sample_env_fields:
  "chain sample_env = sample_chain" "stellar sample_env = sample_stellar" "runtime sample_env = sample_runtime"
  "Address sample_stellar kp = ''G'' @ kp"
  by (simp_all add: sample_env_def sample_stellar_def)

lemma sample_state_fields:
  "wallet (sample_state c) = sample_wallet" "disk (sample_state c) = None" "sw_chain (world (sample_state c)) = c"
  "wal_keypair sample_wallet = ''alice''" "wal_sequenceNumber sample_wallet = 41"
  "wal_config sample_wallet = sample_config" "wal_signatureCount sample_wallet = 1"
  "StellarBridgeAccount sample_config = ''GBRIDGE''"
  by (simp_all add: sample_state_def sample_net_def sample_wallet_def sample_config_def)

lemmas sample_fields = sample_chain_fields sample_env_fields sample_state_fields

end
