(* ===== verification/SubstrateClient.thy ===== *)
theory SubstrateClient
  imports SampleChain
begin

text \<open>
  \<open>pkg/substrate/client.go\<close> and the event decoding of \<open>pkg/substrate/events.go\<close>. Every extrinsic is
  sent by a loop that retries until it succeeds, the transaction turns out to be done already, the
  context is cancelled, or the check itself fails. The loop may never end, so it is a partial
  function; the theorems say when it returns and with what.
\<close>

section \<open>The client\<close>

text \<open>\<open>NewSubstrateClient\<close>: connect, derive the identity, and refuse an account that is no validator.\<close>

definition NewSubstrateClient ::
    "('w, 'id) chain_api \<Rightarrow> string \<Rightarrow> string \<Rightarrow> 'w \<Rightarrow> (error + 'id) \<times> 'w" where
  "NewSubstrateClient C url seed w =
     (case ManagerSubstrate C url w of
        (Some e, w1) \<Rightarrow> (Inl e, w1)
      | (None, w1) \<Rightarrow>
          (case NewIdentityFromSr25519Phrase C seed of
             Inl e \<Rightarrow> (Inl e, w1)
           | Inr identity \<Rightarrow>
               (case IsValidator C identity w1 of
                  (Inl e, w2) \<Rightarrow> (Inl e, w2)
                | (Inr False, w2) \<Rightarrow>
                    (Inl (ErrorString ''account provided is not a validator for the bridge runtime''), w2)
                | (Inr True, w2) \<Rightarrow> (Inr identity, w2))))"

section \<open>The retry loop\<close>

text \<open>One round of \<open>select\<close>: the daemon's context may be cancelled, the background one never is.\<close>

definition wait_round :: "'w go_runtime \<Rightarrow> go_context \<Rightarrow> 'w \<Rightarrow> bool \<times> 'w" where
  "wait_round R ctx w = (let (done, w1) = select_wait R w in (ctx = DaemonContext \<and> done, w1))"

text \<open>
  \<open>for err != nil { select { case <-ctx.Done(): return err; case <-time.After(..): check; err = attempt } }\<close>:
  \<open>check err\<close> is what the loop does when the timer fires, an error to return or the answer
  whether the transaction is already there.
\<close>

partial_function (option) retry_loop ::
    "('w \<Rightarrow> bool \<times> 'w) \<Rightarrow> (error \<Rightarrow> 'w \<Rightarrow> (error + bool) \<times> 'w) \<Rightarrow> ('w \<Rightarrow> error option \<times> 'w)
      \<Rightarrow> error option \<Rightarrow> 'w \<Rightarrow> (error option \<times> 'w) option" where
  "retry_loop wait check attempt err w =
     (case err of
        None \<Rightarrow> Some (None, w)
      | Some e \<Rightarrow>
          (let (done, w1) = wait w in
           if done then Some (Some e, w1)
           else
             (let (r, w2) = check e w1 in
              case r of
                Inl e' \<Rightarrow> Some (Some e', w2)
              | Inr already \<Rightarrow>
                  if already then Some (None, w2)
                  else (let (err', w3) = attempt w2 in retry_loop wait check attempt err' w3))))"

text \<open>\<open>err := attempt()\<close>, then the loop.\<close>

definition retry ::
    "('w \<Rightarrow> bool \<times> 'w) \<Rightarrow> (error \<Rightarrow> 'w \<Rightarrow> (error + bool) \<times> 'w) \<Rightarrow> ('w \<Rightarrow> error option \<times> 'w)
      \<Rightarrow> 'w \<Rightarrow> (error option \<times> 'w) option" where
  "retry wait check attempt w = (case attempt w of (err, w1) \<Rightarrow> retry_loop wait check attempt err w1)"

definition RetrySetWithdrawExecuted ::
    "('w, 'id) chain_api \<Rightarrow> 'w go_runtime \<Rightarrow> 'id \<Rightarrow> go_context \<Rightarrow> uint64 \<Rightarrow> 'w
      \<Rightarrow> (error option \<times> 'w) option" where
  "RetrySetWithdrawExecuted C R identity ctx txid =
     retry (wait_round R ctx) (\<lambda>_. IsBurnedAlready C txid) (SetBurnTransactionExecuted C identity txid)"

definition RetryProposeWithdrawOrAddSig ::
    "('w, 'id) chain_api \<Rightarrow> 'w go_runtime \<Rightarrow> 'id \<Rightarrow> go_context \<Rightarrow> uint64 \<Rightarrow> string \<Rightarrow> int \<Rightarrow> string
      \<Rightarrow> string \<Rightarrow> uint64 \<Rightarrow> 'w \<Rightarrow> (error option \<times> 'w) option" where
  "RetryProposeWithdrawOrAddSig C R identity ctx txID target amount signature stellarAddress seqno =
     retry (wait_round R ctx) (\<lambda>_. IsBurnedAlready C txID)
       (ProposeBurnTransactionOrAddSig C identity txID target amount signature stellarAddress seqno)"

definition RetryCreateRefundTransactionOrAddSig ::
    "('w, 'id) chain_api \<Rightarrow> 'w go_runtime \<Rightarrow> 'id \<Rightarrow> go_context \<Rightarrow> string \<Rightarrow> string \<Rightarrow> int64 \<Rightarrow> string
      \<Rightarrow> string \<Rightarrow> uint64 \<Rightarrow> 'w \<Rightarrow> (error option \<times> 'w) option" where
  "RetryCreateRefundTransactionOrAddSig C R identity ctx txHash target amount signature stellarAddress seqno =
     retry (wait_round R ctx) (\<lambda>_. IsRefundedAlready C txHash)
       (CreateRefundTransactionOrAddSig C identity txHash target amount signature stellarAddress seqno)"

definition RetrySetRefundTransactionExecutedTx ::
    "('w, 'id) chain_api \<Rightarrow> 'w go_runtime \<Rightarrow> 'id \<Rightarrow> go_context \<Rightarrow> string \<Rightarrow> 'w
      \<Rightarrow> (error option \<times> 'w) option" where
  "RetrySetRefundTransactionExecutedTx C R identity ctx txHash =
     retry (wait_round R ctx) (\<lambda>_. IsRefundedAlready C txHash) (SetRefundTransactionExecuted C identity txHash)"

text \<open>
  In the mint loop the not-found error of the check means \<open>go on with the flag\<close>, and any other error
  of the check makes the loop return the error of the last attempt, not that of the check.
\<close>

definition mint_check :: "('w, 'id) chain_api \<Rightarrow> string \<Rightarrow> error \<Rightarrow> 'w \<Rightarrow> (error + bool) \<times> 'w" where
  "mint_check C txID err w =
     (case IsMintedAlready C txID w of
        ((minted, None), w1) \<Rightarrow> (Inr minted, w1)
      | ((minted, Some mErr), w1) \<Rightarrow>
          if errors_Is mErr ErrMintTransactionNotFound then (Inr minted, w1) else (Inl err, w1))"

definition RetryProposeMintOrVote ::
    "('w, 'id) chain_api \<Rightarrow> 'w go_runtime \<Rightarrow> 'id \<Rightarrow> go_context \<Rightarrow> string \<Rightarrow> AccountID \<Rightarrow> int \<Rightarrow> 'w
      \<Rightarrow> (error option \<times> 'w) option" where
  "RetryProposeMintOrVote C R identity ctx txID target amount =
     retry (wait_round R ctx) (mint_check C txID) (ProposeOrVoteMintTransaction C identity txID target amount)"

section \<open>Events of a block\<close>

definition processEventRecords :: "EventRecords \<Rightarrow> Events" where
  "processEventRecords ev =
     \<lparr>WithdrawCreatedEvents =
        map (\<lambda>(i, src, t, a). \<lparr>wc_ID = i, wc_Source = src, wc_Target = t, wc_Amount = a\<rparr>)
          (BurnTransactionCreated ev),
      WithdrawReadyEvents = map (\<lambda>i. \<lparr>wr_ID = i\<rparr>) (BurnTransactionReady ev),
      WithdrawExpiredEvents =
        map (\<lambda>(i, t, a). \<lparr>we_ID = i, we_Target = t, we_Amount = a\<rparr>) (BurnTransactionExpired ev),
      RefundCreatedEvents = [],
      RefundReadyEvents = map (\<lambda>h. \<lparr>rr_Hash = h\<rparr>) (RefundTransactionReady ev),
      RefundExpiredEvents =
        map (\<lambda>(h, t, a). \<lparr>re_Hash = h, re_Target = t, re_Amount = a\<rparr>) (RefundTransactionExpired ev)\<rparr>"

definition processEventsForHeight ::
    "('w, 'id) chain_api \<Rightarrow> uint32 \<Rightarrow> 'w \<Rightarrow> (Events \<times> error option) \<times> 'w" where
  "processEventsForHeight C height w =
     (if height = 0 then ((empty_Events, None), w)
      else (case GetEventsForBlock C height w of
              (Inl e, w1) \<Rightarrow> ((empty_Events, Some e), w1)
            | (Inr records, w1) \<Rightarrow> ((processEventRecords records, None), w1)))"

text \<open>
  What the \<open>select\<close> of the subscription receives: a finalized head; an error of the subscription, with
  the answer whether the back-off got a new one (it gives up after ten minutes, and the nil
  subscription it leaves behind panics at the next round); the cancelled context.
\<close>

datatype head_select = NewHead uint64 | HeadsError bool | HeadsDone

text \<open>
  Each finalized head is sent on as one value of \<open>EventSubscription\<close>, in order; the head's number is
  truncated to 32 bits. Besides the values sent, how the loop ended, \<open>None\<close> while it still waits.
\<close>

fun head_loop ::
    "('w, 'id) chain_api \<Rightarrow> head_select list \<Rightarrow> 'w
      \<Rightarrow> (EventSubscription list \<times> unit outcome option) \<times> 'w" where
  "head_loop C [] w = (([], None), w)"
| "head_loop C (NewHead n # inputs) w =
     (case processEventsForHeight C (ucast n) w of
        ((events, err), w1) \<Rightarrow>
          (case head_loop C inputs w1 of
             ((subs, ended), w2) \<Rightarrow> ((\<lparr>sub_Events = events, sub_Err = err\<rparr> # subs, ended), w2)))"
| "head_loop C (HeadsError resubscribed # inputs) w =
     (if resubscribed then head_loop C inputs w else (([], Some Crash), w))"
| "head_loop C (HeadsDone # inputs) w = (([], Some (Err ContextCanceled)), w)"

text \<open>
  Before the loop: a client that cannot be had and a subscription to the finalized heads that fails
  both end the process with \<open>log.Fatal\<close>.
\<close>

definition SubscribeTfchainBridgeEvents ::
    "('w, 'id) chain_api \<Rightarrow> bool \<Rightarrow> bool \<Rightarrow> head_select list \<Rightarrow> 'w
      \<Rightarrow> (EventSubscription list \<times> unit outcome option) \<times> 'w" where
  "SubscribeTfchainBridgeEvents C got_client subscribed inputs w =
     (if \<not> got_client \<or> \<not> subscribed then (([], Some Crash), w) else head_loop C inputs w)"

section \<open>When the loop returns\<close>

text \<open>The loop with a bound on its rounds: \<open>None\<close> when they are not enough.\<close>

fun retry_upto ::
    "nat \<Rightarrow> ('w \<Rightarrow> bool \<times> 'w) \<Rightarrow> (error \<Rightarrow> 'w \<Rightarrow> (error + bool) \<times> 'w) \<Rightarrow> ('w \<Rightarrow> error option \<times> 'w)
      \<Rightarrow> error option \<Rightarrow> 'w \<Rightarrow> (error option \<times> 'w) option" where
  "retry_upto n wait check attempt None w = Some (None, w)"
| "retry_upto 0 wait check attempt (Some e) w = None"
| "retry_upto (Suc n) wait check attempt (Some e) w =
     (case wait w of
        (True, w1) \<Rightarrow> Some (Some e, w1)
      | (False, w1) \<Rightarrow>
          (case check e w1 of
             (Inl e', w2) \<Rightarrow> Some (Some e', w2)
           | (Inr True, w2) \<Rightarrow> Some (None, w2)
           | (Inr False, w2) \<Rightarrow>
               (case attempt w2 of (err', w3) \<Rightarrow> retry_upto n wait check attempt err' w3)))"

lemma retry_loop_None [simp]: "retry_loop wait check attempt None w = Some (None, w)"
  by (simp add: retry_loop.simps)

lemma retry_loop_Some:
  "retry_loop wait check attempt (Some e) w =
     (case wait w of
        (True, w1) \<Rightarrow> Some (Some e, w1)
      | (False, w1) \<Rightarrow>
          (case check e w1 of
             (Inl e', w2) \<Rightarrow> Some (Some e', w2)
           | (Inr True, w2) \<Rightarrow> Some (None, w2)
           | (Inr False, w2) \<Rightarrow>
               (case attempt w2 of (err', w3) \<Rightarrow> retry_loop wait check attempt err' w3)))"
  by (subst retry_loop.simps) (simp add: Let_def split: prod.splits sum.splits bool.splits)

lemma retry_upto_loop:
  "retry_upto n wait check attempt err w = Some r \<Longrightarrow> retry_loop wait check attempt err w = Some r"
proof (induction n arbitrary: err w)
  case 0
  then show ?case by (cases err) auto
next
  case (Suc n)
  then show ?case
    by (cases err) (auto simp: retry_loop_Some split: prod.splits sum.splits bool.splits)
qed

lemma retry_loop_upto:
  assumes "retry_loop wait check attempt err w = Some r"
  shows "\<exists>n. retry_upto n wait check attempt err w = Some r"
proof (rule retry_loop.raw_induct [where P = "\<lambda>wait check attempt err w r.
      \<exists>n. retry_upto n wait check attempt err w = Some r", OF _ assms])
  fix loop :: "('b \<Rightarrow> bool \<times> 'b) \<Rightarrow> (error \<Rightarrow> 'b \<Rightarrow> (error + bool) \<times> 'b) \<Rightarrow> ('b \<Rightarrow> error option \<times> 'b)
      \<Rightarrow> error option \<Rightarrow> 'b \<Rightarrow> (error option \<times> 'b) option"
    and wait check attempt err w r
  assume IH: "\<And>wait check attempt err w r. loop wait check attempt err w = Some r \<Longrightarrow>
      \<exists>n. retry_upto n wait check attempt err w = Some r"
    and eq: "(case err of None \<Rightarrow> Some (None, w)
      | Some e \<Rightarrow>
          (let (done, w1) = wait w in
           if done then Some (Some e, w1)
           else
             (let (r, w2) = check e w1 in
              case r of
                Inl e' \<Rightarrow> Some (Some e', w2)
              | Inr already \<Rightarrow>
                  if already then Some (None, w2)
                  else (let (err', w3) = attempt w2 in loop wait check attempt err' w3)))) = Some r"
  show "\<exists>n. retry_upto n wait check attempt err w = Some r"
  proof (cases err)
    case None
    with eq show ?thesis by auto
  next
    case (Some e)
    obtain d w1 where wt: "wait w = (d, w1)" by force
    obtain c w2 where ck: "check e w1 = (c, w2)" by force
    obtain err' w3 where att: "attempt w2 = (err', w3)" by force
    show ?thesis
    proof (cases "\<not> d \<and> c = Inr False")
      case True
      with Some eq wt ck att have "loop wait check attempt err' w3 = Some r" by simp
      then obtain n where "retry_upto n wait check attempt err' w3 = Some r" using IH by blast
      with True Some wt ck att have "retry_upto (Suc n) wait check attempt err w = Some r" by simp
      then show ?thesis ..
    next
      case False
      with Some eq wt ck have "retry_upto (Suc 0) wait check attempt err w = Some r"
        by (auto split: sum.splits bool.splits if_splits)
      then show ?thesis ..
    qed
  qed
qed

lemma retry_loop_iff_upto:
  "retry_loop wait check attempt err w = Some r \<longleftrightarrow> (\<exists>n. retry_upto n wait check attempt err w = Some r)"
  using retry_loop_upto retry_upto_loop by metis

text \<open>Induction over the rounds of a loop that returned.\<close>

lemma retry_loop_induct [consumes 1, case_names stop cancelled check_error already again]:
  assumes "retry_loop wait check attempt err w = Some (r, w')"
    and "\<And>w. Q None w None w"
    and "\<And>e w w1. wait w = (True, w1) \<Longrightarrow> Q (Some e) w (Some e) w1"
    and "\<And>e w w1 e' w2. wait w = (False, w1) \<Longrightarrow> check e w1 = (Inl e', w2) \<Longrightarrow> Q (Some e) w (Some e') w2"
    and "\<And>e w w1 w2. wait w = (False, w1) \<Longrightarrow> check e w1 = (Inr True, w2) \<Longrightarrow> Q (Some e) w None w2"
    and "\<And>e w w1 w2 err' w3 r w'. wait w = (False, w1) \<Longrightarrow> check e w1 = (Inr False, w2) \<Longrightarrow>
       attempt w2 = (err', w3) \<Longrightarrow> Q err' w3 r w' \<Longrightarrow> Q (Some e) w r w'"
  shows "Q err w r w'"
proof -
  from assms(1) obtain n where "retry_upto n wait check attempt err w = Some (r, w')"
    using retry_loop_upto [OF assms(1)] by blast
  then show ?thesis
  proof (induction n arbitrary: err w)
    case 0
    then show ?case using assms(2) by (cases err) auto
  next
    case (Suc n)
    show ?case
    proof (cases err)
      case None
      with Suc.prems assms(2) show ?thesis by simp
    next
      case (Some e)
      then show ?thesis
        using Suc.prems assms(3-5) assms(6) [OF _ _ _ Suc.IH]
        by (auto split: prod.splits sum.splits bool.splits)
    qed
  qed
qed

text \<open>A nil result: an attempt succeeded, or a check found the transaction there.\<close>

lemma retry_Ok_cause:
  assumes "retry wait check attempt w = Some (None, w')"
  shows "(\<exists>w0. attempt w0 = (None, w')) \<or> (\<exists>e w0. check e w0 = (Inr True, w'))"
proof -
  obtain err w1 where att: "attempt w = (err, w1)" by force
  with assms have l: "retry_loop wait check attempt err w1 = Some (None, w')" by (simp add: retry_def)
  have "(None :: error option) = None \<longrightarrow> (err = None \<and> w' = w1) \<or> (\<exists>w0. attempt w0 = (None, w'))
      \<or> (\<exists>e w0. check e w0 = (Inr True, w'))"
    using l by (induction rule: retry_loop_induct [where
      Q = "\<lambda>err w r w'. r = None \<longrightarrow> (err = None \<and> w' = w) \<or> (\<exists>w0. attempt w0 = (None, w'))
        \<or> (\<exists>e w0. check e w0 = (Inr True, w'))"]) auto
  with att show ?thesis by auto
qed

text \<open>
  The same along the run of the loop: \<open>attempt_at\<close> holds of the worlds in which a loop that started in \<open>w\<close>
  makes an attempt, each after a refused attempt, a timer that fired and a check that did not find the
  transaction.
\<close>

inductive attempt_at ::
    "('w \<Rightarrow> bool \<times> 'w) \<Rightarrow> (error \<Rightarrow> 'w \<Rightarrow> (error + bool) \<times> 'w) \<Rightarrow> ('w \<Rightarrow> error option \<times> 'w) \<Rightarrow> 'w \<Rightarrow> 'w \<Rightarrow> bool"
  for wait check attempt w where
  first_attempt: "attempt_at wait check attempt w w"
| next_attempt: "attempt_at wait check attempt w u \<Longrightarrow> attempt u = (Some e, u1) \<Longrightarrow> wait u1 = (False, u2) \<Longrightarrow>
    check e u2 = (Inr False, u3) \<Longrightarrow> attempt_at wait check attempt w u3"

text \<open>The two good ends of the loop: an attempt of it is accepted, or a check of it finds the transaction.\<close>

definition accepted_from ::
    "('w \<Rightarrow> bool \<times> 'w) \<Rightarrow> (error \<Rightarrow> 'w \<Rightarrow> (error + bool) \<times> 'w) \<Rightarrow> ('w \<Rightarrow> error option \<times> 'w) \<Rightarrow> 'w \<Rightarrow> 'w \<Rightarrow> bool" where
  "accepted_from wait check attempt w w' \<longleftrightarrow> (\<exists>u. attempt_at wait check attempt w u \<and> attempt u = (None, w'))"

definition found_from ::
    "('w \<Rightarrow> bool \<times> 'w) \<Rightarrow> (error \<Rightarrow> 'w \<Rightarrow> (error + bool) \<times> 'w) \<Rightarrow> ('w \<Rightarrow> error option \<times> 'w) \<Rightarrow> 'w \<Rightarrow> 'w \<Rightarrow> bool" where
  "found_from wait check attempt w w' \<longleftrightarrow>
     (\<exists>u e u1 u2. attempt_at wait check attempt w u \<and> attempt u = (Some e, u1) \<and> wait u1 = (False, u2) \<and>
        check e u2 = (Inr True, w'))"

lemma retry_good_end:
  assumes "retry wait check attempt w = Some (None, w')"
  shows "accepted_from wait check attempt w w' \<or> found_from wait check attempt w w'"
proof -
  let ?good = "accepted_from wait check attempt w w' \<or> found_from wait check attempt w w'"
  obtain err w1 where att: "attempt w = (err, w1)" by force
  with assms have "retry_loop wait check attempt err w1 = Some (None, w')" by (simp add: retry_def)
  then have "\<forall>u. attempt_at wait check attempt w u \<and> attempt u = (err, w1) \<and> (None :: error option) = None \<longrightarrow>
      accepted_from wait check attempt w w' \<or> found_from wait check attempt w w'"
  proof (rule retry_loop_induct [where Q = "\<lambda>err w1 r w'. \<forall>u. attempt_at wait check attempt w u \<and>
      attempt u = (err, w1) \<and> r = None \<longrightarrow> accepted_from wait check attempt w w' \<or> found_from wait check attempt w w'"])
    fix e v w1 w2 err' w3 r and w' :: 'a
    assume wt: "wait v = (False, w1)" and ck: "check e w1 = (Inr False, w2)" and next_try: "attempt w2 = (err', w3)"
      and IH: "\<forall>u. attempt_at wait check attempt w u \<and> attempt u = (err', w3) \<and> r = None \<longrightarrow>
        accepted_from wait check attempt w w' \<or> found_from wait check attempt w w'"
    show "\<forall>u. attempt_at wait check attempt w u \<and> attempt u = (Some e, v) \<and> r = None \<longrightarrow>
        accepted_from wait check attempt w w' \<or> found_from wait check attempt w w'"
      using next_attempt [where wait = wait and check = check and attempt = attempt and w = w] wt ck next_try IH by blast
  qed (auto simp: accepted_from_def, auto simp: found_from_def)
  with att first_attempt show ?thesis by metis
qed

text \<open>A loop whose context is cancelled at every \<open>select\<close> returns at the first one.\<close>

lemma retry_cancelled:
  assumes "\<And>u. fst (wait u)"
  shows "retry wait check attempt w \<noteq> None"
proof -
  obtain err w1 where att: "attempt w = (err, w1)" by force
  obtain u where "wait w1 = (True, u)" using assms [of w1] by (cases "wait w1") auto
  with att show ?thesis by (cases err) (simp_all add: retry_def retry_loop_Some)
qed

text \<open>An error result: the context was cancelled, or the check failed with that error.\<close>

lemma retry_Err_cause:
  assumes "retry wait check attempt w = Some (Some e, w')"
  shows "(\<exists>w0. wait w0 = (True, w')) \<or> (\<exists>e0 w0. check e0 w0 = (Inl e, w'))"
proof -
  obtain err w1 where "attempt w = (err, w1)" by force
  with assms have "retry_loop wait check attempt err w1 = Some (Some e, w')" by (simp add: retry_def)
  then have "Some e = Some e \<longrightarrow> (\<exists>w0. wait w0 = (True, w')) \<or> (\<exists>e0 w0. check e0 w0 = (Inl e, w'))"
    by (rule retry_loop_induct [where Q = "\<lambda>err w r w'. r = Some e \<longrightarrow>
        (\<exists>w0. wait w0 = (True, w')) \<or> (\<exists>e0 w0. check e0 w0 = (Inl e, w'))"]) auto
  then show ?thesis by simp
qed

lemma retry_first_attempt: "attempt w = (None, w1) \<Longrightarrow> retry wait check attempt w = Some (None, w1)"
  by (simp add: retry_def)

text \<open>An invariant of the world that every call of the loop preserves is preserved by the loop.\<close>

lemma retry_preserves:
  assumes "retry wait check attempt w = Some (r, w')" and "P w"
    and "\<And>w. P w \<Longrightarrow> P (snd (wait w))" and "\<And>e w. P w \<Longrightarrow> P (snd (check e w))"
    and "\<And>w. P w \<Longrightarrow> P (snd (attempt w))"
  shows "P w'"
proof -
  obtain err w1 where att: "attempt w = (err, w1)" by force
  with assms(1) have l: "retry_loop wait check attempt err w1 = Some (r, w')" by (simp add: retry_def)
  have "P w1" using assms(2,5) att by (metis snd_conv)
  moreover from l have "P w1 \<longrightarrow> P w'"
    by (induction rule: retry_loop_induct [where Q = "\<lambda>err w r w'. P w \<longrightarrow> P w'"])
       (metis assms(3-5) snd_conv)+
  ultimately show ?thesis by blast
qed

text \<open>A transaction that keeps being rejected, is never found done and never cancelled: no return.\<close>

lemma retry_diverges:
  assumes inv: "P w"
    and round: "\<And>e w. P w \<Longrightarrow> \<exists>w1 w2 e' w3. wait w = (False, w1) \<and> check e w1 = (Inr False, w2) \<and>
      attempt w2 = (Some e', w3) \<and> P w3"
    and first: "\<exists>e w1. attempt w = (Some e, w1) \<and> P w1"
  shows "retry wait check attempt w = None"
proof -
  have "retry_upto n wait check attempt (Some e) w = None" if "P w" for n e w
    using that
  proof (induction n arbitrary: e w)
    case 0
    then show ?case by simp
  next
    case (Suc n)
    from round [OF Suc.prems, of e] obtain w1 w2 e' w3 where
      "wait w = (False, w1)" "check e w1 = (Inr False, w2)" "attempt w2 = (Some e', w3)" "P w3" by blast
    with Suc.IH show ?case by simp
  qed
  moreover obtain e w1 where "attempt w = (Some e, w1)" "P w1" using first by blast
  ultimately have "retry_loop wait check attempt (Some e) w1 = None"
    by (metis not_Some_eq retry_loop_upto)
  with \<open>attempt w = (Some e, w1)\<close> show ?thesis by (simp add: retry_def)
qed

section \<open>What a nil result of a retried call means\<close>

text \<open>
  The contract of the retry loop: when both an accepted extrinsic and a positive check establish
  something about the world, the loop only answers nil once it holds.
\<close>

locale retried_call =
  fixes wait :: "'w \<Rightarrow> bool \<times> 'w"
    and check :: "error \<Rightarrow> 'w \<Rightarrow> (error + bool) \<times> 'w"
    and attempt :: "'w \<Rightarrow> error option \<times> 'w"
    and settled :: "'w \<Rightarrow> bool"
  assumes attempt_settles: "attempt w = (None, w') \<Longrightarrow> settled w'"
    and check_settles: "check e w = (Inr True, w') \<Longrightarrow> settled w'"
begin

lemma nil_settled: "retry wait check attempt w = Some (None, w') \<Longrightarrow> settled w'"
  using retry_Ok_cause attempt_settles check_settles by metis

end

text \<open>Cancellation is only possible with the daemon's context.\<close>

locale uncancelled_call = retried_call +
  assumes never_done: "\<not> fst (wait w)"
begin

lemma error_from_check:
  assumes "retry wait check attempt w = Some (Some e, w')"
  obtains e0 w0 where "check e0 w0 = (Inl e, w')"
  using retry_Err_cause [OF assms] never_done by (metis fst_conv)

end

definition mint_settled :: "('w, 'id) chain_api \<Rightarrow> 'id \<Rightarrow> string \<Rightarrow> AccountID \<Rightarrow> int \<Rightarrow> 'w \<Rightarrow> bool" where
  "mint_settled C identity txID target amount w' \<longleftrightarrow>
     (\<exists>w. ProposeOrVoteMintTransaction C identity txID target amount w = (None, w')) \<or>
     (\<exists>w err. IsMintedAlready C txID w = ((True, err), w'))"

definition burn_settled :: "('w, 'id) chain_api \<Rightarrow> 'id \<Rightarrow> uint64 \<Rightarrow> 'w \<Rightarrow> bool" where
  "burn_settled C identity txid w' \<longleftrightarrow>
     (\<exists>w. SetBurnTransactionExecuted C identity txid w = (None, w')) \<or>
     (\<exists>w. IsBurnedAlready C txid w = (Inr True, w'))"

definition withdraw_settled ::
    "('w, 'id) chain_api \<Rightarrow> 'id \<Rightarrow> uint64 \<Rightarrow> string \<Rightarrow> int \<Rightarrow> string \<Rightarrow> string \<Rightarrow> uint64 \<Rightarrow> 'w \<Rightarrow> bool" where
  "withdraw_settled C identity txID target amount signature stellarAddress seqno w' \<longleftrightarrow>
     (\<exists>w. ProposeBurnTransactionOrAddSig C identity txID target amount signature stellarAddress seqno w = (None, w')) \<or>
     (\<exists>w. IsBurnedAlready C txID w = (Inr True, w'))"

definition refund_settled ::
    "('w, 'id) chain_api \<Rightarrow> 'id \<Rightarrow> string \<Rightarrow> string \<Rightarrow> int64 \<Rightarrow> string \<Rightarrow> string \<Rightarrow> uint64 \<Rightarrow> 'w \<Rightarrow> bool" where
  "refund_settled C identity txHash target amount signature stellarAddress seqno w' \<longleftrightarrow>
     (\<exists>w. CreateRefundTransactionOrAddSig C identity txHash target amount signature stellarAddress seqno w = (None, w')) \<or>
     (\<exists>w. IsRefundedAlready C txHash w = (Inr True, w'))"

definition refunded_settled :: "('w, 'id) chain_api \<Rightarrow> 'id \<Rightarrow> string \<Rightarrow> 'w \<Rightarrow> bool" where
  "refunded_settled C identity txHash w' \<longleftrightarrow>
     (\<exists>w. SetRefundTransactionExecuted C identity txHash w = (None, w')) \<or>
     (\<exists>w. IsRefundedAlready C txHash w = (Inr True, w'))"

lemma mint_check_already: "mint_check C txID e w = (Inr True, w') \<Longrightarrow> \<exists>err. IsMintedAlready C txID w = ((True, err), w')"
  by (auto simp: mint_check_def split: prod.splits option.splits if_splits)

interpretation mint_call: retried_call "wait_round R ctx" "mint_check C txID"
    "ProposeOrVoteMintTransaction C identity txID target amount" "mint_settled C identity txID target amount"
  for R ctx C txID identity target amount
  by unfold_locales (auto simp: mint_settled_def dest: mint_check_already)

interpretation burned_call: retried_call "wait_round R ctx" "\<lambda>_. IsBurnedAlready C txid"
    "SetBurnTransactionExecuted C identity txid" "burn_settled C identity txid"
  for R ctx C txid identity
  by unfold_locales (auto simp: burn_settled_def)

interpretation withdraw_call: retried_call "wait_round R ctx" "\<lambda>_. IsBurnedAlready C txID"
    "ProposeBurnTransactionOrAddSig C identity txID target amount signature addr seqno"
    "withdraw_settled C identity txID target amount signature addr seqno"
  for R ctx C txID identity target amount signature addr seqno
  by unfold_locales (auto simp: withdraw_settled_def)

interpretation refunded_call: retried_call "wait_round R ctx" "\<lambda>_. IsRefundedAlready C txHash"
    "SetRefundTransactionExecuted C identity txHash" "refunded_settled C identity txHash"
  for R ctx C txHash identity
  by unfold_locales (auto simp: refunded_settled_def)

interpretation refund_call: retried_call "wait_round R ctx" "\<lambda>_. IsRefundedAlready C txHash"
    "CreateRefundTransactionOrAddSig C identity txHash target amount signature addr seqno"
    "refund_settled C identity txHash target amount signature addr seqno"
  for R ctx C txHash identity target amount signature addr seqno
  by unfold_locales (auto simp: refund_settled_def)

text \<open>The refunds that \<open>mint\<close> starts run with \<open>context.Background()\<close>.\<close>

lemma wait_round_Background: "\<not> fst (wait_round R Background w)"
  by (simp add: wait_round_def Let_def split: prod.splits)

interpretation background_refund: uncancelled_call "wait_round R Background" "\<lambda>_. IsRefundedAlready C txHash"
    "CreateRefundTransactionOrAddSig C identity txHash target amount signature addr seqno"
    "refund_settled C identity txHash target amount signature addr seqno"
  for R C txHash identity target amount signature addr seqno
  by unfold_locales (rule wait_round_Background)

section \<open>Properties\<close>

text \<open>
  C27: A retried extrinsic reports success only when it was accepted by the chain or the chain says
  that the transaction is already minted, burned or refunded; this holds for all five of them.
\<close>

theorem retried_extrinsics_settle:
  "(RetryProposeMintOrVote C R i ctx h a n w = Some (None, w') \<longrightarrow> mint_settled C i h a n w') \<and>
   (RetrySetWithdrawExecuted C R i ctx txid w = Some (None, w') \<longrightarrow> burn_settled C i txid w') \<and>
   (RetryProposeWithdrawOrAddSig C R i ctx txid target n sig addr seqno w = Some (None, w') \<longrightarrow>
      withdraw_settled C i txid target n sig addr seqno w') \<and>
   (RetryCreateRefundTransactionOrAddSig C R i ctx h target m sig addr seqno w = Some (None, w') \<longrightarrow>
      refund_settled C i h target m sig addr seqno w') \<and>
   (RetrySetRefundTransactionExecutedTx C R i ctx h w = Some (None, w') \<longrightarrow> refunded_settled C i h w')"
  unfolding RetryProposeMintOrVote_def RetrySetWithdrawExecuted_def RetryProposeWithdrawOrAddSig_def
    RetryCreateRefundTransactionOrAddSig_def RetrySetRefundTransactionExecutedTx_def
  by (intro conjI impI; erule mint_call.nil_settled burned_call.nil_settled withdraw_call.nil_settled
    refund_call.nil_settled refunded_call.nil_settled)

lemma extrinsic_accepted:
  "sc_reject (sw_chain w) = 0 \<Longrightarrow> extrinsic f w = (None, w\<lparr>sw_chain := f (sw_chain w)\<rparr>)"
  by (simp add: extrinsic_def)

theorem retried_extrinsics_settle_witness:
  "\<exists>w1 w2. RetryProposeMintOrVote sample_chain sample_runtime ''alice'' DaemonContext ''00ff'' ''dave'' 5
       (sample_net fresh_chain) = Some (None, w1) \<and>
     mint_settled sample_chain ''alice'' ''00ff'' ''dave'' 5 w1 \<and>
     RetrySetWithdrawExecuted sample_chain sample_runtime ''alice'' DaemonContext 7 w1 = Some (None, w2) \<and>
     burn_settled sample_chain ''alice'' 7 w2"
proof -
  obtain w1 where w1: "RetryProposeMintOrVote sample_chain sample_runtime ''alice'' DaemonContext ''00ff'' ''dave'' 5
      (sample_net fresh_chain) = Some (None, w1)" and r: "sc_reject (sw_chain w1) = 0"
    by (simp add: RetryProposeMintOrVote_def retry_def sample_chain_def extrinsic_accepted sample_net_def
        fresh_chain_def)
  obtain w2 where w2: "RetrySetWithdrawExecuted sample_chain sample_runtime ''alice'' DaemonContext 7 w1 = Some (None, w2)"
    by (simp add: RetrySetWithdrawExecuted_def retry_def sample_chain_def extrinsic_accepted r)
  from w1 w2 retried_extrinsics_settle
    [of sample_chain sample_runtime "''alice''" DaemonContext "''00ff''" "''dave''" 5 "sample_net fresh_chain" w1]
    retried_extrinsics_settle
    [of sample_chain sample_runtime "''alice''" DaemonContext _ _ _ w1 w2 7]
  show ?thesis by blast
qed

text \<open>
  A mint that is not reported as proposed failed with an error of the chain's own answer to the
  proposal: an error of the check whether it is minted already is never what the caller sees.
\<close>

theorem mint_error_is_of_the_proposal:
  assumes "RetryProposeMintOrVote C R i ctx h a n w = Some (Some e, w')"
  shows "\<exists>u u'. ProposeOrVoteMintTransaction C i h a n u = (Some e, u')"
proof -
  let ?proposed = "\<lambda>e. \<exists>u u'. ProposeOrVoteMintTransaction C i h a n u = (Some e, u')"
  obtain err w1 where att: "ProposeOrVoteMintTransaction C i h a n w = (err, w1)" by force
  with assms have "retry_loop (wait_round R ctx) (mint_check C h) (ProposeOrVoteMintTransaction C i h a n) err w1
      = Some (Some e, w')" by (simp add: RetryProposeMintOrVote_def retry_def)
  then have "(\<forall>e. err = Some e \<longrightarrow> ?proposed e) \<longrightarrow> (\<forall>e'. Some e = Some e' \<longrightarrow> ?proposed e')"
  proof (rule retry_loop_induct [where Q = "\<lambda>err w r w'.
      (\<forall>e. err = Some e \<longrightarrow> ?proposed e) \<longrightarrow> (\<forall>e'. r = Some e' \<longrightarrow> ?proposed e')"])
    show "\<And>e w w1 e' w2. mint_check C h e w1 = (Inl e', w2) \<Longrightarrow>
        (\<forall>e''. Some e = Some e'' \<longrightarrow> ?proposed e'') \<longrightarrow> (\<forall>e''. Some e' = Some e'' \<longrightarrow> ?proposed e'')"
      by (auto simp: mint_check_def split: prod.splits option.splits if_splits)
  qed (simp, blast, simp, blast)
  with att show ?thesis by blast
qed

text \<open>A chain that rejects the first proposal, and a runtime whose context is cancelled at once.\<close>

definition cancelling_runtime :: "'w go_runtime" where
  "cancelling_runtime = sample_runtime\<lparr>select_wait := \<lambda>w. (True, w)\<rparr>"

definition rejecting_net :: "nat \<Rightarrow> sample" where
  "rejecting_net n = sample_net (fresh_chain\<lparr>sc_reject := n\<rparr>)"

theorem mint_error_is_of_the_proposal_witness:
  "\<exists>w' u u'. RetryProposeMintOrVote sample_chain cancelling_runtime ''alice'' DaemonContext ''00ff'' ''dave'' 5
       (rejecting_net 1) = Some (Some (LibraryError ''rejected''), w') \<and>
     ProposeOrVoteMintTransaction sample_chain ''alice'' ''00ff'' ''dave'' 5 u =
       (Some (LibraryError ''rejected''), u')"
proof -
  obtain w' where run: "RetryProposeMintOrVote sample_chain cancelling_runtime ''alice'' DaemonContext ''00ff'' ''dave'' 5
       (rejecting_net 1) = Some (Some (LibraryError ''rejected''), w')"
    by (simp add: RetryProposeMintOrVote_def retry_def retry_loop_Some wait_round_def cancelling_runtime_def
        sample_runtime_def sample_chain_def extrinsic_def rejecting_net_def sample_net_def fresh_chain_def)
  from mint_error_is_of_the_proposal [OF run] run show ?thesis by blast
qed

text \<open>
  A refund signature sent with the background context (as \<open>mint\<close> does) cannot be cancelled: when
  it reports an error, the check whether the transaction is refunded already gave that error.
\<close>

theorem background_refund_error:
  assumes "RetryCreateRefundTransactionOrAddSig C R i Background h target m sig addr seqno w = Some (Some e, w')"
  shows "\<exists>w0. IsRefundedAlready C h w0 = (Inl e, w')"
  using assms background_refund.error_from_check
  unfolding RetryCreateRefundTransactionOrAddSig_def by metis

definition forgetful_chain :: "(sample, string) chain_api" where
  "forgetful_chain = sample_chain\<lparr>IsRefundedAlready := \<lambda>h w. (Inl not_found, w)\<rparr>"

theorem background_refund_error_witness:
  "\<exists>w' w0. RetryCreateRefundTransactionOrAddSig forgetful_chain cancelling_runtime ''alice'' Background ''00ff''
       ''GCAROL'' 5 ''sig'' ''GALICE'' 42 (rejecting_net 1) = Some (Some not_found, w') \<and>
     IsRefundedAlready forgetful_chain ''00ff'' w0 = (Inl not_found, w')"
proof -
  obtain w' where run: "RetryCreateRefundTransactionOrAddSig forgetful_chain cancelling_runtime ''alice'' Background
      ''00ff'' ''GCAROL'' 5 ''sig'' ''GALICE'' 42 (rejecting_net 1) = Some (Some not_found, w')"
    by (simp add: RetryCreateRefundTransactionOrAddSig_def retry_def retry_loop_Some wait_round_def
        cancelling_runtime_def sample_runtime_def forgetful_chain_def sample_chain_def extrinsic_def
        rejecting_net_def sample_net_def fresh_chain_def)
  from background_refund_error [OF run] run show ?thesis by blast
qed

text \<open>A chain that refuses every signature of a refund and does not execute it either.\<close>

definition refusing_chain :: "(sample, string) chain_api" where
  "refusing_chain = sample_chain\<lparr>IsRefundedAlready := \<lambda>h w. (Inr False, w),
     CreateRefundTransactionOrAddSig := \<lambda>_ _ _ _ _ _ _ w. (Some (LibraryError ''rejected''), w)\<rparr>"

text \<open>
  A client is only handed out for a key that the chain lists as a validator of the bridge.
\<close>

theorem client_is_validator:
  assumes "NewSubstrateClient C url seed w = (Inr identity, w')"
  shows "NewIdentityFromSr25519Phrase C seed = Inr identity \<and> (\<exists>w1. IsValidator C identity w1 = (Inr True, w'))"
  using assms by (auto simp: NewSubstrateClient_def split: prod.splits option.splits sum.splits bool.splits)

theorem client_is_validator_witness:
  "NewSubstrateClient sample_chain ''ws://chain'' ''alice'' (sample_net fresh_chain) =
     (Inr ''alice'', sample_net fresh_chain) \<and>
   (\<exists>w1. IsValidator sample_chain ''alice'' w1 = (Inr True, sample_net fresh_chain)) \<and>
   fst (NewSubstrateClient sample_chain ''ws://chain'' ''mallory'' (sample_net fresh_chain)) =
     Inl (ErrorString ''account provided is not a validator for the bridge runtime'')"
proof -
  have run: "NewSubstrateClient sample_chain ''ws://chain'' ''alice'' (sample_net fresh_chain) =
     (Inr ''alice'', sample_net fresh_chain)"
    by (simp add: NewSubstrateClient_def sample_chain_def)
  from client_is_validator [OF run] run show ?thesis
    by (simp add: NewSubstrateClient_def sample_chain_def)
qed

text \<open>What a message says about a head.\<close>

definition decodes :: "('w, 'id) chain_api \<Rightarrow> uint64 \<Rightarrow> EventSubscription \<Rightarrow> bool" where
  "decodes C n sub \<longleftrightarrow>
     (if (ucast n :: uint32) = 0 then sub_Events sub = empty_Events \<and> sub_Err sub = None
      else \<exists>w w'. (\<exists>e. GetEventsForBlock C (ucast n) w = (Inl e, w') \<and> sub_Err sub = Some e \<and>
                     sub_Events sub = empty_Events) \<or>
            (\<exists>ev. GetEventsForBlock C (ucast n) w = (Inr ev, w') \<and> sub_Err sub = None \<and>
               map (\<lambda>x. (wc_ID x, wc_Source x, wc_Target x, wc_Amount x)) (WithdrawCreatedEvents (sub_Events sub))
                 = BurnTransactionCreated ev \<and>
               map wr_ID (WithdrawReadyEvents (sub_Events sub)) = BurnTransactionReady ev \<and>
               map (\<lambda>x. (we_ID x, we_Target x, we_Amount x)) (WithdrawExpiredEvents (sub_Events sub))
                 = BurnTransactionExpired ev \<and>
               map rr_Hash (RefundReadyEvents (sub_Events sub)) = RefundTransactionReady ev \<and>
               map (\<lambda>x. (re_Hash x, re_Target x, re_Amount x)) (RefundExpiredEvents (sub_Events sub))
                 = RefundTransactionExpired ev))"

lemma processEventsForHeight_decodes:
  assumes "processEventsForHeight C (ucast n) w = ((events, err), w')"
  shows "decodes C n \<lparr>sub_Events = events, sub_Err = err\<rparr>"
proof (cases "(ucast n :: uint32) = 0")
  case True
  with assms show ?thesis by (simp add: processEventsForHeight_def decodes_def)
next
  case False
  obtain r u where g: "GetEventsForBlock C (ucast n) w = (r, u)" by force
  show ?thesis
  proof (cases r)
    case (Inl e)
    with False assms g show ?thesis by (auto simp: processEventsForHeight_def decodes_def)
  next
    case (Inr ev)
    with False assms g have "events = processEventRecords ev" "err = None"
      by (simp_all add: processEventsForHeight_def)
    with False g Inr show ?thesis
      by (auto simp: decodes_def processEventRecords_def comp_def case_prod_beta)
  qed
qed

text \<open>The heads that arrive before the subscription ends.\<close>

fun heads_seen :: "head_select list \<Rightarrow> uint64 list" where
  "heads_seen [] = []"
| "heads_seen (NewHead n # inputs) = n # heads_seen inputs"
| "heads_seen (HeadsError resubscribed # inputs) = (if resubscribed then heads_seen inputs else [])"
| "heads_seen (HeadsDone # inputs) = []"

lemma head_loop_decodes: "list_all2 (decodes C) (heads_seen inputs) (fst (fst (head_loop C inputs w)))"
proof (induction C inputs w rule: head_loop.induct)
  case (2 C n inputs w)
  obtain events err w1 where "processEventsForHeight C (ucast n) w = ((events, err), w1)" by (metis prod.exhaust)
  with processEventsForHeight_decodes [OF this] "2.IH" show ?case
    by (auto split: prod.splits)
qed auto

text \<open>
  A subscription that starts sends one message for each finalized head until it ends, in order and
  over reconnections, and none before it has started; the message for a head
  holds every bridge event of the block with that number (taken as 32 bits), in the block's order
  and with all its fields, or the error of reading the block; head 0 has no events.
\<close>

theorem subscription_decodes_heads:
  "list_all2 (decodes C) (if got_client \<and> subscribed then heads_seen inputs else [])
     (fst (fst (SubscribeTfchainBridgeEvents C got_client subscribed inputs w)))"
  using head_loop_decodes by (auto simp: SubscribeTfchainBridgeEvents_def)

end
