(* ===== verification/GoFloat.thy ===== *)
theory GoFloat
  imports GoCodec
begin

text \<open>
  \<open>strconv.ParseFloat(s, 64)\<close> as far as the bridge uses it: whether it returns an error, and
  whether the value is greater than zero. The syntax is Go's (sign, decimal or hexadecimal
  mantissa, exponent, underscores, infinities, NaN); the value is kept as an exact mantissa and
  exponent and compared with the two rounding thresholds of IEEE binary64, so no floating-point
  arithmetic is modelled: a magnitude of at least \<open>2^1024 - 2^970\<close> is a range error, and one of at
  most \<open>2^-1075\<close> rounds to zero.
\<close>

definition lower_char :: "char \<Rightarrow> char" where
  "lower_char c = (let n = of_char c :: nat in if 65 \<le> n \<and> n \<le> 90 then char_of (n + 32) else c)"

definition float_digit :: "bool \<Rightarrow> char \<Rightarrow> nat option" where
  "float_digit hex c = (if hex then from_hex_char c else if is_digit c then Some (digit_val c) else None)"

text \<open>The mantissa: its digits as a number, how many of them follow the dot, whether there is one.\<close>

fun scan_mantissa :: "bool \<Rightarrow> bool \<Rightarrow> nat \<Rightarrow> nat \<Rightarrow> bool \<Rightarrow> string \<Rightarrow> nat \<times> nat \<times> bool \<times> string" where
  "scan_mantissa hex dot m fr dig [] = (m, fr, dig, [])"
| "scan_mantissa hex dot m fr dig (c # cs) =
     (if c = CHR ''_'' then scan_mantissa hex dot m fr dig cs
      else if c = CHR ''.''
        then (if dot then (m, fr, dig, c # cs) else scan_mantissa hex True m fr dig cs)
      else (case float_digit hex c of
              Some d \<Rightarrow> scan_mantissa hex dot ((if hex then 16 else 10) * m + d)
                          (if dot then Suc fr else fr) True cs
            | None \<Rightarrow> (m, fr, dig, c # cs)))"

fun scan_exponent :: "nat \<Rightarrow> string \<Rightarrow> nat \<times> string" where
  "scan_exponent e [] = (e, [])"
| "scan_exponent e (c # cs) =
     (if c = CHR ''_'' then scan_exponent e cs
      else if is_digit c then scan_exponent (if e < 10000 then 10 * e + digit_val c else e) cs
      else (e, c # cs))"

text \<open>Underscores must separate digits; a base prefix counts as one (\<open>underscoreOK\<close>).\<close>

fun underscores_ok :: "bool \<Rightarrow> char \<Rightarrow> string \<Rightarrow> bool" where
  "underscores_ok hex saw [] \<longleftrightarrow> saw \<noteq> CHR ''_''"
| "underscores_ok hex saw (c # cs) \<longleftrightarrow>
     (if is_digit c \<or> (hex \<and> from_hex_char c \<noteq> None) then underscores_ok hex (CHR ''0'') cs
      else if c = CHR ''_'' then saw = CHR ''0'' \<and> underscores_ok hex (CHR ''_'') cs
      else saw \<noteq> CHR ''_'' \<and> underscores_ok hex (CHR ''!'') cs)"

definition take_sign :: "string \<Rightarrow> bool \<times> string" where
  "take_sign s = (case s of [] \<Rightarrow> (False, [])
     | c # cs \<Rightarrow> if c = CHR ''-'' then (True, cs) else if c = CHR ''+'' then (False, cs) else (False, s))"

text \<open>The exponent part: absent (an error after a hexadecimal mantissa), or \<open>e\<close>/\<open>p\<close>, sign, digits.\<close>

definition read_exponent :: "bool \<Rightarrow> string \<Rightarrow> (int \<times> string) option" where
  "read_exponent hex s =
     (case s of
        [] \<Rightarrow> if hex then None else Some (0, [])
      | c # cs \<Rightarrow>
          if lower_char c = (if hex then CHR ''p'' else CHR ''e'')
          then (let (neg, ds) = take_sign cs in
                case ds of
                  [] \<Rightarrow> None
                | d # _ \<Rightarrow> if is_digit d
                          then (let (e, rest) = scan_exponent 0 ds
                                in Some (if neg then - int e else int e, rest))
                          else None)
          else if hex then None else Some (0, s))"

text \<open>\<open>readFloat\<close> on the whole string: sign, hexadecimal?, mantissa, exponent of 10 (or of 2).\<close>

definition read_float :: "string \<Rightarrow> (bool \<times> bool \<times> nat \<times> int) option" where
  "read_float s =
     (let (neg, t) = take_sign s;
          hex = (case t of z # x # _ # _ \<Rightarrow> z = CHR ''0'' \<and> lower_char x = CHR ''x'' | _ \<Rightarrow> False);
          body = (if hex then drop 2 t else t);
          (m, fr, dig, rest) = scan_mantissa hex False 0 0 False body
      in if \<not> dig then None
         else (case read_exponent hex rest of
                 Some (e, []) \<Rightarrow>
                   if CHR ''_'' \<in> set s \<and> \<not> underscores_ok hex (if hex then CHR ''0'' else CHR ''^'') body
                   then None
                   else Some (neg, hex, m, e - int (if hex then 4 * fr else fr))
               | _ \<Rightarrow> None))"

definition is_infinity :: "string \<Rightarrow> bool" where
  "is_infinity s \<longleftrightarrow> map lower_char s = ''inf'' \<or> map lower_char s = ''infinity''"

definition scaled_ge :: "nat \<Rightarrow> nat \<Rightarrow> int \<Rightarrow> nat \<Rightarrow> bool" where
  "scaled_ge base m e bound \<longleftrightarrow>
     (if 0 \<le> e then bound \<le> m * base ^ nat e else bound * base ^ nat (- e) \<le> m)"

definition above_underflow :: "nat \<Rightarrow> nat \<Rightarrow> int \<Rightarrow> bool" where
  "above_underflow base m e \<longleftrightarrow>
     (if 0 \<le> e then 0 < m else base ^ nat (- e) < m * 2 ^ 1075)"

text \<open>
  \<open>None\<close>: \<open>ParseFloat\<close> returned an error. \<open>Some b\<close>: it did not, and \<open>b\<close> says whether the value
  is greater than zero.
\<close>

definition ParseFloat_positive :: "string \<Rightarrow> bool option" where
  "ParseFloat_positive s =
     (if is_infinity (snd (take_sign s)) then Some (\<not> fst (take_sign s))
      else if map lower_char s = ''nan'' then Some False
      else (case read_float s of
              None \<Rightarrow> None
            | Some (neg, hex, m, e) \<Rightarrow>
                (let base = (if hex then 2 else 10) in
                 if scaled_ge base m e (2 ^ 1024 - 2 ^ 970) then None
                 else Some (\<not> neg \<and> above_underflow base m e))))"

section \<open>The trustline limits that Horizon reports\<close>

lemma scan_mantissa_digits:
  "list_all is_digit ds \<Longrightarrow>
   scan_mantissa False dot m fr dig (ds @ rest) =
     scan_mantissa False dot (foldl (\<lambda>n c. 10 * n + digit_val c) m ds)
       (if dot then fr + length ds else fr) (dig \<or> ds \<noteq> []) rest"
proof (induction ds arbitrary: m fr dig)
  case Nil
  then show ?case by simp
next
  case (Cons d ds)
  then have d: "is_digit d" and ds: "list_all is_digit ds" by simp_all
  from d have "d \<noteq> CHR ''_''" "d \<noteq> CHR ''.''" by (auto simp: is_digit_iff)
  with Cons.IH [OF ds] d show ?case by (simp add: float_digit_def)
qed

lemma digits_val_append: "digits_val (xs @ ys) = foldl (\<lambda>n c. 10 * n + digit_val c) (digits_val xs) ys"
  by (simp add: digits_val_def)

lemma foldl_digits: "foldl (\<lambda>n c. 10 * n + digit_val c) k ds = k * 10 ^ length ds + digits_val ds"
  by (induction ds rule: rev_induct) (simp_all add: algebra_simps)

lemma read_float_decimal:
  assumes i: "i \<noteq> []" "list_all is_digit i" and f: "list_all is_digit f"
  shows "read_float (i @ CHR ''.'' # f) =
    Some (False, False, digits_val i * 10 ^ length f + digits_val f, - int (length f))"
proof -
  obtain c cs where ics: "i = c # cs" using i by (cases i) auto
  have c: "is_digit c" using i ics by simp
  then have sgn: "take_sign (i @ CHR ''.'' # f) = (False, i @ CHR ''.'' # f)"
    by (auto simp: take_sign_def ics is_digit_iff)
  have nox: "is_digit x \<or> x = CHR ''.'' \<Longrightarrow> lower_char x \<noteq> CHR ''x''" for x
    by (auto simp: lower_char_def is_digit_iff Let_def)
  have hex: "\<not> (case i @ CHR ''.'' # f of z # x # _ # _ \<Rightarrow> z = CHR ''0'' \<and> lower_char x = CHR ''x''
      | _ \<Rightarrow> False)"
    using i nox by (cases cs) (auto simp: ics split: list.splits)
  have us: "CHR ''_'' \<notin> set (i @ CHR ''.'' # f)"
    using i f by (auto simp: list_all_iff is_digit_iff)
  have "scan_mantissa False False 0 0 False (i @ CHR ''.'' # f) =
      scan_mantissa False False (digits_val i) 0 True (CHR ''.'' # f)"
    using scan_mantissa_digits [OF i(2)] i(1) by (simp add: digits_val_def)
  also have "\<dots> = (digits_val (i @ f), length f, True, [])"
    using scan_mantissa_digits [OF f, of True "digits_val i" 0 True "[]"]
    by (simp add: digits_val_append)
  finally have scan: "scan_mantissa False False 0 0 False (i @ CHR ''.'' # f) =
      (digits_val (i @ f), length f, True, [])" .
  show ?thesis
    using us by (simp add: read_float_def sgn hex scan Let_def read_exponent_def digits_val_append foldl_digits)
qed

lemma ParseFloat_positive_fixed_point:
  assumes "0 \<le> a" "a < 2 ^ 64"
  shows "ParseFloat_positive (fixed_point 7 a) = Some (0 < a)"
proof -
  define i where "i = show_nat (nat a div 10 ^ 7)"
  define f where "f = pad_zeros 7 (show_nat (nat a mod 10 ^ 7))"
  have i: "i \<noteq> []" "list_all is_digit i" by (simp_all add: i_def show_nat_digits)
  have f: "list_all is_digit f" by (simp add: f_def show_nat_digits pad_zeros_digits)
  have lf: "length f = 7"
    using length_show_nat [of "nat a mod 10 ^ 7" 6] by (simp add: f_def pad_zeros_def)
  have fp: "fixed_point 7 a = i @ CHR ''.'' # f"
    using assms by (simp add: fixed_point_def i_def f_def)
  have val: "digits_val i * 10 ^ 7 + digits_val f = nat a"
    by (simp add: i_def f_def div_mult_mod_eq)
  have rf: "read_float (fixed_point 7 a) = Some (False, False, nat a, - 7)"
    using read_float_decimal [OF i f] lf val by (simp add: fp)
  obtain c cs where ics: "i = c # cs" using i by (cases i) auto
  have c: "is_digit c" using i ics by simp
  then have "take_sign (fixed_point 7 a) = (False, fixed_point 7 a)"
    by (auto simp: take_sign_def fp ics is_digit_iff)
  moreover have "lower_char c = c" using c by (auto simp: lower_char_def is_digit_iff Let_def)
  moreover have "c \<noteq> CHR ''i''" "c \<noteq> CHR ''n''" using c by (auto simp: is_digit_iff)
  moreover have "\<not> scaled_ge 10 (nat a) (- 7) (2 ^ 1024 - 2 ^ 970)"
  proof -
    have "nat a < 2 ^ 64" using assms by (simp add: nat_less_iff)
    also have "(2 :: nat) ^ 64 \<le> (2 ^ 1024 - 2 ^ 970) * 10 ^ 7" by simp
    finally show ?thesis by (simp add: scaled_ge_def)
  qed
  moreover have "above_underflow 10 (nat a) (- 7) \<longleftrightarrow> 0 < a"
  proof (cases "0 < a")
    case True
    then have "1 \<le> nat a" by linarith
    then have "1 * 2 ^ 1075 \<le> nat a * 2 ^ 1075" by (rule mult_le_mono1)
    moreover have "(10 :: nat) ^ 7 < 1 * 2 ^ 1075" by simp
    ultimately have "(10 :: nat) ^ 7 < nat a * 2 ^ 1075" by (rule less_le_trans [rotated])
    with True show ?thesis by (simp add: above_underflow_def)
  next
    case False
    with assms have "a = 0" by simp
    then show ?thesis by (simp add: above_underflow_def)
  qed
  ultimately show ?thesis
    using rf by (simp add: ParseFloat_positive_def is_infinity_def fp ics)
qed

end
