(* ===== verification/StellarWallet.thy ===== *)
theory StellarWallet
  imports GoFloat SampleWorld
begin

text \<open>
  The wallet of \<open>pkg/stellar/stellar.go\<close>: building, signing and submitting payments from the bridge
  account, the sequence number it keeps in memory, and the check of a receiver's trustline. The
  methods of \<open>StellarWallet\<close> run on the daemon's state, whose \<open>wallet\<close> they read and change.
\<close>

section \<open>Constants of the file\<close>

definition TFTMainnet :: string where
  "TFTMainnet = ''TFT:GBOVQKJYHXRR3DX6NOX2RRYFRCUMSADGDESTDNBDS6CDVLGVESRTAC47''"

definition TFTTest :: string where
  "TFTTest = ''TFT:GA47YZA3PKFUZMPLQ3B5F2E3CJIB57TGGU7SPCQT2WAEYKN766PWIMB3''"

definition stellarPrecision :: nat where
  "stellarPrecision = 10 ^ 7"

definition stellarPrecisionDigits :: nat where
  "stellarPrecisionDigits = 7"

section \<open>Network selection\<close>

definition getHorizonClient :: "StellarConfig \<Rightarrow> error + horizon_client" where
  "getHorizonClient cfg =
     (if StellarHorizonUrl cfg \<noteq> [] then Inr (HorizonURL (StellarHorizonUrl cfg))
      else if StellarNetwork cfg = ''testnet'' then Inr DefaultTestNetClient
      else if StellarNetwork cfg = ''production'' then Inr DefaultPublicNetClient
      else Inl (ErrorString ''network is not supported''))"

definition getNetworkPassPhrase :: "('w, 'tx, 'kp) stellar_api \<Rightarrow> StellarConfig \<Rightarrow> string" where
  "getNetworkPassPhrase S cfg =
     (if StellarNetwork cfg = ''testnet'' then TestNetworkPassphrase S
      else if StellarNetwork cfg = ''production'' then PublicNetworkPassphrase S
      else TestNetworkPassphrase S)"

definition getAssetCodeAndIssuer :: "StellarConfig \<Rightarrow> string list" where
  "getAssetCodeAndIssuer cfg =
     (if StellarNetwork cfg = ''testnet'' then split_on (CHR '':'') TFTTest
      else if StellarNetwork cfg = ''production'' then split_on (CHR '':'') TFTMainnet
      else split_on (CHR '':'') TFTTest)"

text \<open>An index into a slice panics when it is out of range.\<close>

definition indexM :: "'a list \<Rightarrow> nat \<Rightarrow> ('s, 'a) prog" where
  "indexM xs i = (if i < length xs then returnM (xs ! i) else crashM)"

section \<open>Accounts\<close>

definition getAccountDetails ::
    "('w, 'tx, 'kp) stellar_api \<Rightarrow> string \<Rightarrow> ('w, 'kp, hz_account) daemon" where
  "getAccountDetails S address =
     bindM (getM (\<lambda>s. wal_config (wallet s))) (\<lambda>cfg.
     bindM (liftE (getHorizonClient cfg)) (\<lambda>client.
     tryM (worldM (AccountDetail S client address)) (\<lambda>r.
       case r of
         Inl e \<Rightarrow> failM (Wrapped (''failed to get account details for account: '' @ address) e)
       | Inr account \<Rightarrow> returnM account)))"

text \<open>The loop of \<open>CheckAccount\<close>: a balance of the bridge's asset with a positive limit.\<close>

definition trusted_balance :: "string \<Rightarrow> string \<Rightarrow> hz_balance \<Rightarrow> bool" where
  "trusted_balance code issuer b \<longleftrightarrow>
     \<not> (bal_Code b \<noteq> code \<or> bal_Issuer b \<noteq> issuer) \<and>
     (case ParseFloat_positive (bal_Limit b) of None \<Rightarrow> False | Some positive \<Rightarrow> positive)"

fun check_balances :: "string \<Rightarrow> string \<Rightarrow> hz_balance list \<Rightarrow> ('s, unit) prog" where
  "check_balances code issuer [] = failM (ErrorString ''addess has no trustline'')"
| "check_balances code issuer (b # bs) =
     (if trusted_balance code issuer b then returnM () else check_balances code issuer bs)"

definition CheckAccount :: "('w, 'tx, 'kp) stellar_api \<Rightarrow> string \<Rightarrow> ('w, 'kp, unit) daemon" where
  "CheckAccount S account =
     bindM (getAccountDetails S account) (\<lambda>acc.
     bindM (getM (\<lambda>s. getAssetCodeAndIssuer (wal_config (wallet s)))) (\<lambda>asset.
     (case acc_Balances acc of
        [] \<Rightarrow> failM (ErrorString ''addess has no trustline'')
      | bs \<Rightarrow>
          bindM (indexM asset 0) (\<lambda>code. bindM (indexM asset 1) (\<lambda>issuer. check_balances code issuer bs)))))"

definition NewStellarWallet ::
    "('w, 'tx, 'kp) stellar_api \<Rightarrow> StellarConfig \<Rightarrow> 'w \<Rightarrow> (error + 'kp StellarWallet) \<times> 'w" where
  "NewStellarWallet S cfg w =
     (case ParseFull S (StellarSeed cfg) of
        Inl e \<Rightarrow> (Inl e, w)
      | Inr kp \<Rightarrow>
          (case getHorizonClient cfg of
             Inl e \<Rightarrow> (Inl e, w)
           | Inr client \<Rightarrow>
               (case AccountDetail S client (StellarBridgeAccount cfg) w of
                  (Inl e, w1) \<Rightarrow>
                    (Inl (Wrapped (''failed to get account details for account: ''
                       @ StellarBridgeAccount cfg) e), w1)
                | (Inr account, w1) \<Rightarrow>
                    (case acc_GetSequenceNumber account of
                       (_, Some e) \<Rightarrow> (Inl e, w1)
                     | (seqno, None) \<Rightarrow>
                         (Inr \<lparr>wal_keypair = kp, wal_config = cfg,
                            wal_signatureCount = unat (acc_MedThreshold account),
                            wal_sequenceNumber = seqno\<rparr>, w1)))))"

section \<open>Building and submitting transactions\<close>

text \<open>
  The parameters of a payment: the amount is converted to \<open>int64\<close>, divided by \<open>10^7\<close> and printed
  with seven digits. A sequence number 0 means \<open>the next one of the wallet\<close>; any other is used as it
  is. Both are stored in the wallet.
\<close>

definition payment_params ::
    "('w, 'tx, 'kp) stellar_api \<Rightarrow> string \<Rightarrow> string \<Rightarrow> string \<Rightarrow> uint64 \<Rightarrow> string \<Rightarrow> int64
      \<Rightarrow> TransactionParams" where
  "payment_params S code issuer source amount destination seqno =
     \<lparr>Operations =
        [\<lparr>Destination = destination,
          Amount = rat_FloatString (sint amount) stellarPrecision stellarPrecisionDigits,
          AssetCode = code, AssetIssuer = issuer, SourceAccount = source\<rparr>],
      Timebounds = InfiniteTimeout, SourceAccountID = source, SourceSequence = seqno,
      BaseFee = MinBaseFee S * 1000, IncrementSequenceNum = False, TxMemo = NoMemo\<rparr>"

definition generatePaymentOperation ::
    "('w, 'tx, 'kp) stellar_api \<Rightarrow> uint64 \<Rightarrow> string \<Rightarrow> int64 \<Rightarrow> ('w, 'kp, TransactionParams) daemon" where
  "generatePaymentOperation S amount destination sequenceNumber =
     (if amount = 0 then failM (ErrorString ''invalid amount'')
      else
        bindM (getM (\<lambda>s. wal_config (wallet s))) (\<lambda>cfg.
        tryM (getAccountDetails S (StellarBridgeAccount cfg)) (\<lambda>r.
          case r of
            Inl e \<Rightarrow> failM (Wrapped ''failed to get source account'' e)
          | Inr sourceAccount \<Rightarrow>
              bindM (indexM (getAssetCodeAndIssuer cfg) 0) (\<lambda>code.
              bindM (indexM (getAssetCodeAndIssuer cfg) 1) (\<lambda>issuer.
              bindM (modify_wallet (\<lambda>w. w\<lparr>wal_sequenceNumber :=
                       (if sequenceNumber = 0 then wal_sequenceNumber w + 1 else sequenceNumber)\<rparr>)) (\<lambda>_.
              getM (\<lambda>s. payment_params S code issuer (acc_AccountID sourceAccount) amount destination
                      (wal_sequenceNumber (wallet s)))))))))"

definition createTransaction ::
    "('w, 'tx, 'kp) stellar_api \<Rightarrow> TransactionParams \<Rightarrow> bool \<Rightarrow> ('w, 'kp, 'tx) daemon" where
  "createTransaction S txn sign =
     (case NewTransaction S txn of
        Inl e \<Rightarrow> failM (Wrapped ''failed to build transaction'' e)
      | Inr tx \<Rightarrow>
          if sign
          then bindM (getM wallet) (\<lambda>w.
                 case SignTx S (getNetworkPassPhrase S (wal_config w)) (wal_keypair w) tx of
                   Inl e \<Rightarrow> failM (Wrapped ''failed to sign transaction with keypair'' e)
                 | Inr tx' \<Rightarrow> returnM tx')
          else returnM tx)"

definition resetAccountSequence :: "('w, 'tx, 'kp) stellar_api \<Rightarrow> ('w, 'kp, unit) daemon" where
  "resetAccountSequence S =
     bindM (getM (\<lambda>s. StellarBridgeAccount (wal_config (wallet s)))) (\<lambda>address.
     bindM (getAccountDetails S address) (\<lambda>account.
       case acc_GetSequenceNumber account of
         (n, err) \<Rightarrow>
           bindM (modify_wallet (\<lambda>w. w\<lparr>wal_sequenceNumber := n\<rparr>)) (\<lambda>_.
             case err of Some e \<Rightarrow> failM e | None \<Rightarrow> returnM ())))"

definition submitTransaction :: "('w, 'tx, 'kp) stellar_api \<Rightarrow> 'tx \<Rightarrow> ('w, 'kp, unit) daemon" where
  "submitTransaction S txn =
     bindM (getM (\<lambda>s. wal_config (wallet s))) (\<lambda>cfg.
       case getHorizonClient cfg of
         Inl e \<Rightarrow> failM (Wrapped ''failed to get horizon client'' e)
       | Inr client \<Rightarrow>
           tryM (worldM (SubmitTransaction S client txn)) (\<lambda>r.
             case r of
               Inl err \<Rightarrow>
                 bindM (resetAccountSequence S) (\<lambda>_. failM (Wrapped ''error submitting transaction'' err))
             | Inr _ \<Rightarrow> returnM ()))"

text \<open>The signatures collected on the chain, added one after the other.\<close>

fun add_signatures ::
    "('w, 'tx, 'kp) stellar_api \<Rightarrow> string \<Rightarrow> StellarSignature list \<Rightarrow> 'tx \<Rightarrow> error + 'tx" where
  "add_signatures S pass [] txn = Inr txn"
| "add_signatures S pass (sig # sigs) txn =
     (case AddSignatureBase64 S pass (StellarAddress sig) (Signature sig) txn of
        Inl e \<Rightarrow> Inl e
      | Inr txn' \<Rightarrow> add_signatures S pass sigs txn')"

text \<open>What both submitting methods do with an unsigned transaction.\<close>

definition sign_and_submit ::
    "('w, 'tx, 'kp) stellar_api \<Rightarrow> StellarSignature list \<Rightarrow> 'tx \<Rightarrow> ('w, 'kp, unit) daemon" where
  "sign_and_submit S signatures txn =
     bindM (getM wallet) (\<lambda>w.
       if length signatures < wal_signatureCount w
       then failM (ErrorString ''not enough signatures, aborting'')
       else
         bindM (liftE (add_signatures S (getNetworkPassPhrase S (wal_config w))
                         (take (wal_signatureCount w) signatures) txn))
           (submitTransaction S))"

text \<open>The first signature of a transaction that was just signed, in base64, and its sequence number.\<close>

definition signature_and_sequence ::
    "('w, 'tx, 'kp) stellar_api \<Rightarrow> 'tx \<Rightarrow> ('w, 'kp, string \<times> uint64) daemon" where
  "signature_and_sequence S txn =
     bindM (indexM (TxSignatures S txn) 0) (\<lambda>sig.
       returnM (base64_EncodeToString sig, TxSequenceNumber S txn))"

definition CreatePaymentAndReturnSignature ::
    "('w, 'tx, 'kp) stellar_api \<Rightarrow> string \<Rightarrow> uint64 \<Rightarrow> uint64 \<Rightarrow> ('w, 'kp, string \<times> uint64) daemon" where
  "CreatePaymentAndReturnSignature S target amount txID =
     bindM (generatePaymentOperation S amount target 0) (\<lambda>txnBuild.
     bindM (createTransaction S txnBuild True) (signature_and_sequence S))"

definition CreatePaymentWithSignaturesAndSubmit ::
    "('w, 'tx, 'kp) stellar_api \<Rightarrow> string \<Rightarrow> uint64 \<Rightarrow> string \<Rightarrow> StellarSignature list \<Rightarrow> int64
      \<Rightarrow> ('w, 'kp, unit) daemon" where
  "CreatePaymentWithSignaturesAndSubmit S target amount txHash signatures sequenceNumber =
     bindM (generatePaymentOperation S amount target sequenceNumber) (\<lambda>txnBuild.
     bindM (createTransaction S txnBuild False) (sign_and_submit S signatures))"

text \<open>A refund carries the hash of the refunded transaction as its return memo.\<close>

definition with_return_memo :: "string \<Rightarrow> TransactionParams \<Rightarrow> error + TransactionParams" where
  "with_return_memo txHash txnBuild =
     (case hex_DecodeString txHash of
        Inl e \<Rightarrow> Inl e
      | Inr parsedMessage \<Rightarrow> Inr (txnBuild\<lparr>TxMemo := MemoReturn (copy32 parsedMessage)\<rparr>))"

definition CreateRefundPaymentWithSignaturesAndSubmit ::
    "('w, 'tx, 'kp) stellar_api \<Rightarrow> string \<Rightarrow> uint64 \<Rightarrow> string \<Rightarrow> StellarSignature list \<Rightarrow> int64
      \<Rightarrow> ('w, 'kp, unit) daemon" where
  "CreateRefundPaymentWithSignaturesAndSubmit S target amount txHash signatures sequenceNumber =
     bindM (generatePaymentOperation S amount target sequenceNumber) (\<lambda>txnBuild.
     bindM (liftE (with_return_memo txHash txnBuild)) (\<lambda>txnBuild'.
     bindM (createTransaction S txnBuild' False) (sign_and_submit S signatures)))"

definition CreateRefundAndReturnSignature ::
    "('w, 'tx, 'kp) stellar_api \<Rightarrow> string \<Rightarrow> uint64 \<Rightarrow> string \<Rightarrow> ('w, 'kp, string \<times> uint64) daemon" where
  "CreateRefundAndReturnSignature S target amount message =
     bindM (generatePaymentOperation S amount target 0) (\<lambda>txnBuild.
     bindM (liftE (with_return_memo message txnBuild)) (\<lambda>txnBuild'.
     bindM (createTransaction S txnBuild' True) (signature_and_sequence S)))"

section \<open>Basic facts\<close>

lemma indexM_in [simp]: "i < length xs \<Longrightarrow> indexM xs i = returnM (xs ! i)"
  by (simp add: indexM_def)

lemma asset_parts:
  "getAssetCodeAndIssuer cfg =
     [''TFT'', if StellarNetwork cfg = ''production''
               then ''GBOVQKJYHXRR3DX6NOX2RRYFRCUMSADGDESTDNBDS6CDVLGVESRTAC47''
               else ''GA47YZA3PKFUZMPLQ3B5F2E3CJIB57TGGU7SPCQT2WAEYKN766PWIMB3'']"
proof -
  have "split_on (CHR '':'') TFTTest = [''TFT'', ''GA47YZA3PKFUZMPLQ3B5F2E3CJIB57TGGU7SPCQT2WAEYKN766PWIMB3'']"
    and "split_on (CHR '':'') TFTMainnet = [''TFT'', ''GBOVQKJYHXRR3DX6NOX2RRYFRCUMSADGDESTDNBDS6CDVLGVESRTAC47'']"
    by code_simp+
  then show ?thesis by (simp add: getAssetCodeAndIssuer_def)
qed

abbreviation asset_code :: "StellarConfig \<Rightarrow> string" where
  "asset_code cfg \<equiv> getAssetCodeAndIssuer cfg ! 0"

abbreviation asset_issuer :: "StellarConfig \<Rightarrow> string" where
  "asset_issuer cfg \<equiv> getAssetCodeAndIssuer cfg ! 1"

lemma length_asset [simp]: "length (getAssetCodeAndIssuer cfg) = 2"
  by (simp add: asset_parts)

lemma indexM_crash_free: "i < length xs \<Longrightarrow> crash_free (indexM xs i)"
  and indexM_keeps [keeps_rules]: "keeps f (indexM xs i)"
  and indexM_returns [returns_rules]: "returns (indexM xs i)"
  by (auto simp: indexM_def crash_free_def keeps_def returns_def prog_defs)

lemma getAccountDetails_Ok_iff:
  "getAccountDetails S address s = Some (Ok account, t) \<longleftrightarrow>
     (\<exists>client w. getHorizonClient (wal_config (wallet s)) = Inr client \<and>
        AccountDetail S client address (world s) = (Inr account, w) \<and> t = s\<lparr>world := w\<rparr>)"
  by (auto simp: getAccountDetails_def worldM_eq prog_defs split: sum.splits prod.splits)

text \<open>What an account lookup may do to the world: nothing, or one request to Horizon.\<close>

definition only_looked_up :: "('w, 'tx, 'kp) stellar_api \<Rightarrow> string \<Rightarrow> 'w \<Rightarrow> 'w \<Rightarrow> bool" where
  "only_looked_up S address w w' \<longleftrightarrow> w' = w \<or> (\<exists>client. w' = snd (AccountDetail S client address w))"

lemma getAccountDetails_world:
  "getAccountDetails S address s = Some (r, t) \<Longrightarrow>
   only_looked_up S address (world s) (world t) \<and> wallet t = wallet s \<and> disk t = disk s"
  unfolding only_looked_up_def
  by (auto simp: getAccountDetails_def worldM_eq prog_defs split: sum.splits prod.splits)
     (metis snd_conv)+

lemma getAccountDetails_rules:
  "keeps wallet (getAccountDetails S address)" "keeps disk (getAccountDetails S address)"
  "returns (getAccountDetails S address)" "crash_free (getAccountDetails S address)"
  unfolding getAccountDetails_def by (intro keeps_rules returns_rules crash_free_rules)+

lemmas [keeps_rules] = getAccountDetails_rules(1,2)
lemmas [returns_rules] = getAccountDetails_rules(3)
lemmas [crash_free_rules] = getAccountDetails_rules(4)

section \<open>The trustline check\<close>

lemma check_balances_Ok_iff:
  "check_balances code issuer bs s = Some (Ok (), t) \<longleftrightarrow> t = s \<and> (\<exists>b\<in>set bs. trusted_balance code issuer b)"
  by (induction bs) auto

lemma check_balances_rules:
  "keeps f (check_balances code issuer bs)" "returns (check_balances code issuer bs)"
  "crash_free (check_balances code issuer bs)"
  by (induction bs) (auto intro: keeps_rules returns_rules crash_free_rules)

lemma trusted_balance_iff:
  "trusted_balance code issuer b \<longleftrightarrow>
     bal_Code b = code \<and> bal_Issuer b = issuer \<and> ParseFloat_positive (bal_Limit b) = Some True"
  by (auto simp: trusted_balance_def split: option.splits)

lemma CheckAccount_eq:
  "CheckAccount S address =
     bindM (getAccountDetails S address) (\<lambda>acc.
     bindM (getM (\<lambda>s. wal_config (wallet s))) (\<lambda>cfg.
       check_balances (asset_code cfg) (asset_issuer cfg) (acc_Balances acc)))"
  unfolding CheckAccount_def
  by (rule arg_cong2 [where f = bindM]) (auto simp: fun_eq_iff prog_defs indexM_def split: list.splits)

lemma CheckAccount_Ok_iff:
  "CheckAccount S address s = Some (Ok (), t) \<longleftrightarrow>
     (\<exists>account. getAccountDetails S address s = Some (Ok account, t) \<and>
        (\<exists>b\<in>set (acc_Balances account).
           trusted_balance (asset_code (wal_config (wallet s))) (asset_issuer (wal_config (wallet s))) b))"
proof (cases "\<exists>account u. getAccountDetails S address s = Some (Ok account, u)")
  case True
  then obtain account u where g: "getAccountDetails S address s = Some (Ok account, u)" by blast
  then have "wallet u = wallet s" using getAccountDetails_world [OF g] by simp
  with g show ?thesis by (auto simp: CheckAccount_eq bindM_step getM_def check_balances_Ok_iff)
next
  case False
  then show ?thesis unfolding CheckAccount_eq bindM_Ok_iff by blast
qed

lemma CheckAccount_rules:
  "keeps wallet (CheckAccount S address)" "keeps disk (CheckAccount S address)"
  "returns (CheckAccount S address)" "crash_free (CheckAccount S address)"
  unfolding CheckAccount_eq
  by (intro keeps_rules returns_rules crash_free_rules check_balances_rules)+

lemmas [keeps_rules] = CheckAccount_rules(1,2)
lemmas [returns_rules] = CheckAccount_rules(3)
lemmas [crash_free_rules] = CheckAccount_rules(4)

section \<open>What a payment is\<close>

definition next_sequence :: "int64 \<Rightarrow> int64 \<Rightarrow> int64" where
  "next_sequence current given = (if given = 0 then current + 1 else given)"

definition payment_of :: "('w, 'tx, 'kp) stellar_api \<Rightarrow> StellarConfig \<Rightarrow> string \<Rightarrow> uint64 \<Rightarrow> string \<Rightarrow> int64
    \<Rightarrow> TransactionParams" where
  "payment_of S cfg source amount destination seqno =
     payment_params S (asset_code cfg) (asset_issuer cfg) source amount destination seqno"

lemma generatePaymentOperation_Ok_iff:
  "generatePaymentOperation S amount destination given s = Some (Ok p, t) \<longleftrightarrow>
     amount \<noteq> 0 \<and>
     (\<exists>account u. getAccountDetails S (StellarBridgeAccount (wal_config (wallet s))) s = Some (Ok account, u) \<and>
        t = u\<lparr>wallet := wallet u\<lparr>wal_sequenceNumber := next_sequence (wal_sequenceNumber (wallet u)) given\<rparr>\<rparr> \<and>
        p = payment_of S (wal_config (wallet s)) (acc_AccountID account) amount destination
              (next_sequence (wal_sequenceNumber (wallet u)) given))"
proof (cases "\<exists>account u. getAccountDetails S (StellarBridgeAccount (wal_config (wallet s))) s = Some (Ok account, u)")
  case True
  then obtain account u where
    g: "getAccountDetails S (StellarBridgeAccount (wal_config (wallet s))) s = Some (Ok account, u)" by blast
  then show ?thesis
    by (auto simp: generatePaymentOperation_def payment_of_def next_sequence_def modify_wallet_def
        bindM_def tryM_def getM_def modifyM_def failM_def returnM_def)
next
  case False
  then show ?thesis
    unfolding generatePaymentOperation_def
    by (auto simp: bindM_Ok_iff tryM_Some_iff split: if_splits)
qed

lemma generatePaymentOperation_world:
  assumes "generatePaymentOperation S amount destination given s = Some (r, t)"
  shows "only_looked_up S (StellarBridgeAccount (wal_config (wallet s))) (world s) (world t)"
    and "disk t = disk s" and "wal_config (wallet t) = wal_config (wallet s)"
    and "wal_keypair (wallet t) = wal_keypair (wallet s)"
    and "wal_signatureCount (wallet t) = wal_signatureCount (wallet s)" and "r \<noteq> Crash"
proof -
  have "only_looked_up S (StellarBridgeAccount (wal_config (wallet s))) (world s) (world t) \<and> disk t = disk s
      \<and> wal_config (wallet t) = wal_config (wallet s) \<and> wal_keypair (wallet t) = wal_keypair (wallet s)
      \<and> wal_signatureCount (wallet t) = wal_signatureCount (wallet s) \<and> r \<noteq> Crash"
  proof (cases "amount = 0")
    case True
    with assms show ?thesis by (auto simp: generatePaymentOperation_def only_looked_up_def)
  next
    case False
    let ?g = "getAccountDetails S (StellarBridgeAccount (wal_config (wallet s)))"
    obtain q u where g: "?g s = Some (q, u)"
      using getAccountDetails_rules(3) by (rule returnsE)
    have "q \<noteq> Crash" using crash_freeD [OF getAccountDetails_rules(4)] g by auto
    with False assms g getAccountDetails_world [OF g] show ?thesis
      by (cases q) (auto simp: generatePaymentOperation_def modify_wallet_def bindM_def tryM_def getM_def
          modifyM_def failM_def returnM_def)
  qed
  then show "only_looked_up S (StellarBridgeAccount (wal_config (wallet s))) (world s) (world t)"
    and "disk t = disk s" and "wal_config (wallet t) = wal_config (wallet s)"
    and "wal_keypair (wallet t) = wal_keypair (wallet s)"
    and "wal_signatureCount (wallet t) = wal_signatureCount (wallet s)" and "r \<noteq> Crash"
    by blast+
qed

text \<open>Only the sequence number of the wallet ever changes.\<close>

definition wallet_identity :: "('w, 'kp) state \<Rightarrow> 'kp \<times> StellarConfig \<times> nat" where
  "wallet_identity s =
     (wal_keypair (wallet s), wal_config (wallet s), wal_signatureCount (wallet s))"

lemma modify_sequence_keeps [keeps_rules]:
  "keeps wallet_identity (modify_wallet (\<lambda>w. w\<lparr>wal_sequenceNumber := f w\<rparr>))"
  by (auto simp: keeps_def modify_wallet_def wallet_identity_def)

lemma keeps_wallet_identity: "keeps wallet m \<Longrightarrow> keeps wallet_identity m"
  by (auto simp: keeps_def wallet_identity_def)

lemma wallet_ops_keep:
  "keeps wallet_identity (generatePaymentOperation S amount destination given)"
  "keeps disk (generatePaymentOperation S amount destination given)"
  "keeps f (createTransaction S p sign)"
  "keeps wallet_identity (resetAccountSequence S)" "keeps disk (resetAccountSequence S)"
  "keeps wallet_identity (submitTransaction S txn)" "keeps disk (submitTransaction S txn)"
  unfolding generatePaymentOperation_def createTransaction_def resetAccountSequence_def submitTransaction_def
  by (intro keeps_rules keeps_wallet_identity)+

lemma wallet_ops_return:
  "returns (generatePaymentOperation S amount destination given)"
  "returns (createTransaction S p sign)" "returns (resetAccountSequence S)" "returns (submitTransaction S txn)"
  unfolding generatePaymentOperation_def createTransaction_def resetAccountSequence_def submitTransaction_def
  by (intro returns_rules)+

lemma wallet_ops_crash_free:
  "crash_free (generatePaymentOperation S amount destination given)"
  "crash_free (createTransaction S p sign)" "crash_free (resetAccountSequence S)"
  "crash_free (submitTransaction S txn)"
  unfolding generatePaymentOperation_def createTransaction_def resetAccountSequence_def submitTransaction_def
  by (intro crash_free_rules indexM_crash_free; simp)+

lemmas [keeps_rules] = wallet_ops_keep
lemmas [returns_rules] = wallet_ops_return
lemmas [crash_free_rules] = wallet_ops_crash_free

lemma sign_and_submit_rules:
  "keeps wallet_identity (sign_and_submit S sigs txn)" "keeps disk (sign_and_submit S sigs txn)"
  "returns (sign_and_submit S sigs txn)" "crash_free (sign_and_submit S sigs txn)"
  "keeps f (signature_and_sequence S txn)" "returns (signature_and_sequence S txn)"
  unfolding sign_and_submit_def signature_and_sequence_def
  by (intro keeps_rules returns_rules crash_free_rules)+

lemmas [keeps_rules] = sign_and_submit_rules(1,2,5)
lemmas [returns_rules] = sign_and_submit_rules(3,6)
lemmas [crash_free_rules] = sign_and_submit_rules(4)

lemma payments_rules:
  "keeps wallet_identity (CreatePaymentAndReturnSignature S target amount txID)"
  "keeps disk (CreatePaymentAndReturnSignature S target amount txID)"
  "keeps wallet_identity (CreatePaymentWithSignaturesAndSubmit S target amount h sigs n)"
  "keeps disk (CreatePaymentWithSignaturesAndSubmit S target amount h sigs n)"
  "keeps wallet_identity (CreateRefundAndReturnSignature S target amount msg)"
  "keeps disk (CreateRefundAndReturnSignature S target amount msg)"
  "keeps wallet_identity (CreateRefundPaymentWithSignaturesAndSubmit S target amount h sigs n)"
  "keeps disk (CreateRefundPaymentWithSignaturesAndSubmit S target amount h sigs n)"
  unfolding CreatePaymentAndReturnSignature_def CreatePaymentWithSignaturesAndSubmit_def
    CreateRefundAndReturnSignature_def CreateRefundPaymentWithSignaturesAndSubmit_def
  by (intro keeps_rules)+

lemma payments_return:
  "returns (CreatePaymentAndReturnSignature S target amount txID)"
  "returns (CreatePaymentWithSignaturesAndSubmit S target amount h sigs n)"
  "returns (CreateRefundAndReturnSignature S target amount msg)"
  "returns (CreateRefundPaymentWithSignaturesAndSubmit S target amount h sigs n)"
  unfolding CreatePaymentAndReturnSignature_def CreatePaymentWithSignaturesAndSubmit_def
    CreateRefundAndReturnSignature_def CreateRefundPaymentWithSignaturesAndSubmit_def
  by (intro returns_rules)+

lemmas [keeps_rules] = payments_rules
lemmas [returns_rules] = payments_return

section \<open>Properties\<close>

text \<open>
  Documented behaviour of \<open>txnbuild\<close> and of Horizon that the multi-signature scheme relies on: a
  transaction built without increment has the sequence number of its parameters, signing adds a
  signature and keeps that number, and an account record carries the address it was asked for.
\<close>

definition txnbuild_laws :: "('w, 'tx, 'kp) stellar_api \<Rightarrow> bool" where
  "txnbuild_laws S \<longleftrightarrow>
     (\<forall>p tx. NewTransaction S p = Inr tx \<longrightarrow> \<not> IncrementSequenceNum p \<longrightarrow>
        TxSequenceNumber S tx = SourceSequence p) \<and>
     (\<forall>pass kp tx tx'. SignTx S pass kp tx = Inr tx' \<longrightarrow>
        TxSequenceNumber S tx' = TxSequenceNumber S tx \<and> TxSignatures S tx' \<noteq> [])"

definition horizon_names_accounts :: "('w, 'tx, 'kp) stellar_api \<Rightarrow> bool" where
  "horizon_names_accounts S \<longleftrightarrow>
     (\<forall>client address w account w'.
        AccountDetail S client address w = (Inr account, w') \<longrightarrow> acc_AccountID account = address)"

lemma sample_laws: "txnbuild_laws sample_stellar" "horizon_names_accounts sample_stellar"
  by (auto simp: txnbuild_laws_def horizon_names_accounts_def sample_stellar_def
      split: sum.splits)

lemma createTransaction_Ok_iff:
  "createTransaction S p sign s = Some (Ok tx, t) \<longleftrightarrow>
     t = s \<and> (\<exists>tx0. NewTransaction S p = Inr tx0 \<and>
       (if sign then SignTx S (getNetworkPassPhrase S (wal_config (wallet s))) (wal_keypair (wallet s)) tx0 = Inr tx
        else tx = tx0))"
  by (auto simp: createTransaction_def prog_defs split: sum.splits)

lemma signature_and_sequence_Ok_iff:
  "signature_and_sequence S tx s = Some (Ok q, t) \<longleftrightarrow>
     t = s \<and> TxSignatures S tx \<noteq> [] \<and> q = (base64_EncodeToString (TxSignatures S tx ! 0), TxSequenceNumber S tx)"
  by (auto simp: signature_and_sequence_def indexM_def prog_defs)

text \<open>The validator's half: what it signed, and the number it gave the transaction.\<close>

lemma signed_parameters:
  assumes laws: "txnbuild_laws S" "horizon_names_accounts S"
    and f: "\<And>p p'. f p = Inr p' \<Longrightarrow> SourceSequence p' = SourceSequence p \<and>
      IncrementSequenceNum p' = IncrementSequenceNum p"
    and A: "bindM (generatePaymentOperation S amount target 0) (\<lambda>b. bindM (liftE (f b)) (\<lambda>b'.
      bindM (createTransaction S b' True) (signature_and_sequence S))) s = Some (Ok (sig, seqno), s')"
  obtains p' stx tx where
    "f (payment_of S (wal_config (wallet s)) (StellarBridgeAccount (wal_config (wallet s)))
       amount target seqno) = Inr p'"
    and "NewTransaction S p' = Inr tx"
    and "SignTx S (getNetworkPassPhrase S (wal_config (wallet s))) (wal_keypair (wallet s)) tx = Inr stx"
    and "sig = base64_EncodeToString (TxSignatures S stx ! 0)"
    and "seqno = wal_sequenceNumber (wallet s) + 1" and "wal_sequenceNumber (wallet s') = seqno"
proof -
  from A obtain p p' u stx where g: "generatePaymentOperation S amount target 0 s = Some (Ok p, u)"
    and fp: "f p = Inr p'"
    and c: "createTransaction S p' True u = Some (Ok stx, s')"
    and q: "(sig, seqno) = (base64_EncodeToString (TxSignatures S stx ! 0), TxSequenceNumber S stx)"
    by (auto simp: bindM_Ok_iff liftE_Some_iff signature_and_sequence_Ok_iff)
  from g obtain account v where
    d: "getAccountDetails S (StellarBridgeAccount (wal_config (wallet s))) s = Some (Ok account, v)"
    and u: "u = v\<lparr>wallet := wallet v\<lparr>wal_sequenceNumber := wal_sequenceNumber (wallet v) + 1\<rparr>\<rparr>"
    and p: "p = payment_of S (wal_config (wallet s)) (acc_AccountID account) amount target
      (wal_sequenceNumber (wallet v) + 1)"
    by (auto simp: generatePaymentOperation_Ok_iff next_sequence_def)
  have v: "wallet v = wallet s" using getAccountDetails_world [OF d] by simp
  from d laws(2) have id: "acc_AccountID account = StellarBridgeAccount (wal_config (wallet s))"
    unfolding getAccountDetails_Ok_iff horizon_names_accounts_def by blast
  from c obtain tx where tx: "NewTransaction S p' = Inr tx" and s': "s' = u"
    and sg: "SignTx S (getNetworkPassPhrase S (wal_config (wallet u))) (wal_keypair (wallet u)) tx = Inr stx"
    by (auto simp: createTransaction_Ok_iff)
  have "TxSequenceNumber S stx = SourceSequence p"
    using laws(1) tx sg f [OF fp] unfolding txnbuild_laws_def
    by (auto simp: p payment_of_def payment_params_def)
  then have seqno: "seqno = wal_sequenceNumber (wallet s) + 1"
    using q p v by (simp add: payment_of_def payment_params_def)
  show thesis
    using that [of p' tx stx] fp tx sg q p u v id seqno s' by simp
qed

lemma signed_payment:
  assumes "txnbuild_laws S" "horizon_names_accounts S"
    and "CreatePaymentAndReturnSignature S target amount txID s = Some (Ok (sig, seqno), s')"
  obtains stx tx where
    "NewTransaction S (payment_of S (wal_config (wallet s)) (StellarBridgeAccount (wal_config (wallet s)))
       amount target seqno) = Inr tx"
    and "SignTx S (getNetworkPassPhrase S (wal_config (wallet s))) (wal_keypair (wallet s)) tx = Inr stx"
    and "sig = base64_EncodeToString (TxSignatures S stx ! 0)"
    and "seqno = wal_sequenceNumber (wallet s) + 1" and "wal_sequenceNumber (wallet s') = seqno"
proof -
  have "bindM (generatePaymentOperation S amount target 0) (\<lambda>b. bindM (liftE (Inr b)) (\<lambda>b'.
      bindM (createTransaction S b' True) (signature_and_sequence S))) s = Some (Ok (sig, seqno), s')"
    using assms(3) by (simp add: CreatePaymentAndReturnSignature_def)
  then show thesis
    by (rule signed_parameters [OF assms(1,2), rotated]) (auto intro: that)
qed

lemma with_return_memo_Inr:
  "with_return_memo txHash p = Inr p' \<longleftrightarrow>
     (\<exists>h. hex_DecodeString txHash = Inr h \<and> p' = p\<lparr>TxMemo := MemoReturn (copy32 h)\<rparr>)"
  by (auto simp: with_return_memo_def split: sum.splits)

lemma signed_refund:
  assumes "txnbuild_laws S" "horizon_names_accounts S"
    and "CreateRefundAndReturnSignature S target amount txHash s = Some (Ok (sig, seqno), s')"
  obtains p' stx tx where
    "with_return_memo txHash (payment_of S (wal_config (wallet s)) (StellarBridgeAccount (wal_config (wallet s)))
       amount target seqno) = Inr p'"
    and "NewTransaction S p' = Inr tx"
    and "SignTx S (getNetworkPassPhrase S (wal_config (wallet s))) (wal_keypair (wallet s)) tx = Inr stx"
    and "sig = base64_EncodeToString (TxSignatures S stx ! 0)"
    and "seqno = wal_sequenceNumber (wallet s) + 1" and "wal_sequenceNumber (wallet s') = seqno"
  by (rule signed_parameters [OF assms(1,2) _ assms(3) [unfolded CreateRefundAndReturnSignature_def]])
     (auto simp: with_return_memo_Inr intro: that)

text \<open>The submitter's half: the parameters it builds are those of \<open>payment_of\<close>.\<close>

lemma rebuilt_payment:
  assumes "horizon_names_accounts S" "seqno \<noteq> 0"
    and "generatePaymentOperation S amount target seqno u = Some (Ok p, u')"
    and "StellarNetwork (wal_config (wallet u)) = StellarNetwork cfg"
    and "StellarBridgeAccount (wal_config (wallet u)) = StellarBridgeAccount cfg"
  shows "p = payment_of S cfg (StellarBridgeAccount cfg) amount target seqno"
proof -
  from assms(3) obtain account v where
    d: "getAccountDetails S (StellarBridgeAccount (wal_config (wallet u))) u = Some (Ok account, v)"
    and p: "p = payment_of S (wal_config (wallet u)) (acc_AccountID account) amount target
      (next_sequence (wal_sequenceNumber (wallet v)) seqno)"
    by (auto simp: generatePaymentOperation_Ok_iff)
  from d assms(1) have "acc_AccountID account = StellarBridgeAccount (wal_config (wallet u))"
    unfolding getAccountDetails_Ok_iff horizon_names_accounts_def by blast
  with p assms(2,4,5) show ?thesis by (simp add: payment_of_def next_sequence_def asset_parts)
qed

lemma passphrase_network:
  "StellarNetwork a = StellarNetwork b \<Longrightarrow> getNetworkPassPhrase S a = getNetworkPassPhrase S b"
  by (simp add: getNetworkPassPhrase_def)

text \<open>
  C23: The signature a validator puts on the chain for a withdrawal is a signature of exactly the
  transaction that any other validator of the same network and bridge account rebuilds from the
  target, the amount and the sequence number stored with it.
\<close>

theorem payment_signature_matches_rebuilt:
  assumes "txnbuild_laws S" "horizon_names_accounts S"
    and "CreatePaymentAndReturnSignature S target amount txID s = Some (Ok (sig, seqno), s')"
    and "generatePaymentOperation S amount target seqno u = Some (Ok p, u')"
    and "seqno \<noteq> 0"
    and "StellarNetwork (wal_config (wallet u)) = StellarNetwork (wal_config (wallet s))"
    and "StellarBridgeAccount (wal_config (wallet u)) = StellarBridgeAccount (wal_config (wallet s))"
  shows "\<exists>tx stx. NewTransaction S p = Inr tx \<and>
    SignTx S (getNetworkPassPhrase S (wal_config (wallet u))) (wal_keypair (wallet s)) tx = Inr stx \<and>
    sig = base64_EncodeToString (TxSignatures S stx ! 0)"
proof -
  note p = rebuilt_payment [OF assms(2,5,4,6,7)]
  show ?thesis
    by (rule signed_payment [OF assms(1-3)]) (auto simp: p passphrase_network [OF assms(6)])
qed

text \<open>
  C24: The same for a refund, whose transaction carries the hash of the refunded deposit as its
  return memo: what a validator signed is what a submitter rebuilds from the chain's record.
\<close>

theorem refund_signature_matches_rebuilt:
  assumes "txnbuild_laws S" "horizon_names_accounts S"
    and "CreateRefundAndReturnSignature S target amount txHash s = Some (Ok (sig, seqno), s')"
    and "generatePaymentOperation S amount target seqno u = Some (Ok p, u')"
    and "seqno \<noteq> 0"
    and "StellarNetwork (wal_config (wallet u)) = StellarNetwork (wal_config (wallet s))"
    and "StellarBridgeAccount (wal_config (wallet u)) = StellarBridgeAccount (wal_config (wallet s))"
  shows "\<exists>p' tx stx. with_return_memo txHash p = Inr p' \<and> NewTransaction S p' = Inr tx \<and>
    SignTx S (getNetworkPassPhrase S (wal_config (wallet u))) (wal_keypair (wallet s)) tx = Inr stx \<and>
    sig = base64_EncodeToString (TxSignatures S stx ! 0)"
proof -
  note p = rebuilt_payment [OF assms(2,5,4,6,7)]
  show ?thesis
    by (rule signed_refund [OF assms(1-3)]) (auto simp: p passphrase_network [OF assms(6)])
qed

lemmas wallet_eval = sample_defs CreatePaymentAndReturnSignature_def CreatePaymentWithSignaturesAndSubmit_def
  CreateRefundAndReturnSignature_def CreateRefundPaymentWithSignaturesAndSubmit_def
  generatePaymentOperation_def createTransaction_def getAccountDetails_def signature_and_sequence_def
  sign_and_submit_def submitTransaction_def resetAccountSequence_def getHorizonClient_def asset_parts
  payment_of_def payment_params_def getNetworkPassPhrase_def modify_wallet_def worldM_eq prog_defs

text \<open>Two validators, alice and bob, with different sequence numbers in memory.\<close>

definition sample_bob :: "(unit sample_world, string) state" where
  "sample_bob = (sample_state ())\<lparr>wallet := sample_wallet\<lparr>wal_keypair := ''bob'', wal_sequenceNumber := 7\<rparr>\<rparr>"

theorem payment_signature_matches_rebuilt_witness:
  "\<exists>p u' tx stx. generatePaymentOperation sample_stellar 50000000 ''GUSER'' 42 sample_bob = Some (Ok p, u') \<and>
     NewTransaction sample_stellar p = Inr tx \<and>
     SignTx sample_stellar ''Test SDF Network ; September 2015'' ''alice'' tx = Inr stx \<and>
     base64_EncodeToString ''alice'' = base64_EncodeToString (TxSignatures sample_stellar stx ! 0)"
proof -
  let ?s = "sample_state ()"
  have A: "CreatePaymentAndReturnSignature sample_stellar ''GUSER'' 50000000 7 ?s =
      Some (Ok (base64_EncodeToString ''alice'', 42), ?s\<lparr>wallet := sample_wallet\<lparr>wal_sequenceNumber := 42\<rparr>\<rparr>)"
    by (simp add: wallet_eval)
  obtain p u' where B: "generatePaymentOperation sample_stellar 50000000 ''GUSER'' 42 sample_bob = Some (Ok p, u')"
    by (simp add: wallet_eval sample_bob_def)
  show ?thesis
    using payment_signature_matches_rebuilt [OF sample_laws A B] B
    by (simp add: sample_bob_def sample_state_def sample_wallet_def sample_config_def getNetworkPassPhrase_def)
       (simp add: sample_stellar_def)
qed

definition sample_hash :: string where
  "sample_hash = ''00ff''"

theorem refund_signature_matches_rebuilt_witness:
  "\<exists>p u' p' tx stx. generatePaymentOperation sample_stellar 50000000 ''GUSER'' 42 sample_bob = Some (Ok p, u') \<and>
     with_return_memo sample_hash p = Inr p' \<and> NewTransaction sample_stellar p' = Inr tx \<and>
     SignTx sample_stellar ''Test SDF Network ; September 2015'' ''alice'' tx = Inr stx \<and>
     base64_EncodeToString ''alice'' = base64_EncodeToString (TxSignatures sample_stellar stx ! 0)"
proof -
  let ?s = "sample_state ()"
  have h: "hex_DecodeString sample_hash = Inr [CHR 0x00, CHR 0xff]" unfolding sample_hash_def by code_simp
  have A: "CreateRefundAndReturnSignature sample_stellar ''GUSER'' 50000000 sample_hash ?s =
      Some (Ok (base64_EncodeToString ''alice'', 42), ?s\<lparr>wallet := sample_wallet\<lparr>wal_sequenceNumber := 42\<rparr>\<rparr>)"
    by (simp add: wallet_eval with_return_memo_def h)
  obtain p u' where B: "generatePaymentOperation sample_stellar 50000000 ''GUSER'' 42 sample_bob = Some (Ok p, u')"
    by (simp add: wallet_eval sample_bob_def)
  show ?thesis
    using refund_signature_matches_rebuilt [OF sample_laws A B] B
    by (simp add: sample_bob_def sample_state_def sample_wallet_def sample_config_def getNetworkPassPhrase_def)
       (simp add: sample_stellar_def)
qed

text \<open>
  C26: The amount in a payment is the decimal with seven digits that denotes exactly the amount in
  units of \<open>10^-7\<close>, for every amount that fits \<open>int64\<close>; the payment goes to the given target, in the
  bridge's asset, and it is the only operation.
\<close>

theorem payment_amount_exact:
  assumes "generatePaymentOperation S amount target seqno s = Some (Ok p, t)"
  shows "\<exists>op. Operations p = [op] \<and> Destination op = target \<and>
    decimal_units 7 (Amount op) = Some (sint amount) \<and>
    (unat amount < 2 ^ 63 \<longrightarrow> sint amount = int (unat amount)) \<and>
    AssetCode op = ''TFT'' \<and> AssetIssuer op = asset_issuer (wal_config (wallet s))"
proof -
  have FloatString: "rat_FloatString a stellarPrecision stellarPrecisionDigits = fixed_point 7 a" for a
    using rat_FloatString_pow10 [of 7 a] by (simp add: stellarPrecision_def stellarPrecisionDigits_def)
  have "sint amount = int (unat amount)" if "unat amount < 2 ^ 63"
  proof -
    have "int (unat amount) < int (2 ^ 63)" using that by (simp only: of_nat_less_iff)
    then have "uint amount < 2 ^ 63" unfolding uint_nat by simp
    moreover have "0 \<le> uint amount" by simp
    ultimately have "signed_take_bit 63 (uint amount) = uint amount"
      by (intro signed_take_bit_int_eq_self) linarith+
    then have "sint amount = uint amount" by (simp add: sint_uint)
    then show ?thesis by simp
  qed
  with assms show ?thesis
    by (auto simp: generatePaymentOperation_Ok_iff payment_of_def payment_params_def FloatString
        decimal_units_fixed_point asset_parts)
qed

theorem payment_amount_exact_witness:
  "\<exists>p t op. generatePaymentOperation sample_stellar 12345678 ''GUSER'' 0 (sample_state ()) = Some (Ok p, t) \<and>
     Operations p = [op] \<and> decimal_units 7 (Amount op) = Some 12345678"
proof -
  obtain p t where B: "generatePaymentOperation sample_stellar 12345678 ''GUSER'' 0 (sample_state ()) = Some (Ok p, t)"
    by (simp add: wallet_eval)
  from payment_amount_exact [OF B] obtain op where "Operations p = [op]"
    and "decimal_units 7 (Amount op) = Some (sint (12345678 :: 64 word))" by blast
  moreover have "sint (12345678 :: 64 word) = 12345678" by simp
  ultimately show ?thesis using B by metis
qed

text \<open>
  The return memo of a refund is the refunded transaction's hash: the 64 hexadecimal digits of a
  Stellar hash decode to the 32 bytes of the memo, nothing cut and nothing padded.
\<close>

theorem refund_memo_is_hash:
  assumes "length h = 32"
  shows "with_return_memo (hex_EncodeToString h) p = Inr (p\<lparr>TxMemo := MemoReturn h\<rparr>)"
  using assms by (simp add: with_return_memo_def hex_decode_encode copy32_id)

definition sample_payment :: TransactionParams where
  "sample_payment = payment_params (sample_stellar :: (unit sample_world, sample_tx, string) stellar_api)
     ''TFT'' tft_issuer ''GBRIDGE'' 5 ''GUSER'' 42"

theorem refund_memo_is_hash_witness:
  "with_return_memo (hex_EncodeToString (replicate 32 (CHR 0xab))) sample_payment =
     Inr (sample_payment\<lparr>TxMemo := MemoReturn (replicate 32 (CHR 0xab))\<rparr>)"
  using refund_memo_is_hash [of "replicate 32 (CHR 0xab)"] by simp

subsection \<open>Submitting\<close>

lemma submitTransaction_Ok_iff:
  "submitTransaction S txn s = Some (Ok (), t) \<longleftrightarrow>
     (\<exists>client res w. getHorizonClient (wal_config (wallet s)) = Inr client \<and>
        SubmitTransaction S client txn (world s) = (Inr res, w) \<and> t = s\<lparr>world := w\<rparr>)"
proof (cases "getHorizonClient (wal_config (wallet s))")
  case (Inl e)
  then show ?thesis by (simp add: submitTransaction_def prog_defs)
next
  case (Inr client)
  obtain r w where sub: "SubmitTransaction S client txn (world s) = (r, w)" by force
  show ?thesis
  proof (cases r)
    case (Inr res)
    with \<open>getHorizonClient _ = Inr client\<close> sub show ?thesis
      by (auto simp: submitTransaction_def worldM_eq bindM_def tryM_def getM_def)
  next
    case (Inl e)
    with \<open>getHorizonClient _ = Inr client\<close> sub show ?thesis
      by (auto simp: submitTransaction_def worldM_eq bindM_def tryM_def getM_def failM_def
          split: option.splits outcome.splits)
  qed
qed

lemma sign_and_submit_Ok_iff:
  "sign_and_submit S sigs txn s = Some (Ok (), t) \<longleftrightarrow>
     wal_signatureCount (wallet s) \<le> length sigs \<and>
     (\<exists>tx. add_signatures S (getNetworkPassPhrase S (wal_config (wallet s)))
             (take (wal_signatureCount (wallet s)) sigs) txn = Inr tx \<and>
        submitTransaction S tx s = Some (Ok (), t))"
  by (auto simp: sign_and_submit_def bindM_Ok_iff liftE_Some_iff not_less)

text \<open>
  What a successful submission is, in both methods: the payment built for the given sequence number
  (with \<open>f\<close>, the memo of a refund), signed with the first signatures that reach the account's
  threshold, accepted by Horizon.
\<close>

definition submitted_payment ::
    "('w, 'tx, 'kp) stellar_api \<Rightarrow> (TransactionParams \<Rightarrow> error + TransactionParams) \<Rightarrow> 'kp StellarWallet
      \<Rightarrow> string \<Rightarrow> uint64 \<Rightarrow> StellarSignature list \<Rightarrow> int64 \<Rightarrow> 'w \<Rightarrow> 'w \<Rightarrow> bool" where
  "submitted_payment S f wal target amount sigs seqno w w' \<longleftrightarrow>
     (\<exists>client source p tx0 tx w1 res.
        wal_signatureCount wal \<le> length sigs \<and>
        f (payment_of S (wal_config wal) source amount target seqno) = Inr p \<and>
        NewTransaction S p = Inr tx0 \<and>
        add_signatures S (getNetworkPassPhrase S (wal_config wal)) (take (wal_signatureCount wal) sigs) tx0
          = Inr tx \<and>
        only_looked_up S (StellarBridgeAccount (wal_config wal)) w w1 \<and>
        SubmitTransaction S client tx w1 = (Inr res, w'))"

lemma submit_steps:
  assumes "bindM (generatePaymentOperation S amount target seqno) (\<lambda>b. bindM (liftE (f b)) (\<lambda>b'.
      bindM (createTransaction S b' False) (sign_and_submit S sigs))) s = Some (Ok (), t)"
  shows "submitted_payment S f (wallet s) target amount sigs
    (next_sequence (wal_sequenceNumber (wallet s)) seqno) (world s) (world t)"
proof -
  from assms obtain p u p' tx0 where g: "generatePaymentOperation S amount target seqno s = Some (Ok p, u)"
    and fp: "f p = Inr p'"
    and c: "NewTransaction S p' = Inr tx0"
    and q: "sign_and_submit S sigs tx0 u = Some (Ok (), t)"
    by (auto simp: bindM_Ok_iff liftE_Some_iff createTransaction_Ok_iff)
  from g obtain account v where
    d: "getAccountDetails S (StellarBridgeAccount (wal_config (wallet s))) s = Some (Ok account, v)"
    and p: "p = payment_of S (wal_config (wallet s)) (acc_AccountID account) amount target
      (next_sequence (wal_sequenceNumber (wallet v)) seqno)"
    by (auto simp: generatePaymentOperation_Ok_iff)
  have v: "wallet v = wallet s" using getAccountDetails_world [OF d] by simp
  note u = generatePaymentOperation_world [OF g]
  from q obtain tx client res w where "wal_signatureCount (wallet u) \<le> length sigs"
    and "add_signatures S (getNetworkPassPhrase S (wal_config (wallet u)))
           (take (wal_signatureCount (wallet u)) sigs) tx0 = Inr tx"
    and "SubmitTransaction S client tx (world u) = (Inr res, w)" "t = u\<lparr>world := w\<rparr>"
    by (auto simp: sign_and_submit_Ok_iff submitTransaction_Ok_iff)
  with fp c u p v show ?thesis unfolding submitted_payment_def by fastforce
qed

lemma submit_too_few:
  assumes "bindM (generatePaymentOperation S amount target seqno) (\<lambda>b. bindM (liftE (f b)) (\<lambda>b'.
      bindM (createTransaction S b' False) (sign_and_submit S sigs))) s = Some (r, t)"
    and "length sigs < wal_signatureCount (wallet s)"
  shows "only_looked_up S (StellarBridgeAccount (wal_config (wallet s))) (world s) (world t) \<and> (\<exists>e. r = Err e)"
proof -
  obtain g u where gen: "generatePaymentOperation S amount target seqno s = Some (g, u)"
    using wallet_ops_return(1) by (rule returnsE)
  note u = generatePaymentOperation_world [OF gen]
  have "sign_and_submit S sigs tx u = failM (ErrorString ''not enough signatures, aborting'') u" for tx
    using u(5) assms(2) by (simp add: sign_and_submit_def bindM_def getM_def)
  with assms(1) gen u show ?thesis
    by (cases g) (auto simp: bindM_def liftE_def createTransaction_def failM_def returnM_def
        split: sum.splits)
qed

lemma withdraw_submit_as_steps:
  "CreatePaymentWithSignaturesAndSubmit S target amount txHash sigs seqno =
     bindM (generatePaymentOperation S amount target seqno) (\<lambda>b. bindM (liftE (Inr b)) (\<lambda>b'.
       bindM (createTransaction S b' False) (sign_and_submit S sigs)))"
  by (simp add: CreatePaymentWithSignaturesAndSubmit_def)

text \<open>
  A withdrawal payment that is reported as paid was submitted with exactly the collected
  signatures that reach the account's threshold, on the payment of the recorded amount to the
  recorded target with the recorded sequence number, and Horizon accepted it; nothing else than one
  account lookup came before.
\<close>

theorem withdraw_payment_submitted:
  assumes "CreatePaymentWithSignaturesAndSubmit S target amount txHash sigs seqno s = Some (Ok (), t)"
  shows "submitted_payment S Inr (wallet s) target amount sigs
    (next_sequence (wal_sequenceNumber (wallet s)) seqno) (world s) (world t)"
  by (rule submit_steps) (rule assms [unfolded withdraw_submit_as_steps])

definition sample_signatures :: "StellarSignature list" where
  "sample_signatures = [\<lparr>Signature = base64_EncodeToString ''alice'', StellarAddress = ''GALICE''\<rparr>,
     \<lparr>Signature = base64_EncodeToString ''bob'', StellarAddress = ''GBOB''\<rparr>]"

theorem withdraw_payment_submitted_witness:
  "\<exists>t. CreatePaymentWithSignaturesAndSubmit sample_stellar ''GUSER'' 50000000 [] sample_signatures 42
         (sample_state ()) = Some (Ok (), t) \<and>
     submitted_payment sample_stellar Inr sample_wallet ''GUSER'' 50000000 sample_signatures 42
       (sample_net ()) (world t)"
proof -
  obtain t where t: "CreatePaymentWithSignaturesAndSubmit sample_stellar ''GUSER'' 50000000 []
      sample_signatures 42 (sample_state ()) = Some (Ok (), t)"
    by (simp add: wallet_eval sample_signatures_def)
  from withdraw_payment_submitted [OF t] t show ?thesis
    by (simp add: sample_state_def next_sequence_def)
qed

text \<open>
  A refund that is reported as paid was submitted with exactly the collected signatures that
  reach the account's threshold, and its return memo is the hash on the chain's record.
\<close>

theorem refund_payment_submitted:
  assumes "CreateRefundPaymentWithSignaturesAndSubmit S target amount txHash sigs seqno s = Some (Ok (), t)"
  shows "submitted_payment S (with_return_memo txHash) (wallet s) target amount sigs
    (next_sequence (wal_sequenceNumber (wallet s)) seqno) (world s) (world t)"
  by (rule submit_steps) (rule assms [unfolded CreateRefundPaymentWithSignaturesAndSubmit_def])

theorem refund_payment_submitted_witness:
  "\<exists>t. CreateRefundPaymentWithSignaturesAndSubmit sample_stellar ''GUSER'' 50000000 sample_hash
         sample_signatures 42 (sample_state ()) = Some (Ok (), t) \<and>
     submitted_payment sample_stellar (with_return_memo sample_hash) sample_wallet ''GUSER'' 50000000
       sample_signatures 42 (sample_net ()) (world t)"
proof -
  have h: "hex_DecodeString sample_hash = Inr [CHR 0x00, CHR 0xff]" unfolding sample_hash_def by code_simp
  obtain t where t: "CreateRefundPaymentWithSignaturesAndSubmit sample_stellar ''GUSER'' 50000000 sample_hash
      sample_signatures 42 (sample_state ()) = Some (Ok (), t)"
    by (simp add: wallet_eval sample_signatures_def with_return_memo_def h)
  from refund_payment_submitted [OF t] t show ?thesis
    by (simp add: sample_state_def next_sequence_def)
qed

text \<open>
  C25: With fewer signatures than the account's threshold neither a withdrawal nor a refund is
  submitted: the call fails, and the only thing it did outside is at most one account lookup.
\<close>

theorem too_few_signatures_submit_nothing:
  assumes "length sigs < wal_signatureCount (wallet s)"
    and "CreatePaymentWithSignaturesAndSubmit S target amount h sigs seqno s = Some (r, t) \<or>
         CreateRefundPaymentWithSignaturesAndSubmit S target amount h sigs seqno s = Some (r, t)"
  shows "only_looked_up S (StellarBridgeAccount (wal_config (wallet s))) (world s) (world t) \<and> (\<exists>e. r = Err e)"
  using assms(2) submit_too_few [OF _ assms(1)]
  unfolding withdraw_submit_as_steps CreateRefundPaymentWithSignaturesAndSubmit_def by blast

theorem too_few_signatures_submit_nothing_witness:
  "\<exists>e t. CreatePaymentWithSignaturesAndSubmit sample_stellar ''GUSER'' 50000000 [] [] 42 (sample_state ())
       = Some (Err e, t) \<and> sw_submitted (world t) = []"
proof -
  let ?run = "CreatePaymentWithSignaturesAndSubmit sample_stellar ''GUSER'' 50000000 [] [] 42 (sample_state ())"
  obtain r t where run: "?run = Some (r, t)" using payments_return(2) by (rule returnsE)
  have few: "length [] < wal_signatureCount (wallet (sample_state ()))"
    by (simp add: sample_state_def sample_wallet_def)
  have "sw_submitted (world t) = []"
    using too_few_signatures_submit_nothing [OF few disjI1 [OF run]]
    by (auto simp: only_looked_up_def sample_state_def sample_net_def sample_stellar_def split: sum.splits)
  with too_few_signatures_submit_nothing [OF few disjI1 [OF run]] run show ?thesis by blast
qed

text \<open>
  After a rejected submission the call never reports success, and when Horizon answers with the
  account the wallet's sequence number is the ledger's again, so the next payment follows it.
\<close>

theorem rejected_submission_resets_sequence:
  assumes "getHorizonClient (wal_config (wallet s)) = Inr client"
    and "SubmitTransaction S client txn (world s) = (Inl e, w)"
    and "submitTransaction S txn s = Some (r, t)"
  shows "(\<exists>e'. r = Err e') \<and>
    (\<forall>account w'. AccountDetail S client (StellarBridgeAccount (wal_config (wallet s))) w = (Inr account, w') \<longrightarrow>
       wal_sequenceNumber (wallet t) = fst (acc_GetSequenceNumber account))"
proof -
  from assms have "bindM (resetAccountSequence S) (\<lambda>_. failM (Wrapped ''error submitting transaction'' e))
      (s\<lparr>world := w\<rparr>) = Some (r, t)"
    by (simp add: submitTransaction_def worldM_eq bindM_def tryM_def getM_def)
  with assms(1) show ?thesis
    by (auto simp: resetAccountSequence_def getAccountDetails_def worldM_eq modify_wallet_def bindM_def
        tryM_def getM_def modifyM_def failM_def returnM_def split: sum.splits prod.splits option.splits)
qed

definition sample_offline :: "(unit sample_world, string) state" where
  "sample_offline = (sample_state ())\<lparr>wallet := sample_wallet\<lparr>wal_sequenceNumber := 99\<rparr>,
     world := (sample_net ())\<lparr>sw_online := False\<rparr>\<rparr>"

theorem rejected_submission_resets_sequence_witness:
  "\<exists>r t. submitTransaction sample_stellar (sample_payment, [''alice'']) sample_offline = Some (r, t) \<and>
     (\<exists>e. r = Err e) \<and> wal_sequenceNumber (wallet t) = 41"
proof -
  let ?txn = "(sample_payment, [''alice''])"
  let ?w = "(sample_net ())\<lparr>sw_online := False\<rparr>"
  obtain r t where run: "submitTransaction sample_stellar ?txn sample_offline = Some (r, t)"
    using wallet_ops_return(4) by (rule returnsE)
  have cl: "getHorizonClient (wal_config (wallet sample_offline)) = Inr DefaultTestNetClient"
    by (simp add: sample_offline_def sample_wallet_def sample_config_def getHorizonClient_def)
  have sub: "SubmitTransaction sample_stellar DefaultTestNetClient ?txn (world sample_offline) =
      (Inl (LibraryError ''tx_bad_seq''), ?w)"
    by (simp add: sample_offline_def sample_stellar_def)
  have acc: "AccountDetail sample_stellar DefaultTestNetClient
      (StellarBridgeAccount (wal_config (wallet sample_offline))) ?w = (Inr (sample_account ''GBRIDGE''), ?w)"
    by (simp add: sample_offline_def sample_defs)
  have "wal_sequenceNumber (wallet t) = 41"
    using rejected_submission_resets_sequence [OF cl sub run] acc by (simp add: sample_account_def)
  with rejected_submission_resets_sequence [OF cl sub run] run show ?thesis by blast
qed

text \<open>
  \<open>CheckAccount\<close> accepts an address exactly when Horizon knows the account and one of its
  balances is in the bridge's TFT, code and issuer, with a limit above zero.
\<close>

theorem CheckAccount_accepts_trustline:
  "CheckAccount S address s = Some (Ok (), t) \<longleftrightarrow>
     (\<exists>account client w. getHorizonClient (wal_config (wallet s)) = Inr client \<and>
        AccountDetail S client address (world s) = (Inr account, w) \<and> t = s\<lparr>world := w\<rparr> \<and>
        (\<exists>b\<in>set (acc_Balances account). bal_Code b = ''TFT'' \<and>
           bal_Issuer b = asset_issuer (wal_config (wallet s)) \<and>
           ParseFloat_positive (bal_Limit b) = Some True))"
  by (auto simp: CheckAccount_Ok_iff getAccountDetails_Ok_iff trusted_balance_iff asset_parts)

text \<open>A lookup leaves the wallet alone.\<close>

lemma getAccountDetails_only: "getAccountDetails S a s = Some (q, u) \<Longrightarrow> wallet u = wallet s"
  using getAccountDetails_world by blast

text \<open>
  Building a payment with sequence number 0 uses the number after the wallet's own one, building
  it with another number uses that one, and the number used is the one the wallet remembers; nothing
  else of the wallet and nothing in the persistency file changes.
\<close>

theorem payment_sequence_number:
  assumes "generatePaymentOperation S amount target given s = Some (Ok p, t)"
  shows "SourceSequence p = (if given = 0 then wal_sequenceNumber (wallet s) + 1 else given) \<and>
    wallet t = (wallet s)\<lparr>wal_sequenceNumber := SourceSequence p\<rparr> \<and> disk t = disk s \<and> amount \<noteq> 0"
  using assms generatePaymentOperation_world(2) [OF assms]
  by (auto simp: generatePaymentOperation_Ok_iff payment_of_def payment_params_def next_sequence_def
      dest: getAccountDetails_only)

theorem payment_sequence_number_witness:
  "\<exists>p t. generatePaymentOperation sample_stellar 12345678 ''GUSER'' 0 (sample_state ()) = Some (Ok p, t) \<and>
     SourceSequence p = 42 \<and> wal_sequenceNumber (wallet t) = 42"
proof -
  obtain p t where B: "generatePaymentOperation sample_stellar 12345678 ''GUSER'' 0 (sample_state ()) = Some (Ok p, t)"
    by (simp add: wallet_eval)
  from payment_sequence_number [OF B] B show ?thesis
    by (simp add: sample_state_def sample_wallet_def)
qed

end
