(* ===== verification/StellarStream.thy ===== *)
theory StellarStream
  imports StellarWallet
begin

text \<open>
  The monitoring half of \<open>pkg/stellar/stellar.go\<close>: what a transaction on the bridge account means
  (\<open>processTransaction\<close>), and the goroutine that pages through the account's transactions and offers
  each one to the bridge (\<open>StreamBridgeStellarTransactions\<close>). A Go map of senders is an association
  list in insertion order with distinct keys; the order in which Go would visit it is left to the
  runtime where the code depends on it.
\<close>

type_synonym senders = "(string \<times> int) list"

record MintEvent =
  Senders :: senders
  Tx :: hz_transaction
  Error :: "error option"

record MintEventSubscription =
  mes_Events :: "MintEvent list"
  mes_Err :: "error option"

section \<open>Requests\<close>

definition getTransactionEffects ::
    "('w, 'tx, 'kp) stellar_api \<Rightarrow> string \<Rightarrow> ('w, 'kp, hz_effect list) daemon" where
  "getTransactionEffects S txHash =
     bindM (getM (\<lambda>s. getHorizonClient (wal_config (wallet s)))) (\<lambda>c.
     bindM (liftE c) (\<lambda>client. worldM (HzEffects S client txHash)))"

definition getOperationEffect ::
    "('w, 'tx, 'kp) stellar_api \<Rightarrow> string \<Rightarrow> ('w, 'kp, hz_operation list) daemon" where
  "getOperationEffect S txHash =
     bindM (getM (\<lambda>s. getHorizonClient (wal_config (wallet s)))) (\<lambda>c.
     bindM (liftE c) (\<lambda>client. worldM (HzOperations S client txHash)))"

section \<open>From a transaction to mint events\<close>

text \<open>\<open>senders[from] = amount\<close>, or the sum when the sender is there already.\<close>

fun add_sender :: "string \<Rightarrow> int \<Rightarrow> senders \<Rightarrow> senders" where
  "add_sender from amount [] = [(from, amount)]"
| "add_sender from amount ((k, v) # rest) =
     (if k = from then (k, v + amount) # rest else (k, v) # add_sender from amount rest)"

text \<open>
  The loop over the operations: \<open>None\<close> is the early \<open>return nil, nil\<close> at an operation that is no
  payment. A payment to somebody else, or with an amount that does not parse, is skipped.
\<close>

fun collect_senders ::
    "('w, 'tx, 'kp) stellar_api \<Rightarrow> string \<Rightarrow> hz_operation list \<Rightarrow> senders \<Rightarrow> ('s, senders option) prog" where
  "collect_senders S bridge [] senders = returnM (Some senders)"
| "collect_senders S bridge (oper # ops) senders =
     (if op_GetType oper \<noteq> ''payment'' then returnM None
      else
        (case op_Payment oper of
           None \<Rightarrow> crashM
         | Some payment \<Rightarrow>
             if pay_To payment \<noteq> bridge then collect_senders S bridge ops senders
             else
               (case amount_ParseInt64 S (pay_Amount payment) of
                  Inl _ \<Rightarrow> collect_senders S bridge ops senders
                | Inr parsedAmount \<Rightarrow>
                    collect_senders S bridge ops (add_sender (pay_From payment) (sint parsedAmount) senders))))"

text \<open>The loop over the effects, with the events collected so far.\<close>

fun collect_events ::
    "('w, 'tx, 'kp) stellar_api \<Rightarrow> StellarConfig \<Rightarrow> hz_transaction \<Rightarrow> hz_effect list \<Rightarrow> MintEvent list
      \<Rightarrow> ('w, 'kp, MintEvent list) daemon" where
  "collect_events S cfg tx [] mintEvents = returnM mintEvents"
| "collect_events S cfg tx (effect # effects) mintEvents =
     (if eff_GetAccount effect \<noteq> StellarBridgeAccount cfg then collect_events S cfg tx effects mintEvents
      else if eff_GetType effect \<noteq> ''account_credited'' then collect_events S cfg tx effects mintEvents
      else
        (case eff_AccountCredited effect of
           None \<Rightarrow> crashM
         | Some (code, issuer) \<Rightarrow>
             bindM (indexM (getAssetCodeAndIssuer cfg) 0) (\<lambda>asset0.
             bindM (indexM (getAssetCodeAndIssuer cfg) 1) (\<lambda>asset1.
               if code \<noteq> asset0 \<and> issuer \<noteq> asset1 then collect_events S cfg tx effects mintEvents
               else
                 tryM (getOperationEffect S (Hash tx)) (\<lambda>r.
                   case r of
                     Inl _ \<Rightarrow> collect_events S cfg tx effects mintEvents
                   | Inr ops \<Rightarrow>
                       bindM (collect_senders S (StellarBridgeAccount cfg) ops []) (\<lambda>result.
                         case result of
                           None \<Rightarrow> returnM []
                         | Some senders \<Rightarrow>
                             collect_events S cfg tx effects
                               (mintEvents @ [\<lparr>Senders = senders, Tx = tx, Error = None\<rparr>])))))))"

definition processTransaction ::
    "('w, 'tx, 'kp) stellar_api \<Rightarrow> hz_transaction \<Rightarrow> ('w, 'kp, MintEvent list) daemon" where
  "processTransaction S tx =
     (if \<not> Successful tx then returnM []
      else
        bindM (getTransactionEffects S (Hash tx)) (\<lambda>effects.
        bindM (getM (\<lambda>s. wal_config (wallet s))) (\<lambda>cfg. collect_events S cfg tx effects [])))"

section \<open>The goroutine\<close>

text \<open>
  Where the goroutine stands: about to fetch a page after a cursor; going through the records of a
  page; blocked on the channel with the events of a record, the rest of the page behind it; returned
  with an error, which the caller turns into \<open>log.Fatal\<close>.
\<close>

datatype stream =
    Fetching string
  | Records string "hz_transaction list"
  | Offering MintEventSubscription hz_transaction "hz_transaction list"
  | Stopped error

text \<open>\<open>select { case <-ctx.Done(): return ctx.Err() ... }\<close>, and what follows otherwise.\<close>

definition select_done :: "'w go_runtime \<Rightarrow> stream \<Rightarrow> ('w, 'kp, stream) daemon" where
  "select_done R next =
     bindM (worldP (select_wait R)) (\<lambda>ctx_done. returnM (if ctx_done then Stopped ContextCanceled else next))"

definition fetch_page ::
    "('w, 'tx, 'kp) stellar_api \<Rightarrow> 'w go_runtime \<Rightarrow> string \<Rightarrow> ('w, 'kp, stream) daemon" where
  "fetch_page S R cursor =
     bindM (getM (\<lambda>s. wal_config (wallet s))) (\<lambda>cfg.
     bindM (liftE (getHorizonClient cfg)) (\<lambda>client.
     tryM (worldM (HzTransactions S client (StellarBridgeAccount cfg) cursor)) (\<lambda>response.
       case response of
         Inl _ \<Rightarrow> select_done R (Fetching cursor)
       | Inr [] \<Rightarrow> select_done R (Fetching cursor)
       | Inr records \<Rightarrow> returnM (Records cursor records))))"

text \<open>One move of the goroutine by itself; while it offers events it waits for the bridge.\<close>

fun stream_next ::
    "('w, 'tx, 'kp) stellar_api \<Rightarrow> 'w go_runtime \<Rightarrow> stream \<Rightarrow> ('w, 'kp, stream) daemon" where
  "stream_next S R (Fetching cursor) =
     bindM (worldP (select_wait R)) (\<lambda>ctx_done.
       if ctx_done then returnM (Stopped ContextCanceled) else fetch_page S R cursor)"
| "stream_next S R (Records cursor []) = returnM (Fetching cursor)"
| "stream_next S R (Records cursor (tx # txs)) =
     tryM (processTransaction S tx) (\<lambda>r.
       case r of
         Inl err \<Rightarrow> returnM (Stopped err)
       | Inr mintEvents \<Rightarrow> returnM (Offering \<lparr>mes_Events = mintEvents, mes_Err = None\<rparr> tx txs))"
| "stream_next S R (Offering sub tx txs) = returnM (Offering sub tx txs)"
| "stream_next S R (Stopped err) = returnM (Stopped err)"

text \<open>What the bridge receives from an offering goroutine, and where the goroutine goes on.\<close>

fun stream_receive :: "stream \<Rightarrow> (MintEventSubscription \<times> stream) option" where
  "stream_receive (Offering sub tx txs) = Some (sub, Records (PagingToken tx) txs)"
| "stream_receive _ = None"

definition StreamBridgeStellarTransactions ::
    "('w, 'tx, 'kp) stellar_api \<Rightarrow> string \<Rightarrow> ('w, 'kp, stream) daemon" where
  "StreamBridgeStellarTransactions S cursor =
     bindM (getM (\<lambda>s. wal_config (wallet s))) (\<lambda>cfg.
       case getHorizonClient cfg of
         Inl err \<Rightarrow> returnM (Stopped err)
       | Inr client \<Rightarrow> returnM (Fetching cursor))"

section \<open>What the senders are\<close>

text \<open>The deposits an operation list contains: who paid the bridge account, and how much.\<close>

definition deposits :: "('w, 'tx, 'kp) stellar_api \<Rightarrow> string \<Rightarrow> hz_operation list \<Rightarrow> senders" where
  "deposits S bridge ops =
     concat (map (\<lambda>oper.
       case op_Payment oper of
         None \<Rightarrow> []
       | Some payment \<Rightarrow>
           (if pay_To payment \<noteq> bridge then []
            else case amount_ParseInt64 S (pay_Amount payment) of
                   Inl _ \<Rightarrow> [] | Inr a \<Rightarrow> [(pay_From payment, sint a)])) ops)"

definition total :: "string \<Rightarrow> senders \<Rightarrow> int" where
  "total a ds = sum_list (map snd (filter (\<lambda>d. fst d = a) ds))"

definition all_payments :: "hz_operation list \<Rightarrow> bool" where
  "all_payments ops \<longleftrightarrow> (\<forall>oper\<in>set ops. op_GetType oper = ''payment'' \<and> op_Payment oper \<noteq> None)"

definition sum_senders :: "senders \<Rightarrow> senders \<Rightarrow> senders" where
  "sum_senders ds m = fold (\<lambda>(from, amount). add_sender from amount) ds m"

lemma deposits_simps [simp]:
  "deposits S bridge [] = []"
  "deposits S bridge (oper # ops) =
     (case op_Payment oper of
        None \<Rightarrow> []
      | Some payment \<Rightarrow>
          (if pay_To payment \<noteq> bridge then []
           else case amount_ParseInt64 S (pay_Amount payment) of
                  Inl _ \<Rightarrow> [] | Inr a \<Rightarrow> [(pay_From payment, sint a)])) @ deposits S bridge ops"
  by (simp_all add: deposits_def)

lemma total_simps [simp]:
  "total a [] = 0" "total a ((b, n) # ds) = (if b = a then n + total a ds else total a ds)"
  by (simp_all add: total_def)

lemma map_of_add_sender:
  "map_of (add_sender from amount m) k =
     (if k = from then Some ((case map_of m from of None \<Rightarrow> 0 | Some v \<Rightarrow> v) + amount) else map_of m k)"
  by (induction m) auto

lemma keys_add_sender: "fst ` set (add_sender from amount m) = insert from (fst ` set m)"
proof (induction m)
  case (Cons p m)
  then show ?case by (cases p) auto
qed simp

lemma distinct_add_sender: "distinct (map fst m) \<Longrightarrow> distinct (map fst (add_sender from amount m))"
proof (induction m)
  case (Cons p m)
  then show ?case by (cases p) (auto simp: keys_add_sender)
qed simp

lemma map_of_sum_senders:
  "map_of (sum_senders ds m) k =
     (case map_of m k of
        Some v \<Rightarrow> Some (v + total k ds)
      | None \<Rightarrow> if k \<in> fst ` set ds then Some (total k ds) else None)"
  unfolding sum_senders_def
  by (induction ds arbitrary: m) (auto simp: map_of_add_sender split: option.splits)

lemma distinct_sum_senders: "distinct (map fst m) \<Longrightarrow> distinct (map fst (sum_senders ds m))"
  unfolding sum_senders_def by (induction ds arbitrary: m) (auto simp: distinct_add_sender)

lemma collect_senders_eq:
  "all_payments ops \<Longrightarrow>
     collect_senders S bridge ops m = returnM (Some (sum_senders (deposits S bridge ops) m))"
  by (induction ops arbitrary: m) (auto simp: all_payments_def sum_senders_def split: sum.splits)

lemma collect_senders_Some_iff:
  "collect_senders S bridge ops m s = Some (Ok (Some m'), t) \<longleftrightarrow>
     t = s \<and> all_payments ops \<and> m' = sum_senders (deposits S bridge ops) m"
proof (cases "all_payments ops")
  case True
  then show ?thesis by (auto simp: collect_senders_eq)
next
  case False
  then have "collect_senders S bridge ops m s \<noteq> Some (Ok (Some m'), t)"
    by (induction ops arbitrary: m) (auto simp: all_payments_def split: option.splits sum.splits)
  with False show ?thesis by simp
qed

lemma collect_senders_rules:
  "keeps f (collect_senders S bridge ops m)" "returns (collect_senders S bridge ops m)"
  by (induction ops arbitrary: m)
     (auto intro: keeps_rules returns_rules split: option.splits sum.splits)

lemma collect_events_rules:
  "keeps wallet (collect_events S cfg tx effects acc)" "keeps disk (collect_events S cfg tx effects acc)"
  "returns (collect_events S cfg tx effects acc)"
  by (induction effects arbitrary: acc)
     (auto simp: getOperationEffect_def
       intro!: keeps_rules returns_rules collect_senders_rules split: option.splits)

lemma processTransaction_rules:
  "keeps wallet (processTransaction S tx)" "keeps disk (processTransaction S tx)"
  "returns (processTransaction S tx)"
  unfolding processTransaction_def getTransactionEffects_def
  by (intro keeps_rules returns_rules collect_events_rules)+

lemmas [keeps_rules] = processTransaction_rules(1,2)
lemmas [returns_rules] = processTransaction_rules(3)

section \<open>Properties of \<open>processTransaction\<close>\<close>

definition accepted_effect :: "StellarConfig \<Rightarrow> hz_effect \<Rightarrow> bool" where
  "accepted_effect cfg effect \<longleftrightarrow>
     eff_GetAccount effect = StellarBridgeAccount cfg \<and> eff_GetType effect = ''account_credited'' \<and>
     (case eff_AccountCredited effect of
        None \<Rightarrow> False
      | Some (code, issuer) \<Rightarrow> code = asset_code cfg \<or> issuer = asset_issuer cfg)"

text \<open>One round of the loop over the effects.\<close>

lemma collect_events_skip:
  "\<not> accepted_effect cfg effect \<Longrightarrow>
   collect_events S cfg tx (effect # effects) acc = crashM \<or>
   collect_events S cfg tx (effect # effects) acc = collect_events S cfg tx effects acc"
  by (auto simp: accepted_effect_def split: option.splits)

lemma collect_events_skip_typed:
  "\<not> accepted_effect cfg effect \<Longrightarrow>
   eff_GetType effect = ''account_credited'' \<longrightarrow> eff_AccountCredited effect \<noteq> None \<Longrightarrow>
   collect_events S cfg tx (effect # effects) acc = collect_events S cfg tx effects acc"
  by (auto simp: accepted_effect_def split: option.splits)

lemma collect_events_accept:
  "accepted_effect cfg effect \<Longrightarrow>
   collect_events S cfg tx (effect # effects) acc =
     tryM (getOperationEffect S (Hash tx)) (\<lambda>r.
       case r of
         Inl _ \<Rightarrow> collect_events S cfg tx effects acc
       | Inr ops \<Rightarrow>
           bindM (collect_senders S (StellarBridgeAccount cfg) ops []) (\<lambda>result.
             case result of
               None \<Rightarrow> returnM []
             | Some senders \<Rightarrow>
                 collect_events S cfg tx effects (acc @ [\<lparr>Senders = senders, Tx = tx, Error = None\<rparr>])))"
  by (auto simp: accepted_effect_def split: option.splits)

text \<open>What is true of every event, whatever the answers of Horizon on the way.\<close>

definition faithful_event ::
    "('w, 'tx, 'kp) stellar_api \<Rightarrow> StellarConfig \<Rightarrow> hz_transaction \<Rightarrow> MintEvent \<Rightarrow> bool" where
  "faithful_event S cfg tx ev \<longleftrightarrow>
     Tx ev = tx \<and> Error ev = None \<and>
     (\<exists>client w w' ops. HzOperations S client (Hash tx) w = (Inr ops, w') \<and> all_payments ops \<and>
        Senders ev = sum_senders (deposits S (StellarBridgeAccount cfg) ops) [])"

lemma getOperationEffect_Ok:
  assumes "getOperationEffect S h s = Some (Ok ops, t)"
  shows "\<exists>client w w'. HzOperations S client h w = (Inr ops, w')"
proof -
  from assms obtain client u where "worldM (HzOperations S client h) u = Some (Ok ops, t)"
    unfolding getOperationEffect_def bindM_Ok_iff by blast
  then have "HzOperations S client h (world u) = (Inr ops, world t)"
    by (auto simp: worldM_eq split: prod.splits sum.splits)
  then show ?thesis by blast
qed

lemma senders_faithful:
  assumes "getOperationEffect S (Hash tx) s = Some (Ok ops, u)"
    and "collect_senders S (StellarBridgeAccount cfg) ops [] u = Some (Ok (Some senders), v)"
  shows "faithful_event S cfg tx \<lparr>Senders = senders, Tx = tx, Error = None\<rparr>"
  using assms(2) getOperationEffect_Ok [OF assms(1)]
  by (auto simp: faithful_event_def collect_senders_Some_iff)

text \<open>The three ways in which the loop goes past one effect.\<close>

lemma collect_events_cases:
  assumes "collect_events S cfg tx (effect # effects) acc s = Some (Ok evs, t)"
  obtains (passed) u where "collect_events S cfg tx effects acc u = Some (Ok evs, t)"
    | (none) "evs = []"
    | (event) senders v where "faithful_event S cfg tx \<lparr>Senders = senders, Tx = tx, Error = None\<rparr>"
        "collect_events S cfg tx effects (acc @ [\<lparr>Senders = senders, Tx = tx, Error = None\<rparr>]) v = Some (Ok evs, t)"
proof (cases "accepted_effect cfg effect")
  case False
  from collect_events_skip [OF False, of S tx effects acc] assms
  have "collect_events S cfg tx effects acc s = Some (Ok evs, t)" by auto
  then show thesis by (rule passed)
next
  case True
  from assms [unfolded collect_events_accept [OF True] tryM_Some_iff]
  consider (failed) u where "collect_events S cfg tx effects acc u = Some (Ok evs, t)"
    | (found) ops u result v where "getOperationEffect S (Hash tx) s = Some (Ok ops, u)"
      "collect_senders S (StellarBridgeAccount cfg) ops [] u = Some (Ok result, v)"
      "(case result of
             None \<Rightarrow> returnM []
           | Some senders \<Rightarrow>
               collect_events S cfg tx effects (acc @ [\<lparr>Senders = senders, Tx = tx, Error = None\<rparr>])) v
           = Some (Ok evs, t)"
    by (auto simp: bindM_Ok_iff)
  then show thesis
  proof cases
    case found
    show thesis
    proof (cases result)
      case None
      with found(3) show thesis by (intro none) simp
    next
      case (Some senders)
      with found show thesis by (intro event [of senders v] senders_faithful [OF found(1), of cfg]) simp_all
    qed
  qed (rule passed)
qed

lemma collect_events_faithful:
  "collect_events S cfg tx effects acc s = Some (Ok evs, t) \<Longrightarrow>
   \<forall>ev\<in>set acc. faithful_event S cfg tx ev \<Longrightarrow> \<forall>ev\<in>set evs. faithful_event S cfg tx ev"
proof (induction effects arbitrary: acc s)
  case (Cons effect effects)
  from Cons.prems(1) show ?case
  proof (cases rule: collect_events_cases)
    case (event senders v)
    then show ?thesis
      using Cons.prems(2) by (intro Cons.IH [of "acc @ [\<lparr>Senders = senders, Tx = tx, Error = None\<rparr>]"]) auto
  qed (use Cons in auto)
qed simp

text \<open>
  Every event that a transaction yields is about that very transaction, and its senders are the
  accounts that paid the bridge in it, each once, with the sum of what it paid; no amount is lost
  and none is counted twice, however many payments a sender made.
\<close>

theorem mint_event_senders:
  assumes "processTransaction S tx s = Some (Ok evs, t)" and "ev \<in> set evs"
  shows "Tx ev = tx \<and> Successful tx \<and> distinct (map fst (Senders ev)) \<and>
    (\<exists>client w w' ops. HzOperations S client (Hash tx) w = (Inr ops, w') \<and> all_payments ops \<and>
       (let ds = deposits S (StellarBridgeAccount (wal_config (wallet s))) ops in
        \<forall>a. map_of (Senders ev) a = (if a \<in> fst ` set ds then Some (total a ds) else None)))"
proof -
  from assms obtain effects u where succ: "Successful tx"
    and g: "getTransactionEffects S (Hash tx) s = Some (Ok effects, u)"
    and c: "collect_events S (wal_config (wallet u)) tx effects [] u = Some (Ok evs, t)"
    by (auto simp: processTransaction_def bindM_Ok_iff split: if_splits)
  have "keeps wallet (getTransactionEffects S (Hash tx))"
    unfolding getTransactionEffects_def by (intro keeps_rules)
  from keepsD [OF this g] collect_events_faithful [OF c] assms(2)
  have "faithful_event S (wal_config (wallet s)) tx ev" by simp
  then obtain client w w' ops where ev: "Tx ev = tx"
    and ops: "HzOperations S client (Hash tx) w = (Inr ops, w')" "all_payments ops"
    and senders: "Senders ev = sum_senders (deposits S (StellarBridgeAccount (wal_config (wallet s))) ops) []"
    unfolding faithful_event_def by blast
  have "distinct (map fst (Senders ev))" unfolding senders by (rule distinct_sum_senders) simp
  moreover have "map_of (Senders ev) a =
      (let ds = deposits S (StellarBridgeAccount (wal_config (wallet s))) ops in
       if a \<in> fst ` set ds then Some (total a ds) else None)" for a
    by (simp add: senders map_of_sum_senders Let_def)
  ultimately show ?thesis using ev succ ops unfolding Let_def by blast
qed

definition well_typed :: "hz_effect list \<Rightarrow> hz_operation list \<Rightarrow> bool" where
  "well_typed effects ops \<longleftrightarrow>
     (\<forall>effect\<in>set effects. eff_GetType effect = ''account_credited'' \<longrightarrow> eff_AccountCredited effect \<noteq> None) \<and>
     (\<forall>oper\<in>set ops. op_GetType oper = ''payment'' \<longrightarrow> op_Payment oper \<noteq> None)"

lemma collect_senders_None:
  "\<not> all_payments ops \<Longrightarrow> \<forall>oper\<in>set ops. op_GetType oper = ''payment'' \<longrightarrow> op_Payment oper \<noteq> None \<Longrightarrow>
     collect_senders S bridge ops m = returnM None"
  by (induction ops arbitrary: m) (auto simp: all_payments_def split: option.splits sum.splits)

lemma getOperationEffect_step:
  "getHorizonClient (wal_config (wallet s)) = Inr client \<Longrightarrow>
   HzOperations S client h (world s) = (Inr ops, world s) \<Longrightarrow> getOperationEffect S h s = Some (Ok ops, s)"
  by (simp add: getOperationEffect_def worldM_eq bindM_def getM_def)

lemma collect_events_eq:
  assumes "getHorizonClient (wal_config (wallet s)) = Inr client"
    and "HzOperations S client (Hash tx) (world s) = (Inr ops, world s)"
    and "well_typed effects ops"
  shows "collect_events S cfg tx effects acc s =
    Some (Ok (if \<exists>effect\<in>set effects. accepted_effect cfg effect then
       (if all_payments ops
        then acc @ replicate (length (filter (accepted_effect cfg) effects))
          \<lparr>Senders = sum_senders (deposits S (StellarBridgeAccount cfg) ops) [], Tx = tx, Error = None\<rparr>
        else [])
      else acc), s)"
  using assms(3)
proof (induction effects arbitrary: acc)
  case Nil
  then show ?case by (simp add: returnM_def)
next
  case (Cons effect effects)
  have wt: "well_typed effects ops" using Cons.prems by (simp add: well_typed_def)
  note IH = Cons.IH [OF wt]
  note ops = getOperationEffect_step [OF assms(1,2)]
  show ?case
  proof (cases "accepted_effect cfg effect")
    case False
    have "eff_GetType effect = ''account_credited'' \<longrightarrow> eff_AccountCredited effect \<noteq> None"
      using Cons.prems by (simp add: well_typed_def)
    note skip = collect_events_skip_typed [OF False this]
    show ?thesis unfolding skip IH by (simp add: False)
  next
    case True
    note step = collect_events_accept [OF True, of S tx effects acc, THEN fun_cong, of s]
    show ?thesis
    proof (cases "all_payments ops")
      case pay: True
      show ?thesis
        unfolding step
        by (simp only: tryM_step(1) [of "getOperationEffect S (Hash tx)", OF ops] sum.case
              collect_senders_eq [OF pay] bindM_returnM option.case IH)
           (simp add: True pay replicate_app_Cons_same)
    next
      case npay: False
      have typed: "\<forall>oper\<in>set ops. op_GetType oper = ''payment'' \<longrightarrow> op_Payment oper \<noteq> None"
        using wt by (simp add: well_typed_def)
      show ?thesis
        unfolding step
        by (simp only: tryM_step(1) [of "getOperationEffect S (Hash tx)", OF ops] sum.case
              collect_senders_None [OF npay typed] bindM_returnM option.case)
           (simp add: True npay returnM_def)
    qed
  qed
qed

text \<open>
  C22: With Horizon's answers given, a successful transaction yields one event for each effect that
  credits the bridge account with an asset whose code or issuer is the bridge's, and all these
  events are the same; it yields none at all when one of its operations is not a payment.
\<close>

theorem processTransaction_events:
  assumes "Successful tx" and "getHorizonClient (wal_config (wallet s)) = Inr client"
    and "HzEffects S client (Hash tx) (world s) = (Inr effects, w)"
    and "HzOperations S client (Hash tx) w = (Inr ops, w)" and "well_typed effects ops"
  shows "processTransaction S tx s =
    Some (Ok (if all_payments ops
      then replicate (length (filter (accepted_effect (wal_config (wallet s))) effects))
        \<lparr>Senders = sum_senders (deposits S (StellarBridgeAccount (wal_config (wallet s))) ops) [],
         Tx = tx, Error = None\<rparr>
      else []), s\<lparr>world := w\<rparr>)"
proof -
  have "filter (accepted_effect (wal_config (wallet s))) effects = []"
    if "\<not> (\<exists>effect\<in>set effects. accepted_effect (wal_config (wallet s)) effect)"
    using that by (simp add: filter_empty_conv)
  moreover have "collect_events S (wal_config (wallet s)) tx effects [] (s\<lparr>world := w\<rparr>) =
    Some (Ok (if \<exists>effect\<in>set effects. accepted_effect (wal_config (wallet s)) effect then
       (if all_payments ops
        then [] @ replicate (length (filter (accepted_effect (wal_config (wallet s))) effects))
          \<lparr>Senders = sum_senders (deposits S (StellarBridgeAccount (wal_config (wallet s))) ops) [],
           Tx = tx, Error = None\<rparr>
        else [])
      else []), s\<lparr>world := w\<rparr>)"
    by (rule collect_events_eq) (use assms in simp_all)
  ultimately show ?thesis
    using assms(1-3)
    by (auto simp: processTransaction_def getTransactionEffects_def worldM_eq bindM_def getM_def)
qed

text \<open>
  A request for the operations that fails is passed over like an effect that is no deposit: when the only
  deposit of a transaction meets it, the transaction is handed over with no event, and the stream goes on
  after it. So a deposit whose operations could not be read once is not seen again.
\<close>

lemma collect_events_none:
  "\<forall>effect\<in>set effects. eff_GetType effect = ''account_credited'' \<longrightarrow> eff_AccountCredited effect \<noteq> None \<Longrightarrow>
   filter (accepted_effect cfg) effects = [] \<Longrightarrow> collect_events S cfg tx effects acc = returnM acc"
proof (induction effects)
  case (Cons effect effects)
  then have "\<not> accepted_effect cfg effect" "filter (accepted_effect cfg) effects = []" by (auto split: if_splits)
  moreover have "eff_GetType effect = ''account_credited'' \<longrightarrow> eff_AccountCredited effect \<noteq> None"
    using Cons.prems(1) by simp
  ultimately have "collect_events S cfg tx (effect # effects) acc = collect_events S cfg tx effects acc"
    by (intro collect_events_skip_typed)
  also have "\<dots> = returnM acc" using Cons \<open>filter (accepted_effect cfg) effects = []\<close> by simp
  finally show ?case .
qed simp

theorem failed_request_drops_deposit:
  assumes "getHorizonClient (wal_config (wallet s)) = Inr client"
    and "HzEffects S client (Hash tx) (world s) = (Inr effects, w)"
    and "filter (accepted_effect (wal_config (wallet s))) effects = [effect]" and "well_typed effects []"
    and "HzOperations S client (Hash tx) w = (Inl e, w')"
  shows "stream_next S R (Records cursor (tx # txs)) s =
    Some (Ok (Offering \<lparr>mes_Events = [], mes_Err = None\<rparr> tx txs), if Successful tx then s\<lparr>world := w'\<rparr> else s)"
proof -
  let ?cfg = "wal_config (wallet s)" and ?u = "s\<lparr>world := w\<rparr>"
  have failed: "getOperationEffect S (Hash tx) ?u = Some (Err e, s\<lparr>world := w'\<rparr>)"
    using assms(1,5) by (simp add: getOperationEffect_def worldM_eq bindM_def getM_def)
  have "collect_events S ?cfg tx effects [] ?u = Some (Ok [], s\<lparr>world := w'\<rparr>)"
    using assms(3,4)
  proof (induction effects)
    case (Cons x effects)
    then have typed: "\<forall>effect\<in>set effects. eff_GetType effect = ''account_credited'' \<longrightarrow> eff_AccountCredited effect \<noteq> None"
      by (simp add: well_typed_def)
    show ?case
    proof (cases "accepted_effect ?cfg x")
      case True
      with Cons.prems(1) have "filter (accepted_effect ?cfg) effects = []" by simp
      note rest = collect_events_none [OF typed this, of S tx "[]"]
      show ?thesis
        unfolding collect_events_accept [OF True]
        by (simp only: tryM_step(2) [of "getOperationEffect S (Hash tx)", OF failed] sum.case rest) (simp add: returnM_def)
    next
      case False
      with Cons.prems have "eff_GetType x = ''account_credited'' \<longrightarrow> eff_AccountCredited x \<noteq> None"
        by (simp add: well_typed_def)
      note skip = collect_events_skip_typed [OF False this]
      have "filter (accepted_effect ?cfg) effects = [effect]" "well_typed effects []"
        using Cons.prems False typed by (simp_all add: well_typed_def)
      from Cons.IH [OF this] show ?thesis unfolding skip .
    qed
  qed simp
  moreover have "getTransactionEffects S (Hash tx) s = Some (Ok effects, ?u)"
    using assms(1,2) by (simp add: getTransactionEffects_def worldM_eq bindM_def getM_def)
  ultimately show ?thesis
    by (simp add: processTransaction_def bindM_def getM_def tryM_def returnM_def)
qed

text \<open>A deposit of the sample network: carol pays the bridge twice and somebody else once.\<close>

definition sample_deposit :: hz_transaction where
  "sample_deposit = \<lparr>Hash = ''00ff'', Successful = True, Memo = ''twin_1'', MemoType = ''text'',
     PagingToken = ''1001''\<rparr>"

definition sample_credit :: hz_effect where
  "sample_credit = \<lparr>eff_GetAccount = ''GBRIDGE'', eff_GetType = ''account_credited'',
     eff_AccountCredited = Some (''TFT'', tft_issuer)\<rparr>"

definition payment_from :: "string \<Rightarrow> string \<Rightarrow> string \<Rightarrow> hz_operation" where
  "payment_from a b n = \<lparr>op_GetType = ''payment'', op_Payment = Some \<lparr>pay_From = a, pay_To = b, pay_Amount = n\<rparr>\<rparr>"

definition sample_ops :: "hz_operation list" where
  "sample_ops = [payment_from ''GCAROL'' ''GBRIDGE'' ''3.0000000'', payment_from ''GCAROL'' ''GUSER'' ''9.0000000'',
     payment_from ''GCAROL'' ''GBRIDGE'' ''1.5000000'']"

definition deposit_net :: "hz_operation list \<Rightarrow> 'c \<Rightarrow> 'c sample_world" where
  "deposit_net ops c = (sample_net c)\<lparr>sw_history := [sample_deposit],
     sw_effects := [(''00ff'', [sample_credit])], sw_operations := [(''00ff'', ops)]\<rparr>"

definition deposit_state :: "hz_operation list \<Rightarrow> 'c \<Rightarrow> ('c sample_world, string) state" where
  "deposit_state ops c = (sample_state c)\<lparr>world := deposit_net ops c\<rparr>"

lemma sample_amounts:
  "amount_int64 ''3.0000000'' = Inr 30000000" "amount_int64 ''1.5000000'' = Inr 15000000"
  "amount_int64 ''2.0000000'' = Inr 20000000" "amount_int64 ''0.5000000'' = Inr 5000000"
  by (simp_all add: decimal_units_def digits_val_def is_digit_def digit_val_def)

lemma sample_deposits:
  "deposits sample_stellar ''GBRIDGE'' sample_ops = [(''GCAROL'', 30000000), (''GCAROL'', 15000000)]"
  by (simp add: sample_ops_def payment_from_def sample_stellar_def sample_amounts del: amount_int64.simps)

lemma deposit_wallet:
  "wal_config (wallet (deposit_state ops c)) = sample_config"
  "StellarBridgeAccount sample_config = ''GBRIDGE''"
  "getHorizonClient sample_config = Inr DefaultTestNetClient"
  by (simp_all add: deposit_state_def sample_state_def sample_wallet_def sample_config_def getHorizonClient_def)

lemma deposit_answers:
  "HzEffects sample_stellar client (Hash sample_deposit) (world (deposit_state ops c)) =
     (Inr [sample_credit], world (deposit_state ops c))"
  "HzOperations sample_stellar client (Hash sample_deposit) (world (deposit_state ops c)) =
     (Inr ops, world (deposit_state ops c))"
  by (simp_all add: sample_stellar_def deposit_state_def deposit_net_def sample_deposit_def lookup_or_def)

lemma sample_well_typed: "well_typed [sample_credit] sample_ops" "all_payments sample_ops"
  by (simp_all add: well_typed_def all_payments_def sample_credit_def sample_ops_def payment_from_def)

lemma sample_accepted: "accepted_effect sample_config sample_credit"
  by (simp add: accepted_effect_def sample_credit_def sample_config_def asset_parts)

theorem processTransaction_events_witness:
  "processTransaction sample_stellar sample_deposit (deposit_state sample_ops ()) =
     Some (Ok [\<lparr>Senders = [(''GCAROL'', 45000000)], Tx = sample_deposit, Error = None\<rparr>],
       deposit_state sample_ops ())"
proof -
  let ?S = "sample_stellar :: (unit sample_world, sample_tx, string) stellar_api"
  let ?s = "deposit_state sample_ops ()"
  have "Successful sample_deposit" by (simp add: sample_deposit_def)
  moreover have "getHorizonClient (wal_config (wallet ?s)) = Inr DefaultTestNetClient"
    by (simp add: deposit_wallet)
  ultimately have "processTransaction ?S sample_deposit ?s =
    Some (Ok (if all_payments sample_ops
      then replicate (length (filter (accepted_effect (wal_config (wallet ?s))) [sample_credit]))
        \<lparr>Senders = sum_senders (deposits ?S (StellarBridgeAccount (wal_config (wallet ?s))) sample_ops) [],
         Tx = sample_deposit, Error = None\<rparr>
      else []), ?s\<lparr>world := world ?s\<rparr>)"
    by (rule processTransaction_events [OF _ _ deposit_answers sample_well_typed(1)])
  then show ?thesis
    by (simp add: sample_well_typed deposit_wallet sample_accepted sample_deposits sum_senders_def)
qed

theorem failed_request_drops_deposit_witness:
  "stream_next (sample_stellar\<lparr>HzOperations := \<lambda>_ _ w. (Inl (LibraryError ''timeout''), w)\<rparr>) R
     (Records [] [sample_deposit]) (deposit_state sample_ops ()) =
     Some (Ok (Offering \<lparr>mes_Events = [], mes_Err = None\<rparr> sample_deposit []), deposit_state sample_ops ())"
proof -
  let ?S = "sample_stellar\<lparr>HzOperations := \<lambda>_ _ w. (Inl (LibraryError ''timeout''), w)\<rparr>
      :: (unit sample_world, sample_tx, string) stellar_api"
  let ?s = "deposit_state sample_ops ()"
  have "getHorizonClient (wal_config (wallet ?s)) = Inr DefaultTestNetClient" by (simp add: deposit_wallet)
  moreover have "HzEffects ?S DefaultTestNetClient (Hash sample_deposit) (world ?s) = (Inr [sample_credit], world ?s)"
    by (simp add: deposit_answers)
  moreover have "filter (accepted_effect (wal_config (wallet ?s))) [sample_credit] = [sample_credit]"
    by (simp add: deposit_wallet sample_accepted)
  moreover have "well_typed [sample_credit] []" by (simp add: well_typed_def sample_credit_def)
  ultimately show ?thesis
    using failed_request_drops_deposit [of ?s DefaultTestNetClient ?S sample_deposit "[sample_credit]" "world ?s"
        sample_credit "LibraryError ''timeout''" "world ?s" R "[]" "[]"] by simp
qed

text \<open>The same for any client whose answers about this transaction are those of the sample network.\<close>

definition like_sample :: "('c sample_world, 'tx, 'kp) stellar_api \<Rightarrow> bool" where
  "like_sample S \<longleftrightarrow> HzEffects S = HzEffects sample_stellar \<and> HzOperations S = HzOperations sample_stellar \<and>
     amount_ParseInt64 S = amount_int64"

lemma sample_events:
  assumes "like_sample S"
  shows "processTransaction S sample_deposit (deposit_state sample_ops c) =
     Some (Ok [\<lparr>Senders = [(''GCAROL'', 45000000)], Tx = sample_deposit, Error = None\<rparr>],
       deposit_state sample_ops c)"
proof -
  let ?s = "deposit_state sample_ops c"
  have cl: "getHorizonClient (wal_config (wallet ?s)) = Inr DefaultTestNetClient"
    by (simp add: deposit_wallet)
  have eff: "HzEffects S client (Hash sample_deposit) (world ?s) = (Inr [sample_credit], world ?s)"
    and ops: "HzOperations S client (Hash sample_deposit) (world ?s) = (Inr sample_ops, world ?s)" for client
    using assms by (simp_all add: like_sample_def deposit_answers)
  have deps: "deposits S ''GBRIDGE'' sample_ops = [(''GCAROL'', 30000000), (''GCAROL'', 15000000)]"
    using assms by (simp add: sample_ops_def payment_from_def like_sample_def sample_amounts del: amount_int64.simps)
  have "getTransactionEffects S (Hash sample_deposit) ?s = Some (Ok [sample_credit], ?s)"
    by (simp add: getTransactionEffects_def worldM_eq bindM_def getM_def cl eff)
  moreover have "collect_events S sample_config sample_deposit [sample_credit] [] ?s =
      Some (Ok [\<lparr>Senders = [(''GCAROL'', 45000000)], Tx = sample_deposit, Error = None\<rparr>], ?s)"
    unfolding collect_events_eq [OF cl ops sample_well_typed(1)]
    by (simp add: sample_well_typed sample_accepted deposit_wallet deps sum_senders_def)
  moreover have "Successful sample_deposit" by (simp add: sample_deposit_def)
  ultimately show ?thesis
    by (simp del: collect_events.simps add: processTransaction_def bindM_def getM_def deposit_wallet)
qed

lemma like_sample_self: "like_sample sample_stellar"
  by (simp add: like_sample_def sample_stellar_def)

theorem mint_event_senders_witness:
  "\<exists>ev t. processTransaction sample_stellar sample_deposit (deposit_state sample_ops ()) = Some (Ok [ev], t) \<and>
     Tx ev = sample_deposit \<and> distinct (map fst (Senders ev))"
  using mint_event_senders [OF sample_events [OF like_sample_self]] sample_events [OF like_sample_self] by force

section \<open>The stream skips nothing and repeats nothing\<close>

text \<open>
  The account's transactions after a cursor, in the order of the ledger. The empty cursor and
  \<open>0\<close> stand before all of them.
\<close>

definition after_cursor :: "string \<Rightarrow> hz_transaction list \<Rightarrow> hz_transaction list" where
  "after_cursor cursor H =
     (if cursor \<in> PagingToken ` set H then tl (dropWhile (\<lambda>t. PagingToken t \<noteq> cursor) H) else H)"

definition known_cursor :: "hz_transaction list \<Rightarrow> string \<Rightarrow> bool" where
  "known_cursor H cursor \<longleftrightarrow> cursor \<in> {[], ''0''} \<union> PagingToken ` set H"

text \<open>
  Documented behaviour of Horizon's transaction pages: \<open>H\<close> being all the transactions the account
  ever gets, a page holds a next part of them in order, from the cursor on, each with its own token.
\<close>

definition pages_of :: "('w, 'tx, 'kp) stellar_api \<Rightarrow> string \<Rightarrow> hz_transaction list \<Rightarrow> bool" where
  "pages_of S account H \<longleftrightarrow>
     distinct (map PagingToken H) \<and> (\<forall>tx\<in>set H. PagingToken tx \<notin> {[], ''0''}) \<and>
     (\<forall>client cursor w page w'. known_cursor H cursor \<longrightarrow>
        HzTransactions S client account cursor w = (Inr page, w') \<longrightarrow>
        (\<exists>n. page = take n (after_cursor cursor H)))"

text \<open>The cursor after \<open>k\<close> transactions of \<open>rest\<close>.\<close>

definition cursor_at :: "string \<Rightarrow> hz_transaction list \<Rightarrow> nat \<Rightarrow> string" where
  "cursor_at cursor rest k = (if k = 0 then cursor else PagingToken (rest ! (k - 1)))"

text \<open>The goroutine stands after the first \<open>k\<close> transactions of \<open>rest\<close>, the ones after \<open>cursor\<close>.\<close>

fun stream_position :: "string \<Rightarrow> hz_transaction list \<Rightarrow> nat \<Rightarrow> stream \<Rightarrow> bool" where
  "stream_position cursor rest k (Fetching c) \<longleftrightarrow> c = cursor_at cursor rest k \<and> k \<le> length rest"
| "stream_position cursor rest k (Records c txs) \<longleftrightarrow>
     c = cursor_at cursor rest k \<and> k \<le> length rest \<and> (\<exists>n. txs = take n (drop k rest))"
| "stream_position cursor rest k (Offering sub tx txs) \<longleftrightarrow>
     k < length rest \<and> tx = rest ! k \<and> (\<exists>n. txs = take n (drop (Suc k) rest))"
| "stream_position cursor rest k (Stopped e) \<longleftrightarrow> k \<le> length rest"

lemma dropWhile_token:
  assumes "distinct (map PagingToken H)" and "k < length H"
  shows "dropWhile (\<lambda>t. PagingToken t \<noteq> PagingToken (H ! k)) H = drop k H"
  using assms
proof (induction H arbitrary: k)
  case (Cons t H)
  then show ?case by (cases k) auto
qed simp

lemma after_cursor_nth:
  assumes "distinct (map PagingToken H)" and "k < length H"
  shows "after_cursor (PagingToken (H ! k)) H = drop (Suc k) H"
  using assms by (simp add: after_cursor_def dropWhile_token drop_Suc tl_drop)

lemma after_cursor_drop: "\<exists>i. after_cursor cursor H = drop i H \<and> i \<le> length H"
proof (cases "cursor \<in> PagingToken ` set H")
  case False
  then show ?thesis by (auto simp: after_cursor_def intro!: exI [of _ 0])
next
  case True
  then obtain ys t zs where H: "H = ys @ t # zs" and t: "PagingToken t = cursor"
    and ys: "\<forall>y\<in>set ys. PagingToken y \<noteq> cursor"
    using split_list_first_prop [of H "\<lambda>t. PagingToken t = cursor"] by auto
  then have "dropWhile (\<lambda>t. PagingToken t \<noteq> cursor) H = t # zs"
    by (simp add: dropWhile_append3 dropWhile_eq_Nil_conv dropWhile_append2)
  with True have "after_cursor cursor H = drop (Suc (length ys)) H"
    by (simp add: after_cursor_def H)
  then show ?thesis using H by (intro exI [of _ "Suc (length ys)"]) simp
qed

lemma after_cursor_at:
  assumes "distinct (map PagingToken H)" and "k \<le> length (after_cursor cursor H)"
  shows "after_cursor (cursor_at cursor (after_cursor cursor H) k) H = drop k (after_cursor cursor H)"
proof -
  obtain i where i: "after_cursor cursor H = drop i H" "i \<le> length H" using after_cursor_drop by blast
  show ?thesis
  proof (cases k)
    case 0
    then show ?thesis by (simp add: cursor_at_def)
  next
    case (Suc j)
    with assms i have j: "i + j < length H" by simp
    with Suc i have "cursor_at cursor (after_cursor cursor H) k = PagingToken (H ! (i + j))"
      by (simp add: cursor_at_def)
    with after_cursor_nth [OF assms(1) j] i Suc show ?thesis by (simp add: add.commute)
  qed
qed

lemma known_cursor_at:
  assumes "known_cursor H cursor" and "k \<le> length (after_cursor cursor H)"
  shows "known_cursor H (cursor_at cursor (after_cursor cursor H) k)"
proof (cases k)
  case 0
  with assms show ?thesis by (simp add: cursor_at_def)
next
  case (Suc j)
  obtain i where i: "after_cursor cursor H = drop i H" using after_cursor_drop by blast
  with assms Suc have "i + j < length H" by simp
  with i Suc show ?thesis by (auto simp: cursor_at_def known_cursor_def)
qed

lemma worldM_Ok_iff:
  "worldM f s = Some (Ok a, t) \<longleftrightarrow> (\<exists>w. f (world s) = (Inr a, w) \<and> t = s\<lparr>world := w\<rparr>)"
  by (auto simp: worldM_eq split: prod.splits sum.splits)

lemma select_done_Ok:
  "select_done R next s = Some (Ok st, t) \<Longrightarrow> st = Stopped ContextCanceled \<or> st = next"
  by (auto simp: select_done_def bindM_Ok_iff split: if_splits)

lemma fetch_page_Ok:
  assumes "fetch_page S R cursor s = Some (Ok st, t)"
  shows "st = Stopped ContextCanceled \<or> st = Fetching cursor \<or>
    (\<exists>client w records w'. HzTransactions S client (StellarBridgeAccount (wal_config (wallet s))) cursor w =
       (Inr records, w') \<and> st = Records cursor records)"
proof -
  from assms obtain client where
    "tryM (worldM (HzTransactions S client (StellarBridgeAccount (wal_config (wallet s))) cursor)) (\<lambda>response.
       case response of
         Inl _ \<Rightarrow> select_done R (Fetching cursor)
       | Inr [] \<Rightarrow> select_done R (Fetching cursor)
       | Inr records \<Rightarrow> returnM (Records cursor records)) s = Some (Ok st, t)"
    by (auto simp: fetch_page_def bindM_Ok_iff liftE_Some_iff)
  then consider (page) records u where
      "worldM (HzTransactions S client (StellarBridgeAccount (wal_config (wallet s))) cursor) s = Some (Ok records, u)"
      "(case records of [] \<Rightarrow> select_done R (Fetching cursor) | r # rs \<Rightarrow> returnM (Records cursor (r # rs))) u = Some (Ok st, t)"
    | (failed) u where "select_done R (Fetching cursor) u = Some (Ok st, t)"
    unfolding tryM_Some_iff by auto
  then show ?thesis
  proof cases
    case page
    show ?thesis
    proof (cases records)
      case Nil
      with page(2) have "select_done R (Fetching cursor) u = Some (Ok st, t)" by simp
      then show ?thesis using select_done_Ok by blast
    next
      case (Cons r rs)
      with page(2) have "st = Records cursor records" by simp
      moreover obtain w' where "HzTransactions S client (StellarBridgeAccount (wal_config (wallet s))) cursor (world s)
          = (Inr records, w')" using page(1) unfolding worldM_Ok_iff by blast
      ultimately show ?thesis by blast
    qed
  next
    case failed
    then show ?thesis using select_done_Ok by blast
  qed
qed

lemma Cons_take_drop:
  assumes "x # ys = take n (drop k xs)"
  shows "k < length xs" and "x = xs ! k" and "\<exists>m. ys = take m (drop (Suc k) xs)"
proof -
  from assms show k: "k < length xs"
    by (metis drop_all list.distinct(1) linorder_not_le take_Nil)
  from assms obtain m where "n = Suc m" by (cases n) auto
  with assms k have "x # ys = xs ! k # take m (drop (Suc k) xs)"
    by (simp add: Cons_nth_drop_Suc [symmetric])
  then show "x = xs ! k" and "\<exists>m. ys = take m (drop (Suc k) xs)" by auto
qed

lemma stream_next_position:
  assumes H: "pages_of S (StellarBridgeAccount (wal_config (wallet s))) H" "known_cursor H cursor"
    and pos: "stream_position cursor (after_cursor cursor H) k st"
    and step: "stream_next S R st s = Some (Ok st', t)"
  shows "stream_position cursor (after_cursor cursor H) k st'"
proof (cases st)
  case (Fetching c)
  with pos have c: "c = cursor_at cursor (after_cursor cursor H) k" and k: "k \<le> length (after_cursor cursor H)"
    by auto
  from step Fetching have "st' = Stopped ContextCanceled \<or> (\<exists>u. wallet u = wallet s \<and> fetch_page S R c u = Some (Ok st', t))"
    by (auto simp: bindM_Ok_iff worldP_def Let_def split: prod.splits if_splits)
  with fetch_page_Ok [of S R c _ st' t] consider "st' = Stopped ContextCanceled" | "st' = Fetching c"
    | client w records w' where "HzTransactions S client (StellarBridgeAccount (wal_config (wallet s))) c w =
       (Inr records, w')" "st' = Records c records"
    by metis
  then show ?thesis
  proof cases
    case 3
    have "known_cursor H c" unfolding c by (rule known_cursor_at [OF H(2) k])
    with H(1) 3(1) obtain n where "records = take n (after_cursor c H)" unfolding pages_of_def by blast
    moreover have "after_cursor c H = drop k (after_cursor cursor H)"
      unfolding c by (rule after_cursor_at [OF _ k]) (use H in \<open>simp add: pages_of_def\<close>)
    ultimately show ?thesis using c k 3(2) by auto
  qed (use c k in simp_all)
next
  case (Records c txs)
  show ?thesis
  proof (cases txs)
    case Nil
    with Records pos step show ?thesis by auto
  next
    case (Cons tx txs')
    with Records pos obtain n where n: "tx # txs' = take n (drop k (after_cursor cursor H))"
      and k: "k \<le> length (after_cursor cursor H)" by auto
    note lt = Cons_take_drop [OF n]
    with lt have "stream_position cursor (after_cursor cursor H) k (Offering sub tx txs')" for sub by simp
    with step Records Cons k show ?thesis by (auto simp: tryM_Some_iff)
  qed
qed (use pos step in auto)

lemma stream_receive_position:
  assumes "stream_position cursor rest k st" and "stream_receive st = Some (sub, st')"
  shows "stream_position cursor rest (Suc k) st'"
  using assms by (cases st) (auto simp: cursor_at_def)

text \<open>
  A run of the goroutine from a cursor, with what it has handed over so far. Between two of its moves
  anything may happen in the world and to the wallet's sequence number; the configuration stays.
\<close>

inductive stream_run ::
    "('w, 'tx, 'kp) stellar_api \<Rightarrow> 'w go_runtime \<Rightarrow> StellarConfig \<Rightarrow> string
      \<Rightarrow> ('w, 'kp) state \<Rightarrow> stream \<Rightarrow> (hz_transaction \<times> MintEventSubscription) list \<Rightarrow> bool"
  for S R cfg cursor where
  stream_start: "wal_config (wallet s) = cfg \<Longrightarrow> StreamBridgeStellarTransactions S cursor s = Some (Ok st, t) \<Longrightarrow>
    stream_run S R cfg cursor t st []"
| stream_move: "stream_run S R cfg cursor s st sent \<Longrightarrow> stream_next S R st s = Some (Ok st', t) \<Longrightarrow>
    stream_run S R cfg cursor t st' sent"
| stream_hand_over: "stream_run S R cfg cursor s (Offering sub tx txs) sent \<Longrightarrow>
    stream_receive (Offering sub tx txs) = Some (sub, st') \<Longrightarrow>
    stream_run S R cfg cursor s st' (sent @ [(tx, sub)])"
| stream_meanwhile: "stream_run S R cfg cursor s st sent \<Longrightarrow> wal_config (wallet t) = cfg \<Longrightarrow>
    stream_run S R cfg cursor t st sent"

lemma stream_next_rules:
  "keeps wallet (stream_next S R st)" "keeps disk (stream_next S R st)" "returns (stream_next S R st)"
  by (cases "(S, R, st)" rule: stream_next.cases;
      auto simp: fetch_page_def select_done_def
        intro!: keeps_rules returns_rules split: list.splits)+

definition processed :: "('w, 'tx, 'kp) stellar_api \<Rightarrow> StellarConfig \<Rightarrow> hz_transaction \<Rightarrow> MintEventSubscription \<Rightarrow> bool" where
  "processed S cfg tx sub \<longleftrightarrow> mes_Err sub = None \<and>
     (\<exists>u v. wal_config (wallet u) = cfg \<and> processTransaction S tx u = Some (Ok (mes_Events sub), v))"

fun offers_processed :: "('w, 'tx, 'kp) stellar_api \<Rightarrow> StellarConfig \<Rightarrow> stream \<Rightarrow> bool" where
  "offers_processed S cfg (Offering sub tx txs) = processed S cfg tx sub"
| "offers_processed S cfg _ = True"

lemma stream_next_processed:
  assumes "stream_next S R st s = Some (Ok st', t)" and "wal_config (wallet s) = cfg"
    and "offers_processed S cfg st"
  shows "offers_processed S cfg st'"
proof (cases "(S, R, st)" rule: stream_next.cases)
  case (1 S' R' c)
  with assms(1) have "st' = Stopped ContextCanceled \<or> (\<exists>u. fetch_page S R c u = Some (Ok st', t))"
    by (auto simp: bindM_Ok_iff split: if_splits)
  then show ?thesis using fetch_page_Ok by fastforce
next
  case (3 S' R' c tx txs)
  with assms show ?thesis by (auto simp: tryM_Some_iff processed_def) blast
qed (use assms in auto)

lemma stream_run_config: "stream_run S R cfg cursor s st sent \<Longrightarrow> wal_config (wallet s) = cfg"
proof (induction rule: stream_run.induct)
  case (stream_start s st t)
  then show ?case by (auto simp: StreamBridgeStellarTransactions_def prog_defs split: sum.splits)
next
  case (stream_move s st sent st' t)
  then show ?case using keepsD [OF stream_next_rules(1)] by metis
qed auto

text \<open>
  C18: Started after a cursor, the goroutine hands over the account's transactions after it in the
  ledger's order, each exactly once and none left out, through any number of pages, failed requests
  and interruptions; what it hands over for a transaction is what \<open>processTransaction\<close> made of it.
\<close>

theorem stream_delivers_in_order:
  assumes "pages_of S (StellarBridgeAccount cfg) H" and "known_cursor H cursor"
    and "stream_run S R cfg cursor s st sent"
  shows "map fst sent = take (length sent) (after_cursor cursor H) \<and>
    (\<forall>(tx, sub)\<in>set sent. processed S cfg tx sub)"
proof -
  let ?rest = "after_cursor cursor H"
  from assms(3) have "map fst sent = take (length sent) ?rest \<and> (\<forall>(tx, sub)\<in>set sent. processed S cfg tx sub) \<and>
      stream_position cursor ?rest (length sent) st \<and> offers_processed S cfg st"
  proof (induction rule: stream_run.induct)
    case (stream_start s st t)
    then show ?case
      by (auto simp: StreamBridgeStellarTransactions_def cursor_at_def prog_defs split: sum.splits)
  next
    case (stream_move s st sent st' t)
    note cfg = stream_run_config [OF stream_move.hyps(1)]
    have "stream_position cursor ?rest (length sent) st'"
      using stream_next_position [OF _ assms(2) _ stream_move.hyps(2)] assms(1) cfg stream_move.IH by blast
    moreover have "offers_processed S cfg st'"
      using stream_next_processed [OF stream_move.hyps(2) cfg] stream_move.IH by blast
    ultimately show ?case using stream_move.IH by blast
  next
    case (stream_hand_over s sub tx txs sent st')
    then have "stream_position cursor ?rest (Suc (length sent)) st'"
      using stream_receive_position by blast
    with stream_hand_over show ?case by (auto simp: take_Suc_conv_app_nth)
  qed auto
  then show ?thesis by blast
qed

text \<open>A Horizon with a fixed history, and the sample deposit going through the goroutine.\<close>

definition fixed_history :: "hz_transaction list \<Rightarrow> ('c sample_world, sample_tx, string) stellar_api" where
  "fixed_history H = sample_stellar\<lparr>HzTransactions := \<lambda>_ _ cursor w. (Inr (after_cursor cursor H), w)\<rparr>"

lemma fixed_history_like: "like_sample (fixed_history H)"
  using like_sample_self by (simp add: like_sample_def fixed_history_def)

lemma fixed_history_pages: "pages_of (fixed_history [sample_deposit]) account [sample_deposit]"
proof -
  have "\<exists>n. xs = take n xs" for xs :: "hz_transaction list" by (metis order_refl take_all)
  then show ?thesis by (auto simp: pages_of_def fixed_history_def) (simp_all add: sample_deposit_def)
qed

theorem stream_delivers_in_order_witness:
  "\<exists>(s :: (unit sample_world, string) state) st sub.
     stream_run (fixed_history [sample_deposit]) sample_runtime sample_config [] s st [(sample_deposit, sub)] \<and>
     after_cursor [] [sample_deposit] = [sample_deposit] \<and> mes_Err sub = None"
proof -
  let ?S = "fixed_history [sample_deposit] :: (unit sample_world, sample_tx, string) stellar_api"
    and ?s = "deposit_state sample_ops ()"
  let ?run = "stream_run ?S sample_runtime sample_config []"
  have ac: "after_cursor [] [sample_deposit] = [sample_deposit]"
    by (simp add: after_cursor_def sample_deposit_def)
  have cfg: "wal_config (wallet ?s) = sample_config" by (rule deposit_wallet)
  have "?run ?s (Fetching []) []"
    by (rule stream_start [OF cfg])
       (simp add: StreamBridgeStellarTransactions_def cfg bindM_def getM_def deposit_wallet returnM_def)
  then have "?run ?s (Records [] [sample_deposit]) []"
    by (rule stream_move)
       (simp add: fetch_page_def worldP_def worldM_eq bindM_def tryM_def getM_def cfg deposit_wallet
         sample_runtime_def fixed_history_def ac returnM_def)
  moreover obtain sub where
    "stream_next ?S sample_runtime (Records [] [sample_deposit]) ?s = Some (Ok (Offering sub sample_deposit []), ?s)"
    using sample_events [OF fixed_history_like, of "[sample_deposit]" "()"] by (simp add: tryM_def returnM_def)
  ultimately have "?run ?s (Offering sub sample_deposit []) []" by (rule stream_move)
  then have "?run ?s (Records ''1001'' []) [(sample_deposit, sub)]"
    using stream_hand_over [of ?S sample_runtime sample_config "[]" ?s sub sample_deposit "[]" "[]"]
    by (simp add: sample_deposit_def)
  moreover have "mes_Err sub = None"
    using stream_delivers_in_order [OF fixed_history_pages _ calculation]
    by (simp add: known_cursor_def processed_def)
  ultimately show ?thesis using ac by blast
qed

end
