(* ===== verification/BridgeRefund.thy ===== *)
theory BridgeRefund
  imports Persistency SubstrateClient StellarStream
begin

text \<open>
  \<open>pkg/bridge/refund.go\<close>: signing the refund of a deposit, and paying it once the chain has collected
  the signatures. The struct \<open>Bridge\<close> is here too: the wallet and the persistency file are in the
  daemon's state, the substrate client is its identity, and the rest is fixed at start.
\<close>

record 'id Bridge =
  br_identity :: 'id
  br_config :: BridgeConfig
  br_depositFee :: int64

text \<open>\<open>bridge.wallet.GetKeypair().Address()\<close>\<close>

definition wallet_address :: "('w, 'tx, 'kp) stellar_api \<Rightarrow> ('w, 'kp, string) daemon" where
  "wallet_address S = getM (\<lambda>s. Address S (wal_keypair (wallet s)))"

definition handleRefundExpired ::
    "('w, 'tx, 'kp, 'id) env \<Rightarrow> 'id Bridge \<Rightarrow> go_context \<Rightarrow> RefundTransactionExpiredEvent \<Rightarrow> ('w, 'kp, unit) daemon" where
  "handleRefundExpired E bridge ctx ev =
     bindM (worldM (IsRefundedAlready (chain E) (re_Hash ev))) (\<lambda>refunded.
       if refunded then returnM ()
       else
         bindM (CreateRefundAndReturnSignature (stellar E) (re_Target ev) (re_Amount ev) (re_Hash ev))
           (\<lambda>(signature, sequenceNumber).
         bindM (wallet_address (stellar E)) (\<lambda>address.
           worldL (RetryCreateRefundTransactionOrAddSig (chain E) (runtime E) (br_identity bridge) ctx
             (re_Hash ev) (re_Target ev) (re_Amount ev) signature address sequenceNumber))))"

definition refund ::
    "('w, 'tx, 'kp, 'id) env \<Rightarrow> 'id Bridge \<Rightarrow> go_context \<Rightarrow> string \<Rightarrow> int64 \<Rightarrow> hz_transaction \<Rightarrow> ('w, 'kp, unit) daemon" where
  "refund E bridge ctx destination amount tx =
     bindM (handleRefundExpired E bridge ctx \<lparr>re_Hash = Hash tx, re_Target = destination, re_Amount = amount\<rparr>)
       (\<lambda>_. SaveStellarCursor (runtime E) (PagingToken tx))"

definition handleRefundReady ::
    "('w, 'tx, 'kp, 'id) env \<Rightarrow> 'id Bridge \<Rightarrow> go_context \<Rightarrow> RefundTransactionReadyEvent \<Rightarrow> ('w, 'kp, unit) daemon" where
  "handleRefundReady E bridge ctx ev =
     bindM (worldM (IsRefundedAlready (chain E) (rr_Hash ev))) (\<lambda>refunded.
       if refunded then failM ErrTransactionAlreadyRefunded
       else
         bindM (worldM (GetRefundTransaction (chain E) (rr_Hash ev))) (\<lambda>rec.
         bindM (CreateRefundPaymentWithSignaturesAndSubmit (stellar E) (refund_Target rec) (refund_Amount rec)
                  (refund_TxHash rec) (refund_Signatures rec) (refund_SequenceNumber rec)) (\<lambda>_.
           worldL (RetrySetRefundTransactionExecutedTx (chain E) (runtime E) (br_identity bridge) ctx
             (refund_TxHash rec)))))"

section \<open>Rules\<close>

lemma worldL_Some_iff:
  "worldL f s = Some (Ok (), t) \<longleftrightarrow> (\<exists>w. f (world s) = Some (None, w) \<and> t = s\<lparr>world := w\<rparr>)"
  by (auto simp: worldL_def split: option.splits)

lemma refund_handlers_keep:
  "keeps disk (handleRefundExpired E bridge ctx ev)" "keeps wallet_identity (handleRefundExpired E bridge ctx ev)"
  "keeps wallet_identity (refund E bridge ctx destination amount tx)"
  "keeps disk (handleRefundReady E bridge ctx ev')" "keeps wallet_identity (handleRefundReady E bridge ctx ev')"
  unfolding refund_def handleRefundExpired_def handleRefundReady_def wallet_address_def
  by (intro keeps_rules keeps_wallet_identity)+

lemmas [keeps_rules] = refund_handlers_keep

section \<open>Properties\<close>

text \<open>
  The signature that the retry loop sends from the world \<open>w\<close>: an attempt of it is accepted by the chain
  and leaves the world \<open>w'\<close>, or the chain never accepts it and a check of the loop finds the refund executed.
\<close>

definition refund_signature_accepted ::
    "('w, 'tx, 'kp, 'id) env \<Rightarrow> 'id Bridge \<Rightarrow> go_context \<Rightarrow> RefundTransactionExpiredEvent \<Rightarrow> string \<Rightarrow> string \<Rightarrow> uint64
      \<Rightarrow> 'w \<Rightarrow> 'w \<Rightarrow> bool" where
  "refund_signature_accepted E bridge ctx ev signature address seqno w w' \<longleftrightarrow>
     accepted_from (wait_round (runtime E) ctx) (\<lambda>_. IsRefundedAlready (chain E) (re_Hash ev))
       (CreateRefundTransactionOrAddSig (chain E) (br_identity bridge) (re_Hash ev) (re_Target ev) (re_Amount ev)
         signature address seqno) w w'"

definition refund_found_executed ::
    "('w, 'tx, 'kp, 'id) env \<Rightarrow> 'id Bridge \<Rightarrow> go_context \<Rightarrow> RefundTransactionExpiredEvent \<Rightarrow> string \<Rightarrow> string \<Rightarrow> uint64
      \<Rightarrow> 'w \<Rightarrow> 'w \<Rightarrow> bool" where
  "refund_found_executed E bridge ctx ev signature address seqno w w' \<longleftrightarrow>
     found_from (wait_round (runtime E) ctx) (\<lambda>_. IsRefundedAlready (chain E) (re_Hash ev))
       (CreateRefundTransactionOrAddSig (chain E) (br_identity bridge) (re_Hash ev) (re_Target ev) (re_Amount ev)
         signature address seqno) w w'"

lemma handleRefundExpired_Ok:
  assumes "handleRefundExpired E bridge ctx ev s = Some (Ok (), t)"
  obtains (executed) w where "IsRefundedAlready (chain E) (re_Hash ev) (world s) = (Inr True, w)" "t = s\<lparr>world := w\<rparr>"
    | (signed) w signature seqno v where "IsRefundedAlready (chain E) (re_Hash ev) (world s) = (Inr False, w)"
      "CreateRefundAndReturnSignature (stellar E) (re_Target ev) (re_Amount ev) (re_Hash ev) (s\<lparr>world := w\<rparr>) =
         Some (Ok (signature, seqno), v)"
      "refund_signature_accepted E bridge ctx ev signature (Address (stellar E) (wal_keypair (wallet s))) seqno (world v) (world t) \<or>
       refund_found_executed E bridge ctx ev signature (Address (stellar E) (wal_keypair (wallet s))) seqno (world v) (world t)"
      "t = v\<lparr>world := world t\<rparr>"
proof -
  let ?C = "chain E" and ?S = "stellar E"
  let ?create = "CreateRefundAndReturnSignature ?S (re_Target ev) (re_Amount ev) (re_Hash ev)"
  from assms obtain b w where q: "IsRefundedAlready ?C (re_Hash ev) (world s) = (Inr b, w)"
    and rest: "(if b then returnM () else bindM ?create (\<lambda>(signature, sequenceNumber).
         bindM (wallet_address ?S) (\<lambda>address.
           worldL (RetryCreateRefundTransactionOrAddSig ?C (runtime E) (br_identity bridge) ctx
             (re_Hash ev) (re_Target ev) (re_Amount ev) signature address sequenceNumber)))) (s\<lparr>world := w\<rparr>)
         = Some (Ok (), t)"
    unfolding handleRefundExpired_def bindM_Ok_iff worldM_Ok_iff by blast
  show thesis
  proof (cases b)
    case True
    with q rest show ?thesis by (intro executed) simp_all
  next
    case False
    with rest obtain signature seqno v w' where
      c: "?create (s\<lparr>world := w\<rparr>) = Some (Ok (signature, seqno), v)"
      and r: "RetryCreateRefundTransactionOrAddSig ?C (runtime E) (br_identity bridge) ctx (re_Hash ev)
        (re_Target ev) (re_Amount ev) signature (Address ?S (wal_keypair (wallet v))) seqno (world v) = Some (None, w')"
      and t: "t = v\<lparr>world := w'\<rparr>"
      by (auto simp: bindM_Ok_iff wallet_address_def worldL_Some_iff)
    have "wal_keypair (wallet v) = wal_keypair (wallet s)"
      using keepsD [OF payments_rules(5) c] by (simp add: wallet_identity_def)
    with retry_good_end [OF r [unfolded RetryCreateRefundTransactionOrAddSig_def]] q False c t show thesis
      by (intro signed) (simp_all add: refund_signature_accepted_def refund_found_executed_def)
  qed
qed


definition sample_bridge :: "string Bridge" where
  "sample_bridge = \<lparr>br_identity = ''alice'',
     br_config = \<lparr>TfchainURL = ''ws://chain'', TfchainSeed = ''alice'', RescanBridgeAccount = False,
       PersistencyFile = ''node.json'', StellarConfigOf = sample_config\<rparr>, br_depositFee = 10000000\<rparr>"

definition sample_refund :: RefundTransactionExpiredEvent where
  "sample_refund = \<lparr>re_Hash = ''00ff'', re_Target = ''GCAROL'', re_Amount = 50000000\<rparr>"

lemma sample_decode: "hex_DecodeString ''00ff'' = Inr [CHR 0x00, CHR 0xff]" by code_simp

lemma sample_refund_created:
  "CreateRefundAndReturnSignature sample_stellar ''GCAROL'' n ''00ff'' (sample_state c) =
     (if n = 0 then Some (Err (ErrorString ''invalid amount''), sample_state c) else
      Some (Ok (base64_EncodeToString ''alice'', 42),
        (sample_state c)\<lparr>wallet := sample_wallet\<lparr>wal_sequenceNumber := 42\<rparr>\<rparr>))"
  by (simp add: wallet_eval with_return_memo_def sample_decode del: hex_DecodeString.simps)

lemma sample_refund_sent:
  "sc_reject (sw_chain w) = 0 \<Longrightarrow>
   RetryCreateRefundTransactionOrAddSig sample_chain sample_runtime i ctx h target n sig addr seqno w =
     Some (None, w\<lparr>sw_chain := sign_refund h target n \<lparr>Signature = sig, StellarAddress = addr\<rparr> seqno (sw_chain w)\<rparr>)"
  by (simp add: RetryCreateRefundTransactionOrAddSig_def retry_def sample_chain_fields extrinsic_accepted)


text \<open>
  C14: A refund that the chain already has as executed is refused before anything is built or sent. A
  refund handler that succeeds asked the chain, read the record, submitted one payment, with the
  signatures, target, amount, hash and sequence number of the record, and from the world in which
  that submission left it only ran the retry loop of its report: no second payment is built or sent. The
  report was accepted, or the chain answered that the refund is executed.
\<close>

theorem refund_ready_pays_record:
  shows "(\<forall>w. IsRefundedAlready (chain E) (rr_Hash ev) (world s) = (Inr True, w) \<longrightarrow>
       handleRefundReady E bridge ctx ev s = Some (Err ErrTransactionAlreadyRefunded, s\<lparr>world := w\<rparr>)) \<and>
    (handleRefundReady E bridge ctx ev s = Some (Ok (), t) \<longrightarrow>
       (\<exists>w1 rec w2 w3.
          IsRefundedAlready (chain E) (rr_Hash ev) (world s) = (Inr False, w1) \<and>
          GetRefundTransaction (chain E) (rr_Hash ev) w1 = (Inr rec, w2) \<and>
          submitted_payment (stellar E) (with_return_memo (refund_TxHash rec)) (wallet s) (refund_Target rec)
            (refund_Amount rec) (refund_Signatures rec)
            (next_sequence (wal_sequenceNumber (wallet s)) (refund_SequenceNumber rec)) w2 w3 \<and>
          RetrySetRefundTransactionExecutedTx (chain E) (runtime E) (br_identity bridge) ctx (refund_TxHash rec) w3
            = Some (None, world t) \<and>
          refunded_settled (chain E) (br_identity bridge) (refund_TxHash rec) (world t)))"
proof (intro conjI allI impI)
  fix w
  assume "IsRefundedAlready (chain E) (rr_Hash ev) (world s) = (Inr True, w)"
  then show "handleRefundReady E bridge ctx ev s = Some (Err ErrTransactionAlreadyRefunded, s\<lparr>world := w\<rparr>)"
    by (simp add: handleRefundReady_def worldM_eq bindM_def failM_def)
next
  assume "handleRefundReady E bridge ctx ev s = Some (Ok (), t)"
  then obtain w1 rec w2 v where q: "IsRefundedAlready (chain E) (rr_Hash ev) (world s) = (Inr False, w1)"
    and g: "GetRefundTransaction (chain E) (rr_Hash ev) w1 = (Inr rec, w2)"
    and p: "CreateRefundPaymentWithSignaturesAndSubmit (stellar E) (refund_Target rec) (refund_Amount rec)
        (refund_TxHash rec) (refund_Signatures rec) (refund_SequenceNumber rec) (s\<lparr>world := w2\<rparr>) = Some (Ok (), v)"
    and r: "worldL (RetrySetRefundTransactionExecutedTx (chain E) (runtime E) (br_identity bridge) ctx
        (refund_TxHash rec)) v = Some (Ok (), t)"
    by (auto simp: handleRefundReady_def bindM_Ok_iff worldM_Ok_iff split: if_splits)
  from r have report: "RetrySetRefundTransactionExecutedTx (chain E) (runtime E) (br_identity bridge) ctx (refund_TxHash rec)
      (world v) = Some (None, world t)"
    by (auto simp: worldL_Some_iff)
  then have "refunded_settled (chain E) (br_identity bridge) (refund_TxHash rec) (world t)"
    by (auto simp: RetrySetRefundTransactionExecutedTx_def dest: refunded_call.nil_settled)
  moreover have "submitted_payment (stellar E) (with_return_memo (refund_TxHash rec)) (wallet s) (refund_Target rec)
            (refund_Amount rec) (refund_Signatures rec)
            (next_sequence (wal_sequenceNumber (wallet s)) (refund_SequenceNumber rec)) w2 (world v)"
    using submit_steps [OF p [unfolded CreateRefundPaymentWithSignaturesAndSubmit_def]] by simp
  ultimately show "\<exists>w1 rec w2 w3.
          IsRefundedAlready (chain E) (rr_Hash ev) (world s) = (Inr False, w1) \<and>
          GetRefundTransaction (chain E) (rr_Hash ev) w1 = (Inr rec, w2) \<and>
          submitted_payment (stellar E) (with_return_memo (refund_TxHash rec)) (wallet s) (refund_Target rec)
            (refund_Amount rec) (refund_Signatures rec)
            (next_sequence (wal_sequenceNumber (wallet s)) (refund_SequenceNumber rec)) w2 w3 \<and>
          RetrySetRefundTransactionExecutedTx (chain E) (runtime E) (br_identity bridge) ctx (refund_TxHash rec) w3
            = Some (None, world t) \<and>
          refunded_settled (chain E) (br_identity bridge) (refund_TxHash rec) (world t)"
    using q g report by blast
qed

text \<open>A chain on which the sample refund is signed by alice and by bob.\<close>

definition refund_record :: RefundTransaction where
  "refund_record = \<lparr>refund_Target = ''GCAROL'', refund_Amount = 50000000, refund_TxHash = ''00ff'',
     refund_Signatures = sample_signatures, refund_SequenceNumber = 42\<rparr>"

definition refund_chain :: sample_chain_state where
  "refund_chain = fresh_chain\<lparr>sc_refunds := [(''00ff'', refund_record)]\<rparr>"

lemma refund_chain_fields:
  "sc_reject refund_chain = 0" "sc_refunded refund_chain = []"
  "find_or (sc_refunds refund_chain) ''00ff'' = Inr refund_record"
  by (simp_all add: refund_chain_def fresh_chain_def find_or_def)

lemma sample_refund_paid:
  "\<exists>w. CreateRefundPaymentWithSignaturesAndSubmit sample_stellar ''GCAROL'' 50000000 ''00ff'' sample_signatures 42
     (sample_state c) = Some (Ok (), (sample_state c)\<lparr>wallet := sample_wallet\<lparr>wal_sequenceNumber := 42\<rparr>, world := w\<rparr>)
     \<and> sw_chain w = c"
  by (simp add: wallet_eval with_return_memo_def sample_decode sample_signatures_def del: hex_DecodeString.simps)

lemma sample_refunded_sent:
  "sc_reject (sw_chain w) = 0 \<Longrightarrow>
   RetrySetRefundTransactionExecutedTx sample_chain sample_runtime i ctx h w =
     Some (None, w\<lparr>sw_chain := (sw_chain w)\<lparr>sc_refunded := h # sc_refunded (sw_chain w)\<rparr>\<rparr>)"
  by (simp add: RetrySetRefundTransactionExecutedTx_def retry_def sample_chain_fields extrinsic_accepted)

theorem refund_ready_pays_record_witness:
  "\<exists>t w3. handleRefundReady sample_env sample_bridge DaemonContext \<lparr>rr_Hash = ''00ff''\<rparr> (sample_state refund_chain)
       = Some (Ok (), t) \<and>
     submitted_payment sample_stellar (with_return_memo ''00ff'') sample_wallet ''GCAROL'' 50000000
       sample_signatures 42 (world (sample_state refund_chain)) w3 \<and>
     refunded_settled sample_chain ''alice'' ''00ff'' (world t)"
proof -
  let ?s = "sample_state refund_chain" and ?ev = "\<lparr>rr_Hash = ''00ff''\<rparr>"
  obtain w where paid: "CreateRefundPaymentWithSignaturesAndSubmit sample_stellar ''GCAROL'' 50000000 ''00ff''
      sample_signatures 42 ?s = Some (Ok (), ?s\<lparr>wallet := sample_wallet\<lparr>wal_sequenceNumber := 42\<rparr>, world := w\<rparr>)"
    and w: "sw_chain w = refund_chain" using sample_refund_paid [of refund_chain] by (elim exE conjE) (rule that)
  obtain t where t: "handleRefundReady sample_env sample_bridge DaemonContext ?ev ?s = Some (Ok (), t)"
    by (simp add: handleRefundReady_def sample_fields worldM_eq bindM_def refund_chain_fields refund_record_def
        paid worldL_def sample_refunded_sent w)
  from refund_ready_pays_record [of sample_env ?ev ?s sample_bridge DaemonContext t] t obtain w1 rec w2 w3 where
    "IsRefundedAlready sample_chain ''00ff'' (world ?s) = (Inr False, w1)"
    and "GetRefundTransaction sample_chain ''00ff'' w1 = (Inr rec, w2)"
    and sub: "submitted_payment sample_stellar (with_return_memo (refund_TxHash rec)) sample_wallet (refund_Target rec)
       (refund_Amount rec) (refund_Signatures rec) (next_sequence 41 (refund_SequenceNumber rec)) w2 w3"
    and settled: "refunded_settled sample_chain (br_identity sample_bridge) (refund_TxHash rec) (world t)"
    by (simp only: sample_env_fields sample_state_fields RefundTransactionReadyEvent.select_convs) blast
  then have "w2 = world ?s" "rec = refund_record"
    by (auto simp: sample_chain_fields sample_state_fields refund_chain_fields)
  with sub settled t show ?thesis
    by (intro exI [of _ t] exI [of _ w3]) (simp add: refund_record_def next_sequence_def sample_bridge_def)
qed

section \<open>The cursor\<close>

lemma refund_returns_iff: "refund E bridge ctx destination amount tx s = None \<longleftrightarrow>
    handleRefundExpired E bridge ctx \<lparr>re_Hash = Hash tx, re_Target = destination, re_Amount = amount\<rparr> s = None"
proof
  assume "refund E bridge ctx destination amount tx s = None"
  then show "handleRefundExpired E bridge ctx \<lparr>re_Hash = Hash tx, re_Target = destination, re_Amount = amount\<rparr> s = None"
    unfolding refund_def using cursor_file.save_last_returns by blast
qed (simp add: refund_def bindM_def)

lemma refund_Ok:
  assumes "refund E bridge ctx destination amount tx s = Some (Ok (), t)" and "ascii_string (PagingToken tx)"
  obtains u where "handleRefundExpired E bridge ctx \<lparr>re_Hash = Hash tx, re_Target = destination, re_Amount = amount\<rparr> s
      = Some (Ok (), u)" and "stored_cursor t = Some (PagingToken tx)" and "wallet t = wallet u"
proof -
  from assms(1) [unfolded refund_def bindM_Ok_iff] obtain u where
    h: "handleRefundExpired E bridge ctx \<lparr>re_Hash = Hash tx, re_Target = destination, re_Amount = amount\<rparr> s
      = Some (Ok (), u)" and sv: "SaveStellarCursor (runtime E) (PagingToken tx) u = Some (Ok (), t)" by auto
  show thesis
    using that [OF h cursor_file.save_stores [OF sv assms(2)] keepsD [OF persistency_keeps(5) sv]] .
qed

end
