(* ===== verification/BridgeMint.thy ===== *)
theory BridgeMint
  imports BridgeRefund
begin

text \<open>
  \<open>pkg/bridge/mint.go\<close>: what the bridge does with a deposit on Stellar. It votes for a mint of the
  deposited amount to the account that the memo names, or signs a refund, or skips the transaction;
  in each case it saves the stream's cursor last.
\<close>

section \<open>The receiver named by a memo\<close>

definition twin_address :: "('w, 'tx, 'kp, 'id) env \<Rightarrow> uint32 \<Rightarrow> ('w, 'kp, string) daemon" where
  "twin_address E i =
     bindM (worldM (GetTwinAccount (chain E) i)) (\<lambda>account. returnM (AccountString (chain E) account))"

definition getSubstrateAddressFromMemo ::
    "('w, 'tx, 'kp, 'id) env \<Rightarrow> string \<Rightarrow> ('w, 'kp, string) daemon" where
  "getSubstrateAddressFromMemo E memo =
     (case split_on (CHR ''_'') memo of
        [kind, num] \<Rightarrow>
          bindM (liftE (Atoi num)) (\<lambda>i.
            if kind = ''twin'' then twin_address E (of_int i)
            else if kind = ''farm'' then
              bindM (worldM (GetFarmTwinID (chain E) (of_int i))) (twin_address E)
            else if kind = ''node'' then
              bindM (worldM (GetNodeTwinID (chain E) (of_int i))) (twin_address E)
            else if kind = ''entity'' then
              bindM (worldM (GetEntityAccount (chain E) (of_int i))) (\<lambda>account.
                returnM (AccountString (chain E) account))
            else failM (ErrorString ''grid type not supported''))
      | _ \<Rightarrow> failM (ErrorString ''memo text is not correctly formatted''))"

section \<open>The handler\<close>

text \<open>The not-found error of the query is no error.\<close>

definition minted_already :: "('w, 'id) chain_api \<Rightarrow> string \<Rightarrow> ('w, 'kp, bool) daemon" where
  "minted_already C txID =
     bindM (worldP (IsMintedAlready C txID)) (\<lambda>(minted, err).
       case err of
         None \<Rightarrow> returnM minted
       | Some e \<Rightarrow> if \<not> errors_Is e ErrMintTransactionNotFound then failM e else returnM minted)"

text \<open>A deposit with exactly one sender, whose transaction is not minted yet.\<close>

definition mint_single ::
    "('w, 'tx, 'kp, 'id) env \<Rightarrow> 'id Bridge \<Rightarrow> go_context \<Rightarrow> string \<Rightarrow> int \<Rightarrow> hz_transaction \<Rightarrow> ('w, 'kp, unit) daemon" where
  "mint_single E bridge ctx receiver depositedAmount tx =
     (if Memo tx = [] then refund E bridge Background receiver (of_int depositedAmount) tx
      else if MemoType tx = ''return'' then SaveStellarCursor (runtime E) (PagingToken tx)
      else if depositedAmount \<le> sint (br_depositFee bridge)
        then refund E bridge Background receiver (of_int depositedAmount) tx
      else
        tryM (getSubstrateAddressFromMemo E (Memo tx)) (\<lambda>r.
          case r of
            Inl _ \<Rightarrow> refund E bridge Background receiver (of_int depositedAmount) tx
          | Inr destination \<Rightarrow>
              bindM (liftE (FromAddress (chain E) destination)) (\<lambda>accountID.
              bindM (worldL (RetryProposeMintOrVote (chain E) (runtime E) (br_identity bridge) ctx
                       (Hash tx) accountID depositedAmount)) (\<lambda>_.
                SaveStellarCursor (runtime E) (PagingToken tx)))))"

text \<open>
  The senders are a Go map: with several of them the loop over the map returns in its first round,
  at the entry where the runtime starts.
\<close>

definition mint ::
    "('w, 'tx, 'kp, 'id) env \<Rightarrow> 'id Bridge \<Rightarrow> go_context \<Rightarrow> senders \<Rightarrow> hz_transaction \<Rightarrow> ('w, 'kp, unit) daemon" where
  "mint E bridge ctx senders tx =
     bindM (minted_already (chain E) (Hash tx)) (\<lambda>minted.
       if minted then failM ErrTransactionAlreadyMinted
       else
         (case senders of
            [] \<Rightarrow> returnM ()
          | [(receiver, depositedAmount)] \<Rightarrow> mint_single E bridge ctx receiver depositedAmount tx
          | _ \<Rightarrow>
              bindM (worldP (map_start (runtime E))) (\<lambda>i.
                case senders ! (i mod length senders) of
                  (sender, depositAmount) \<Rightarrow> refund E bridge Background sender (of_int depositAmount) tx)))"

section \<open>Rules\<close>

lemma memo_rules:
  "keeps wallet (getSubstrateAddressFromMemo E memo)" "keeps disk (getSubstrateAddressFromMemo E memo)"
  "returns (getSubstrateAddressFromMemo E memo)" "crash_free (getSubstrateAddressFromMemo E memo)"
  unfolding getSubstrateAddressFromMemo_def twin_address_def
  by (auto intro!: keeps_rules returns_rules crash_free_rules split: list.splits)

lemmas [keeps_rules] = memo_rules(1,2)
lemmas [returns_rules] = memo_rules(3)
lemmas [crash_free_rules] = memo_rules(4)

lemma minted_already_rules:
  "keeps wallet (minted_already C h)" "keeps disk (minted_already C h)" "returns (minted_already C h)"
  "crash_free (minted_already C h)"
  unfolding minted_already_def by (intro keeps_rules returns_rules crash_free_rules)+

lemmas [keeps_rules] = minted_already_rules(1,2)
lemmas [returns_rules] = minted_already_rules(3)
lemmas [crash_free_rules] = minted_already_rules(4)

lemma refund_keeps_identity [keeps_rules]: "keeps wallet_identity (refund E bridge ctx a n tx)"
  unfolding refund_def by (intro keeps_rules keeps_wallet_identity)

lemma mint_keeps_identity [keeps_rules]: "keeps wallet_identity (mint E bridge ctx senders tx)"
proof -
  have "keeps wallet_identity (mint_single E bridge ctx a n tx)" for a n
    unfolding mint_single_def by (intro keeps_rules keeps_wallet_identity)
  then show ?thesis
    unfolding mint_def
    by (auto intro!: keeps_bindM keeps_if keeps_basic keeps_prod refund_keeps_identity
        keeps_wallet_identity [OF minted_already_rules(1)] keeps_wallet_identity [OF world_keeps(2)]
        split: list.splits)
qed

section \<open>What a handled deposit is\<close>

text \<open>
  The three ways in which a deposit ends well, before the cursor is saved: a transaction that carries
  a return memo needs nothing; one of the senders is refunded; or a mint of the whole amount to the
  account behind the memo is on the chain.
\<close>

definition mint_allowed :: "'id Bridge \<Rightarrow> senders \<Rightarrow> hz_transaction \<Rightarrow> int \<Rightarrow> bool" where
  "mint_allowed bridge senders tx amount \<longleftrightarrow>
     (\<exists>a. senders = [(a, amount)]) \<and> Memo tx \<noteq> [] \<and> MemoType tx \<noteq> ''return'' \<and>
     sint (br_depositFee bridge) < amount"

definition deposit_settled ::
    "('w, 'tx, 'kp, 'id) env \<Rightarrow> 'id Bridge \<Rightarrow> senders \<Rightarrow> hz_transaction \<Rightarrow> ('w, 'kp) state \<Rightarrow> bool" where
  "deposit_settled E bridge senders tx u \<longleftrightarrow>
     (Memo tx \<noteq> [] \<and> MemoType tx = ''return'') \<or>
     (\<exists>a n v. (a, n) \<in> set senders \<and>
        handleRefundExpired E bridge Background \<lparr>re_Hash = Hash tx, re_Target = a, re_Amount = of_int n\<rparr> v
          = Some (Ok (), u)) \<or>
     (\<exists>n address account v v'. mint_allowed bridge senders tx n \<and>
        getSubstrateAddressFromMemo E (Memo tx) v = Some (Ok address, v') \<and>
        FromAddress (chain E) address = Inr account \<and>
        mint_settled (chain E) (br_identity bridge) (Hash tx) account n (world u))"

text \<open>
  The same along one run of the handler. Behind the query whether the transaction is minted stands a state
  \<open>v\<close>; from there the handler refunds an amount to an account, in the state \<open>w\<close>, when the only sender
  gave no memo or not more than the fee, when the memo of a deposit above the fee names no account, or
  when there are several senders, of which the runtime picks one.
\<close>

definition refund_due ::
    "('w, 'tx, 'kp, 'id) env \<Rightarrow> 'id Bridge \<Rightarrow> senders \<Rightarrow> hz_transaction \<Rightarrow> ('w, 'kp) state
      \<Rightarrow> string \<Rightarrow> int \<Rightarrow> ('w, 'kp) state \<Rightarrow> bool" where
  "refund_due E bridge senders tx v a n w \<longleftrightarrow>
     senders = [(a, n)] \<and> w = v \<and> (Memo tx = [] \<or> MemoType tx \<noteq> ''return'' \<and> n \<le> sint (br_depositFee bridge)) \<or>
     senders = [(a, n)] \<and> mint_allowed bridge senders tx n \<and>
       (\<exists>e. getSubstrateAddressFromMemo E (Memo tx) v = Some (Err e, w)) \<or>
     2 \<le> length senders \<and>
       (\<exists>i. worldP (map_start (runtime E)) v = Some (Ok i, w) \<and> senders ! (i mod length senders) = (a, n))"

definition settles_unminted ::
    "('w, 'tx, 'kp, 'id) env \<Rightarrow> 'id Bridge \<Rightarrow> go_context \<Rightarrow> senders \<Rightarrow> hz_transaction
      \<Rightarrow> ('w, 'kp) state \<Rightarrow> ('w, 'kp) state \<Rightarrow> bool" where
  "settles_unminted E bridge ctx senders tx v u \<longleftrightarrow>
     (\<exists>p. senders = [p]) \<and> Memo tx \<noteq> [] \<and> MemoType tx = ''return'' \<and> u = v \<or>
     (\<exists>a n w. refund_due E bridge senders tx v a n w \<and>
        handleRefundExpired E bridge Background \<lparr>re_Hash = Hash tx, re_Target = a, re_Amount = of_int n\<rparr> w
          = Some (Ok (), u)) \<or>
     (\<exists>n address account w. mint_allowed bridge senders tx n \<and>
        getSubstrateAddressFromMemo E (Memo tx) v = Some (Ok address, w) \<and>
        FromAddress (chain E) address = Inr account \<and>
        RetryProposeMintOrVote (chain E) (runtime E) (br_identity bridge) ctx (Hash tx) account n (world w)
          = Some (None, world u) \<and> u = w\<lparr>world := world u\<rparr>)"

text \<open>From the state \<open>s\<close> in which the handler starts to the state \<open>u\<close> in which its work is done.\<close>

definition settles ::
    "('w, 'tx, 'kp, 'id) env \<Rightarrow> 'id Bridge \<Rightarrow> go_context \<Rightarrow> senders \<Rightarrow> hz_transaction
      \<Rightarrow> ('w, 'kp) state \<Rightarrow> ('w, 'kp) state \<Rightarrow> bool" where
  "settles E bridge ctx senders tx s u \<longleftrightarrow>
     (\<exists>v. minted_already (chain E) (Hash tx) s = Some (Ok False, v) \<and> settles_unminted E bridge ctx senders tx v u)"

lemma refund_due_sender: "refund_due E bridge senders tx v a n w \<Longrightarrow> (a, n) \<in> set senders"
  unfolding refund_due_def
  by (elim disjE conjE exE) (simp_all, metis length_greater_0_conv list.size(3) mod_less_divisor not_numeral_le_zero nth_mem)

lemma refund_due_disk: "refund_due E bridge senders tx v a n w \<Longrightarrow> disk w = disk v"
  unfolding refund_due_def
  by (elim disjE conjE exE) (simp_all add: keepsD [OF memo_rules(2)] keepsD [OF world_keeps(1)])

lemma settles_settled:
  assumes "settles E bridge ctx senders tx s u"
  shows "deposit_settled E bridge senders tx u"
proof -
  from assms obtain v where "settles_unminted E bridge ctx senders tx v u" unfolding settles_def by blast
  then consider "Memo tx \<noteq> []" "MemoType tx = ''return''"
    | a n w where "refund_due E bridge senders tx v a n w"
      "handleRefundExpired E bridge Background \<lparr>re_Hash = Hash tx, re_Target = a, re_Amount = of_int n\<rparr> w = Some (Ok (), u)"
    | n address account w where "mint_allowed bridge senders tx n"
      "getSubstrateAddressFromMemo E (Memo tx) v = Some (Ok address, w)" "FromAddress (chain E) address = Inr account"
      "RetryProposeMintOrVote (chain E) (runtime E) (br_identity bridge) ctx (Hash tx) account n (world w) = Some (None, world u)"
    unfolding settles_unminted_def by (elim disjE exE conjE)
  then show ?thesis
  proof cases
    case 2
    then show ?thesis using refund_due_sender unfolding deposit_settled_def by blast
  next
    case 3
    from mint_call.nil_settled [OF 3(4) [unfolded RetryProposeMintOrVote_def]] 3(1-3) show ?thesis
      unfolding deposit_settled_def by blast
  qed (simp add: deposit_settled_def)
qed

text \<open>
  A program that does its work and saves the cursor last: it ends without success and the file is as it
  was, or it came to a state \<open>u\<close> in which the work \<open>W\<close> is done and the file is as it was, and saving
  the cursor is the rest of it.
\<close>

definition saves_last ::
    "'w go_runtime \<Rightarrow> string \<Rightarrow> (('w, 'kp) state \<Rightarrow> bool) \<Rightarrow> ('w, 'kp) state
      \<Rightarrow> unit outcome \<Rightarrow> ('w, 'kp) state \<Rightarrow> bool" where
  "saves_last R c W s r t \<longleftrightarrow>
     (r \<noteq> Ok () \<and> disk t = disk s) \<or> (\<exists>u. W u \<and> disk u = disk s \<and> SaveStellarCursor R c u = Some (r, t))"

lemma saves_last_later:
  assumes "saves_last R c V v r t" and "disk v = disk s" and "\<And>u. V u \<Longrightarrow> W u"
  shows "saves_last R c W s r t"
  using assms unfolding saves_last_def by metis

lemma refund_saves_last:
  assumes "refund E bridge Background a (of_int n) tx w = Some (r, t)" and "refund_due E bridge senders tx v a n w"
  shows "saves_last (runtime E) (PagingToken tx) (settles_unminted E bridge ctx senders tx v) v r t"
proof -
  let ?h = "handleRefundExpired E bridge Background \<lparr>re_Hash = Hash tx, re_Target = a, re_Amount = of_int n\<rparr>"
  have disk: "disk w = disk v" using refund_due_disk [OF assms(2)] .
  from assms(1) [unfolded refund_def bindM_Some_iff] consider
    (ok) u where "?h w = Some (Ok (), u)" "SaveStellarCursor (runtime E) (PagingToken tx) u = Some (r, t)"
    | (bad) q where "?h w = Some (q, t)" "r \<noteq> Ok ()"
    by fastforce
  then show ?thesis
  proof cases
    case ok
    moreover have "disk u = disk v" using keepsD [OF refund_handlers_keep(1) ok(1)] disk by simp
    ultimately show ?thesis using assms(2) unfolding saves_last_def settles_unminted_def by blast
  next
    case bad
    then show ?thesis using keepsD [OF refund_handlers_keep(1) bad(1)] disk by (simp add: saves_last_def)
  qed
qed

lemma propose_saves_last:
  assumes "mint_allowed bridge [(a, n)] tx n" and memo: "getSubstrateAddressFromMemo E (Memo tx) s = Some (Ok address, v)"
    and rest: "bindM (liftE (FromAddress (chain E) address)) (\<lambda>accountID.
      bindM (worldL (RetryProposeMintOrVote (chain E) (runtime E) (br_identity bridge) ctx (Hash tx) accountID n))
        (\<lambda>_. SaveStellarCursor (runtime E) (PagingToken tx))) v = Some (r, t)"
  shows "saves_last (runtime E) (PagingToken tx) (settles_unminted E bridge ctx [(a, n)] tx s) s r t"
proof (cases "FromAddress (chain E) address")
  case (Inl e)
  with rest keepsD [OF memo_rules(2) memo] show ?thesis by (auto simp: saves_last_def)
next
  case (Inr account)
  let ?propose = "worldL (RetryProposeMintOrVote (chain E) (runtime E) (br_identity bridge) ctx (Hash tx) account n)"
  from rest Inr have "bindM ?propose (\<lambda>_. SaveStellarCursor (runtime E) (PagingToken tx)) v = Some (r, t)" by simp
  then consider (ok) u where "?propose v = Some (Ok (), u)" "SaveStellarCursor (runtime E) (PagingToken tx) u = Some (r, t)"
    | (bad) q where "?propose v = Some (q, t)" "r \<noteq> Ok ()"
    unfolding bindM_Some_iff by fastforce
  then show ?thesis
  proof cases
    case ok
    then have "RetryProposeMintOrVote (chain E) (runtime E) (br_identity bridge) ctx (Hash tx) account n (world v)
        = Some (None, world u) \<and> u = v\<lparr>world := world u\<rparr>"
      by (auto simp: worldL_Some_iff)
    with assms(1) memo Inr have "settles_unminted E bridge ctx [(a, n)] tx s u"
      unfolding settles_unminted_def by blast
    moreover have "disk u = disk s" using keepsD [OF world_keeps(5) ok(1)] keepsD [OF memo_rules(2) memo] by simp
    ultimately show ?thesis using ok(2) unfolding saves_last_def by blast
  next
    case bad
    then show ?thesis
      using keepsD [OF world_keeps(5) bad(1)] keepsD [OF memo_rules(2) memo] by (simp add: saves_last_def)
  qed
qed

lemma mint_single_saves_last:
  assumes "mint_single E bridge ctx a n tx s = Some (r, t)"
  shows "saves_last (runtime E) (PagingToken tx) (settles_unminted E bridge ctx [(a, n)] tx s) s r t"
proof -
  consider (refund) "Memo tx = [] \<or> (MemoType tx \<noteq> ''return'' \<and> n \<le> sint (br_depositFee bridge))"
    | (skip) "Memo tx \<noteq> []" "MemoType tx = ''return''"
    | (mint) "mint_allowed bridge [(a, n)] tx n"
    unfolding mint_allowed_def by (metis not_le)
  then show ?thesis
  proof cases
    case refund
    then have "mint_single E bridge ctx a n tx = refund E bridge Background a (of_int n) tx"
      by (auto simp: mint_single_def)
    with assms refund show ?thesis by (intro refund_saves_last [of _ _ a n]) (auto simp: refund_due_def)
  next
    case skip
    with assms show ?thesis unfolding saves_last_def settles_unminted_def mint_single_def by auto
  next
    case mint
    obtain q v where m: "getSubstrateAddressFromMemo E (Memo tx) s = Some (q, v)" using memo_rules(3) by (rule returnsE)
    show ?thesis
    proof (cases q)
      case (Ok address)
      with mint assms m show ?thesis
        by (intro propose_saves_last [OF mint, of E s address v]) (simp_all add: mint_single_def mint_allowed_def tryM_def)
    next
      case (Err e)
      with mint assms m have "refund E bridge Background a (of_int n) tx v = Some (r, t)"
        by (simp add: mint_single_def mint_allowed_def tryM_def)
      moreover have "refund_due E bridge [(a, n)] tx s a n v" using mint m Err by (simp add: refund_due_def)
      ultimately show ?thesis by (rule refund_saves_last)
    next
      case Crash
      with m show ?thesis using crash_freeD [OF memo_rules(4)] by blast
    qed
  qed
qed

lemma mint_saves_last:
  assumes "mint E bridge ctx senders tx s = Some (r, t)" and "senders \<noteq> []"
  shows "saves_last (runtime E) (PagingToken tx) (settles E bridge ctx senders tx s) s r t"
proof -
  obtain q v where m: "minted_already (chain E) (Hash tx) s = Some (q, v)"
    using minted_already_rules(3) by (rule returnsE)
  have disk: "disk v = disk s" using keepsD [OF minted_already_rules(2) m] .
  show ?thesis
  proof (cases "q = Ok False")
    case False
    with assms(1) m have "r \<noteq> Ok () \<and> t = v"
      by (cases q) (auto simp: mint_def bindM_def failM_def)
    with disk show ?thesis by (simp add: saves_last_def)
  next
    case True
    have "saves_last (runtime E) (PagingToken tx) (settles_unminted E bridge ctx senders tx v) v r t"
    proof (cases "\<exists>p. senders = [p]")
      case True
      then obtain a n where "senders = [(a, n)]" by auto
      with assms(1) m \<open>q = Ok False\<close> show ?thesis
        by (auto simp: mint_def bindM_def intro: mint_single_saves_last)
    next
      case False
      then obtain p p' ps where senders: "senders = p # p' # ps" using assms(2)
        by (metis neq_Nil_conv)
      obtain i w where i: "worldP (map_start (runtime E)) v = Some (Ok i, v\<lparr>world := w\<rparr>)"
        by (cases "map_start (runtime E) (world v)") (simp add: worldP_def)
      obtain a n where an: "senders ! (i mod length senders) = (a, n)" by force
      have "refund_due E bridge senders tx v a n (v\<lparr>world := w\<rparr>)"
        unfolding refund_due_def using i an by (auto simp: senders)
      moreover have "refund E bridge Background a (of_int n) tx (v\<lparr>world := w\<rparr>) = Some (r, t)"
        using assms(1) m \<open>q = Ok False\<close> an i
        by (simp add: mint_def bindM_def senders split: prod.splits)
      ultimately show ?thesis using refund_saves_last by blast
    qed
    then show ?thesis using disk m True by (elim saves_last_later) (auto simp: settles_def)
  qed
qed

section \<open>Properties\<close>

text \<open>The sample deposit of carol, who pays for twin 1.\<close>

lemma sample_memo:
  assumes "chain E = sample_chain"
  shows "getSubstrateAddressFromMemo E ''twin_1'' s = Some (Ok ''5dave'', s)"
proof -
  have "split_on (CHR ''_'') ''twin_1'' = [''twin'', ''1'']" by code_simp
  moreover have "Atoi ''1'' = Inr 1" by code_simp
  ultimately show ?thesis
    by (simp add: getSubstrateAddressFromMemo_def twin_address_def worldM_eq bindM_def sample_fields
        sample_twin_def returnM_def assms)
qed

lemma sample_mint_sent:
  "sc_reject (sw_chain w) = 0 \<Longrightarrow>
   RetryProposeMintOrVote sample_chain sample_runtime i ctx h a n w =
     Some (None, w\<lparr>sw_chain := (sw_chain w)\<lparr>sc_votes := (h, a, n) # sc_votes (sw_chain w)\<rparr>\<rparr>)"
  by (simp add: RetryProposeMintOrVote_def retry_def sample_chain_fields extrinsic_accepted)

lemma sample_save:
  "stored s = Some b \<Longrightarrow>
   SaveStellarCursor sample_runtime c s = Some (Ok (), s\<lparr>disk := Some (json_Marshal (b\<lparr>StellarCursor := c\<rparr>))\<rparr>)"
  by (simp add: SaveStellarCursor_def bindM_def sample_GetHeight sample_Save)

lemma sample_mint_run:
  assumes "chain E = sample_chain" "runtime E = sample_runtime"
    and "sc_reject (sw_chain (world s)) = 0" "sc_votes (sw_chain (world s)) = []" and "stored s = Some b"
  shows "\<exists>t. mint E sample_bridge DaemonContext [(''GCAROL'', 45000000)] sample_deposit s = Some (Ok (), t) \<and>
     sc_votes (sw_chain (world t)) = [(''00ff'', ''dave'', 45000000)] \<and> wallet t = wallet s"
proof -
  have dep: "Hash sample_deposit = ''00ff''" "Memo sample_deposit = ''twin_1''" "MemoType sample_deposit = ''text''"
    by (simp_all add: sample_deposit_def)
  have "stored (s\<lparr>world := w\<rparr>) = Some b" for w using assms(5) by (simp add: stored_def)
  note save = sample_save [OF this]
  show ?thesis
    by (simp add: mint_def minted_already_def worldP_def bindM_def sample_chain_fields mint_single_def assms
        dep sample_bridge_def tryM_def sample_memo worldL_def sample_mint_sent save returnM_def)
qed

lemma sample_state_start:
  "sc_reject (sw_chain (world (sample_state fresh_chain))) = 0"
  "sc_votes (sw_chain (world (sample_state fresh_chain))) = []"
  "stored (sample_state c) = Some zero_Blockheight"
  by (simp_all add: sample_state_fields fresh_chain_def stored_def)

lemmas sample_env_mint = sample_mint_run [OF sample_env_fields(1,3) sample_state_start]

text \<open>
  C6: A deposit that is handled without an error is settled, and only then the cursor on file is that
  of its transaction: the transaction is a refund coming back to the bridge, or one of its senders has
  a signature for a refund of his deposit on the chain (or the refund is executed), or exactly the
  deposited sum, above the deposit fee, of its only sender is proposed for minting to the account its
  memo names.
\<close>

theorem mint_settles_deposit:
  assumes "mint E bridge ctx senders tx s = Some (Ok (), t)" and "senders \<noteq> []"
    and "ascii_string (PagingToken tx)"
  shows "stored_cursor t = Some (PagingToken tx) \<and>
    (\<exists>u. deposit_settled E bridge senders tx u \<and>
       SaveStellarCursor (runtime E) (PagingToken tx) u = Some (Ok (), t))"
  using mint_saves_last [OF assms(1,2)] cursor_file.save_stores [OF _ assms(3)] settles_settled
  unfolding saves_last_def by blast

theorem mint_settles_deposit_witness:
  "\<exists>t. mint sample_env sample_bridge DaemonContext [(''GCAROL'', 45000000)] sample_deposit
      (sample_state fresh_chain) = Some (Ok (), t) \<and> stored_cursor t = Some ''1001''"
proof -
  obtain t where t: "mint sample_env sample_bridge DaemonContext [(''GCAROL'', 45000000)] sample_deposit
      (sample_state fresh_chain) = Some (Ok (), t)" using sample_env_mint by blast
  have "ascii_string (PagingToken sample_deposit)" by (simp add: ascii_string_def sample_deposit_def)
  from mint_settles_deposit [OF t _ this] t show ?thesis by (simp add: sample_deposit_def)
qed

text \<open>
  C10: The cursor on file never passes an unsettled deposit: when \<open>mint\<close> has moved it, whatever its outcome,
  an error or a crash included, then this run of it came to a state in which its work was done and the file
  was still as it was at the start, and all it did from there was to save the token of this transaction. The
  work is the refund of a sender, signed or found executed; the proposal of the mint, accepted or found
  minted; or nothing, for a transaction with a return memo.
\<close>

theorem cursor_never_passes_unsettled:
  assumes "mint E bridge ctx senders tx s = Some (r, t)" and "stored_cursor t \<noteq> stored_cursor s"
  shows "\<exists>u. settles E bridge ctx senders tx s u \<and> disk u = disk s \<and>
    SaveStellarCursor (runtime E) (PagingToken tx) u = Some (r, t)"
proof (cases "senders = []")
  case True
  have "keeps disk (mint E bridge ctx [] tx)" unfolding mint_def by (auto intro!: keeps_rules)
  with assms True show ?thesis using keepsD stored_cursor_disk by metis
next
  case False
  from mint_saves_last [OF assms(1) False] assms(2) stored_cursor_disk show ?thesis
    unfolding saves_last_def by blast
qed

theorem cursor_never_passes_unsettled_witness:
  "\<exists>u t. settles sample_env sample_bridge DaemonContext [(''GCAROL'', 45000000)] sample_deposit (sample_state fresh_chain) u \<and>
     SaveStellarCursor sample_runtime ''1001'' u = Some (Ok (), t) \<and> stored_cursor t = Some ''1001''"
proof -
  obtain t where t: "mint sample_env sample_bridge DaemonContext [(''GCAROL'', 45000000)] sample_deposit
      (sample_state fresh_chain) = Some (Ok (), t)" using sample_env_mint by blast
  have token: "PagingToken sample_deposit = ''1001''" "ascii_string ''1001''"
    by (simp_all add: ascii_string_def sample_deposit_def)
  then have cursor: "stored_cursor t = Some ''1001''"
    using mint_saves_last [OF t] cursor_file.save_stores unfolding saves_last_def by fastforce
  moreover have "stored_cursor (sample_state fresh_chain) = Some []"
    by (simp add: stored_cursor_def stored_def sample_state_fields zero_Blockheight_def)
  ultimately have "stored_cursor t \<noteq> stored_cursor (sample_state fresh_chain)" by simp
  from cursor_never_passes_unsettled [OF t this] cursor show ?thesis
    unfolding token sample_env_fields by blast
qed

text \<open>
  A deposit whose transaction the chain already has as minted is refused: neither the chain nor
  Stellar nor the persistency file nor the wallet is touched after the one query.
\<close>

theorem minted_deposit_is_refused:
  assumes "IsMintedAlready (chain E) (Hash tx) (world s) = ((True, err), w)"
    and "\<forall>e. err = Some e \<longrightarrow> errors_Is e ErrMintTransactionNotFound"
  shows "mint E bridge ctx senders tx s = Some (Err ErrTransactionAlreadyMinted, s\<lparr>world := w\<rparr>)"
  using assms by (auto simp: mint_def minted_already_def worldP_def bindM_def failM_def returnM_def
      split: option.splits)

definition minted_chain :: sample_chain_state where
  "minted_chain = fresh_chain\<lparr>sc_votes := [(''00ff'', ''dave'', 45000000)]\<rparr>"

theorem minted_deposit_is_refused_witness:
  "mint sample_env sample_bridge DaemonContext [(''GCAROL'', 45000000)] sample_deposit (sample_state minted_chain) =
     Some (Err ErrTransactionAlreadyMinted, sample_state minted_chain)"
proof -
  let ?s = "sample_state minted_chain"
  have "IsMintedAlready (chain sample_env) (Hash sample_deposit) (world ?s) = ((True, None), world ?s)"
    by (simp add: sample_fields sample_deposit_def minted_chain_def)
  from minted_deposit_is_refused [OF this] show ?thesis by simp
qed

subsection \<open>Minting and refunding exclude each other\<close>

text \<open>
  That a handler never calls an operation of the chain is stated by exchanging that operation for any
  other: the handler's behaviour must not change.
\<close>

definition with_propose ::
    "('id \<Rightarrow> string \<Rightarrow> AccountID \<Rightarrow> int \<Rightarrow> 'w \<Rightarrow> error option \<times> 'w) \<Rightarrow> ('w, 'tx, 'kp, 'id) env \<Rightarrow> ('w, 'tx, 'kp, 'id) env" where
  "with_propose f E = E\<lparr>chain := (chain E)\<lparr>ProposeOrVoteMintTransaction := f\<rparr>\<rparr>"

definition with_create_refund ::
    "('id \<Rightarrow> string \<Rightarrow> string \<Rightarrow> int64 \<Rightarrow> string \<Rightarrow> string \<Rightarrow> uint64 \<Rightarrow> 'w \<Rightarrow> error option \<times> 'w)
      \<Rightarrow> ('w, 'tx, 'kp, 'id) env \<Rightarrow> ('w, 'tx, 'kp, 'id) env" where
  "with_create_refund f E = E\<lparr>chain := (chain E)\<lparr>CreateRefundTransactionOrAddSig := f\<rparr>\<rparr>"

lemma with_propose_fields [simp]:
  "stellar (with_propose f E) = stellar E" "runtime (with_propose f E) = runtime E"
  "IsMintedAlready (chain (with_propose f E)) = IsMintedAlready (chain E)"
  "IsRefundedAlready (chain (with_propose f E)) = IsRefundedAlready (chain E)"
  "CreateRefundTransactionOrAddSig (chain (with_propose f E)) = CreateRefundTransactionOrAddSig (chain E)"
  by (simp_all add: with_propose_def)

lemma with_create_refund_fields [simp]:
  "stellar (with_create_refund g E) = stellar E" "runtime (with_create_refund g E) = runtime E"
  "IsMintedAlready (chain (with_create_refund g E)) = IsMintedAlready (chain E)"
  "FromAddress (chain (with_create_refund g E)) = FromAddress (chain E)"
  "AccountString (chain (with_create_refund g E)) = AccountString (chain E)"
  "GetTwinAccount (chain (with_create_refund g E)) = GetTwinAccount (chain E)"
  "GetFarmTwinID (chain (with_create_refund g E)) = GetFarmTwinID (chain E)"
  "GetNodeTwinID (chain (with_create_refund g E)) = GetNodeTwinID (chain E)"
  "GetEntityAccount (chain (with_create_refund g E)) = GetEntityAccount (chain E)"
  "ProposeOrVoteMintTransaction (chain (with_create_refund g E)) = ProposeOrVoteMintTransaction (chain E)"
  by (simp_all add: with_create_refund_def)

lemma exchanged_operations [simp]:
  "minted_already (chain (with_propose f E)) = minted_already (chain E)"
  "refund (with_propose f E) = refund E"
  "minted_already (chain (with_create_refund g E)) = minted_already (chain E)"
  "getSubstrateAddressFromMemo (with_create_refund g E) = getSubstrateAddressFromMemo E"
  "RetryProposeMintOrVote (chain (with_create_refund g E)) = RetryProposeMintOrVote (chain E)"
proof -
  show "minted_already (chain (with_propose f E)) = minted_already (chain E)"
    by (rule ext) (unfold minted_already_def with_propose_fields, rule refl)
  show "minted_already (chain (with_create_refund g E)) = minted_already (chain E)"
    by (rule ext) (unfold minted_already_def with_create_refund_fields, rule refl)
  have retry: "RetryCreateRefundTransactionOrAddSig (chain (with_propose f E)) = RetryCreateRefundTransactionOrAddSig (chain E)"
    by (intro ext) (simp add: RetryCreateRefundTransactionOrAddSig_def)
  have "handleRefundExpired (with_propose f E) = handleRefundExpired E"
    by (intro ext) (unfold handleRefundExpired_def with_propose_fields retry, rule refl)
  then show "refund (with_propose f E) = refund E"
    by (intro ext) (simp add: refund_def)
  have twin: "twin_address (with_create_refund g E) = twin_address E"
    by (rule ext) (unfold twin_address_def with_create_refund_fields, rule refl)
  show "getSubstrateAddressFromMemo (with_create_refund g E) = getSubstrateAddressFromMemo E"
    by (intro ext) (unfold getSubstrateAddressFromMemo_def with_create_refund_fields twin, rule refl)
  have "mint_check (chain (with_create_refund g E)) = mint_check (chain E)"
    by (intro ext) (simp add: mint_check_def)
  then show "RetryProposeMintOrVote (chain (with_create_refund g E)) = RetryProposeMintOrVote (chain E)"
    by (intro ext) (simp add: RetryProposeMintOrVote_def)
qed

text \<open>
  C30: Nothing is minted for a deposit with several senders, without a memo, with a return memo, or
  whose amount does not exceed the deposit fee: the proposal to mint is never even called.
\<close>

theorem unmintable_deposit_is_not_proposed:
  assumes "\<not> (\<exists>n. mint_allowed bridge senders tx n)"
  shows "mint (with_propose f E) bridge ctx senders tx = mint E bridge ctx senders tx"
proof (cases "\<exists>a n. senders = [(a, n)]")
  case True
  then obtain a n where senders: "senders = [(a, n)]" by blast
  with assms have "Memo tx = [] \<or> MemoType tx = ''return'' \<or> n \<le> sint (br_depositFee bridge)"
    unfolding mint_allowed_def by (metis not_le)
  then have "mint_single (with_propose f E) bridge ctx a n tx = mint_single E bridge ctx a n tx"
    by (auto simp: mint_single_def)
  then show ?thesis by (simp add: mint_def senders cong: if_cong)
next
  case False
  then consider "senders = []" | p q rest where "senders = p # q # rest"
    by (metis list.exhaust prod.exhaust)
  then show ?thesis by cases (simp_all add: mint_def cong: if_cong)
qed

definition poor_deposit :: senders where
  "poor_deposit = [(''GCAROL'', 10000000)]"

theorem unmintable_deposit_is_not_proposed_witness:
  "mint (with_propose (\<lambda>_ _ _ _ w. (None, w)) sample_env) sample_bridge DaemonContext poor_deposit sample_deposit =
     mint sample_env sample_bridge DaemonContext poor_deposit sample_deposit"
proof -
  have "\<not> (\<exists>n. mint_allowed sample_bridge poor_deposit sample_deposit n)"
    by (simp add: mint_allowed_def poor_deposit_def sample_bridge_def)
  then show ?thesis by (rule unmintable_deposit_is_not_proposed)
qed

text \<open>
  C31: A deposit that can be minted (one sender, above the fee, a memo that names an existing account)
  is never refunded as well: no refund is created on the chain, and the wallet signs nothing, not
  even its sequence number moves.
\<close>

theorem mintable_deposit_is_not_refunded:
  fixes E :: "('w, 'tx, 'kp, 'id) env"
  assumes "mint_allowed bridge senders tx n"
    and "\<forall>u. wallet u = wallet s \<longrightarrow> (\<exists>address v. getSubstrateAddressFromMemo E (Memo tx) u = Some (Ok address, v))"
  shows "mint (with_create_refund f E) bridge ctx senders tx s = mint E bridge ctx senders tx s \<and>
    (\<forall>r t. mint E bridge ctx senders tx s = Some (r, t) \<longrightarrow> wallet t = wallet s)"
proof -
  from assms(1) obtain a where senders: "senders = [(a, n)]" and memo: "Memo tx \<noteq> []" "MemoType tx \<noteq> ''return''"
    and fee: "\<not> n \<le> sint (br_depositFee bridge)" unfolding mint_allowed_def by auto
  define vote where "vote address = bindM (liftE (FromAddress (chain E) address)) (\<lambda>accountID.
      bindM (worldL (RetryProposeMintOrVote (chain E) (runtime E) (br_identity bridge) ctx (Hash tx) accountID n))
        (\<lambda>_. SaveStellarCursor (runtime E) (PagingToken tx) :: ('w, 'kp, unit) daemon))" for address
  have single: "mint_single E bridge ctx a n tx u = vote address v \<and>
      mint_single (with_create_refund f E) bridge ctx a n tx u = vote address v"
    if "getSubstrateAddressFromMemo E (Memo tx) u = Some (Ok address, v)" for u address v
    using that memo fee by (simp add: mint_single_def vote_def tryM_def)
  have votes: "keeps wallet (vote address)" for address
    unfolding vote_def by (intro keeps_rules)
  obtain q u where m: "minted_already (chain E) (Hash tx) s = Some (q, u)"
    using minted_already_rules(3) by (rule returnsE)
  have u: "wallet u = wallet s" using keepsD [OF minted_already_rules(1) m] .
  then obtain address v where g: "getSubstrateAddressFromMemo E (Memo tx) u = Some (Ok address, v)"
    using assms(2) by blast
  have "wallet v = wallet s" using keepsD [OF memo_rules(1) g] u by simp
  with single [OF g] m u keepsD [OF votes] show ?thesis
    by (cases q) (auto simp: mint_def senders bindM_def failM_def)
qed

theorem mintable_deposit_is_not_refunded_witness:
  "mint (with_create_refund (\<lambda>_ _ _ _ _ _ _ w. (None, w)) sample_env) sample_bridge DaemonContext
       [(''GCAROL'', 45000000)] sample_deposit (sample_state fresh_chain) =
     mint sample_env sample_bridge DaemonContext [(''GCAROL'', 45000000)] sample_deposit (sample_state fresh_chain)"
proof -
  have "mint_allowed sample_bridge [(''GCAROL'', 45000000)] sample_deposit 45000000"
    by (simp add: mint_allowed_def sample_bridge_def sample_deposit_def)
  moreover have "Memo sample_deposit = ''twin_1''" by (simp add: sample_deposit_def)
  ultimately show ?thesis
    using mintable_deposit_is_not_refunded [where E = sample_env and s = "sample_state fresh_chain"
        and bridge = sample_bridge and senders = "[(''GCAROL'', 45000000)]" and tx = sample_deposit]
      sample_memo [OF sample_env_fields(1)] by metis
qed

subsection \<open>Memos\<close>

definition memo_kinds :: "string list" where
  "memo_kinds = [''twin'', ''farm'', ''node'', ''entity'']"

lemma memo_chunks: "CHR ''_'' \<notin> set kind \<Longrightarrow> CHR ''_'' \<notin> set num \<Longrightarrow> split_on (CHR ''_'') (kind @ CHR ''_'' # num) = [kind, num]"
  by (simp add: split_on_two_iff)

lemma underscore_show_nat: "CHR ''_'' \<notin> set (show_nat n)"
  using show_nat_digits [of n] by (auto simp: list_all_iff is_digit_iff)

lemma memo_of_id:
  assumes "n < 2 ^ 63" and "CHR ''_'' \<notin> set kind"
  shows "getSubstrateAddressFromMemo E (kind @ CHR ''_'' # show_nat n) =
    (if kind = ''twin'' then twin_address E (of_nat n)
     else if kind = ''farm'' then bindM (worldM (GetFarmTwinID (chain E) (of_nat n))) (twin_address E)
     else if kind = ''node'' then bindM (worldM (GetNodeTwinID (chain E) (of_nat n))) (twin_address E)
     else if kind = ''entity'' then
       bindM (worldM (GetEntityAccount (chain E) (of_nat n))) (\<lambda>a. returnM (AccountString (chain E) a))
     else failM (ErrorString ''grid type not supported''))"
  unfolding getSubstrateAddressFromMemo_def memo_chunks [OF assms(2) underscore_show_nat]
  by (simp add: Atoi_show_nat [OF assms(1)])

text \<open>The form of a memo that names a receiver.\<close>

definition grid_memo :: "string \<Rightarrow> bool" where
  "grid_memo memo \<longleftrightarrow>
     (\<exists>kind num i. memo = kind @ CHR ''_'' # num \<and> kind \<in> set memo_kinds \<and> CHR ''_'' \<notin> set num \<and>
        Atoi num = Inr i \<and> - (2 ^ 63) \<le> i \<and> i < 2 ^ 63)"

lemma ill_formed_memo:
  assumes "\<not> grid_memo memo"
  shows "\<exists>e. getSubstrateAddressFromMemo E memo s = Some (Err e, s)"
proof (cases "\<exists>kind num. split_on (CHR ''_'') memo = [kind, num]")
  case False
  then show ?thesis
    by (auto simp: getSubstrateAddressFromMemo_def failM_def split: list.splits)
next
  case True
  then obtain kind num where sp: "split_on (CHR ''_'') memo = [kind, num]" by blast
  show ?thesis
  proof (cases "Atoi num")
    case (Inl e)
    with sp show ?thesis by (simp add: getSubstrateAddressFromMemo_def failM_def)
  next
    case (Inr i)
    with sp Atoi_bounds [OF Inr] assms have "kind \<notin> set memo_kinds"
      unfolding grid_memo_def by (auto simp: split_on_two_iff)
    with sp Inr show ?thesis by (simp add: getSubstrateAddressFromMemo_def memo_kinds_def failM_def)
  qed
qed



text \<open>
  C38: The id of a memo is taken modulo \<open>2^32\<close>: two decimal ids that agree modulo \<open>2^32\<close> name the same
  twin, farm, node or entity, so a too large id is not rejected but credited to somebody else.
\<close>

theorem memo_ids_wrap:
  assumes "n < 2 ^ 63" and "m < 2 ^ 63" and "n mod 2 ^ 32 = m mod 2 ^ 32" and "kind \<in> set memo_kinds"
  shows "getSubstrateAddressFromMemo E (kind @ CHR ''_'' # show_nat n) =
    getSubstrateAddressFromMemo E (kind @ CHR ''_'' # show_nat m)"
proof -
  have eq: "(of_nat n :: uint32) = of_nat m"
    using assms(3) by (simp add: word_of_nat_eq_iff take_bit_eq_mod)
  have kind: "CHR ''_'' \<notin> set kind" using assms(4) by (auto simp: memo_kinds_def)
  show ?thesis unfolding memo_of_id [OF assms(1) kind] memo_of_id [OF assms(2) kind] eq by (rule refl)
qed

theorem memo_ids_wrap_witness:
  "getSubstrateAddressFromMemo sample_env (''twin'' @ CHR ''_'' # show_nat 4294967297) =
   getSubstrateAddressFromMemo sample_env (''twin'' @ CHR ''_'' # show_nat 1)"
  by (rule memo_ids_wrap) (simp_all add: memo_kinds_def)

end
