(* ===== verification/BridgeWithdraw.thy ===== *)
theory BridgeWithdraw
  imports BridgeMint
begin

text \<open>
  \<open>pkg/bridge/withdraw.go\<close>: a withdrawal from the chain to Stellar. The target's trustline decides
  between signing the payment and giving the tokens back to the source on the chain; a withdrawal
  with enough signatures is paid and then marked as executed.
\<close>

section \<open>The handlers\<close>

text \<open>\<open>fmt.Sprintf("refund-%d", withdraw.ID)\<close>\<close>

definition refund_mint_id :: "uint64 \<Rightarrow> string" where
  "refund_mint_id i = ''refund-'' @ show_nat (unat i)"

definition handleBadWithdraw ::
    "('w, 'tx, 'kp, 'id) env \<Rightarrow> 'id Bridge \<Rightarrow> go_context \<Rightarrow> WithdrawCreatedEvent \<Rightarrow> ('w, 'kp, unit) daemon" where
  "handleBadWithdraw E bridge ctx withdraw =
     bindM (minted_already (chain E) (refund_mint_id (wc_ID withdraw))) (\<lambda>minted.
       if minted then failM ErrTransactionAlreadyMinted
       else
         bindM (worldL (RetryProposeMintOrVote (chain E) (runtime E) (br_identity bridge) ctx
                  (refund_mint_id (wc_ID withdraw)) (wc_Source withdraw) (sint (wc_Amount withdraw)))) (\<lambda>_.
           worldL (RetrySetWithdrawExecuted (chain E) (runtime E) (br_identity bridge) ctx (wc_ID withdraw))))"

text \<open>Signing the payment of a withdrawal, as the created and the expired event do it.\<close>

definition sign_withdraw ::
    "('w, 'tx, 'kp, 'id) env \<Rightarrow> 'id Bridge \<Rightarrow> go_context \<Rightarrow> uint64 \<Rightarrow> string \<Rightarrow> uint64 \<Rightarrow> ('w, 'kp, unit) daemon" where
  "sign_withdraw E bridge ctx i target amount =
     bindM (CreatePaymentAndReturnSignature (stellar E) target amount i) (\<lambda>(signature, sequenceNumber).
     bindM (wallet_address (stellar E)) (\<lambda>address.
       worldL (RetryProposeWithdrawOrAddSig (chain E) (runtime E) (br_identity bridge) ctx i target
         (sint amount) signature address sequenceNumber)))"

definition handleWithdrawCreated ::
    "('w, 'tx, 'kp, 'id) env \<Rightarrow> 'id Bridge \<Rightarrow> go_context \<Rightarrow> WithdrawCreatedEvent \<Rightarrow> ('w, 'kp, unit) daemon" where
  "handleWithdrawCreated E bridge ctx withdraw =
     bindM (worldM (IsBurnedAlready (chain E) (wc_ID withdraw))) (\<lambda>burned.
       if burned then failM ErrTransactionAlreadyBurned
       else
         tryM (CheckAccount (stellar E) (wc_Target withdraw)) (\<lambda>r.
           case r of
             Inl _ \<Rightarrow> handleBadWithdraw E bridge ctx withdraw
           | Inr _ \<Rightarrow> sign_withdraw E bridge ctx (wc_ID withdraw) (wc_Target withdraw) (wc_Amount withdraw)))"

definition handleWithdrawExpired ::
    "('w, 'tx, 'kp, 'id) env \<Rightarrow> 'id Bridge \<Rightarrow> go_context \<Rightarrow> WithdrawExpiredEvent \<Rightarrow> ('w, 'kp, unit) daemon" where
  "handleWithdrawExpired E bridge ctx withdrawExpired =
     tryM (CheckAccount (stellar E) (we_Target withdrawExpired)) (\<lambda>r.
       case r of
         Inl _ \<Rightarrow> worldL (RetrySetWithdrawExecuted (chain E) (runtime E) (br_identity bridge) ctx (we_ID withdrawExpired))
       | Inr _ \<Rightarrow> sign_withdraw E bridge ctx (we_ID withdrawExpired) (we_Target withdrawExpired) (we_Amount withdrawExpired))"

definition handleWithdrawReady ::
    "('w, 'tx, 'kp, 'id) env \<Rightarrow> 'id Bridge \<Rightarrow> go_context \<Rightarrow> WithdrawReadyEvent \<Rightarrow> ('w, 'kp, unit) daemon" where
  "handleWithdrawReady E bridge ctx withdrawReady =
     bindM (worldM (IsBurnedAlready (chain E) (wr_ID withdrawReady))) (\<lambda>burned.
       if burned then failM ErrTransactionAlreadyBurned
       else
         bindM (worldM (GetBurnTransaction (chain E) (wr_ID withdrawReady))) (\<lambda>burnTx.
           if burn_Signatures burnTx = [] then failM ErrNoSignatures
           else
             bindM (CreatePaymentWithSignaturesAndSubmit (stellar E) (burn_Target burnTx) (burn_Amount burnTx) []
                      (burn_Signatures burnTx) (burn_SequenceNumber burnTx)) (\<lambda>_.
               worldL (RetrySetWithdrawExecuted (chain E) (runtime E) (br_identity bridge) ctx
                 (wr_ID withdrawReady)))))"

section \<open>Rules\<close>

lemma withdraw_parts_keep:
  "keeps disk (handleBadWithdraw E bridge ctx w)" "keeps wallet (handleBadWithdraw E bridge ctx w)"
  "keeps disk (sign_withdraw E bridge ctx i target amount)"
  "keeps wallet_identity (sign_withdraw E bridge ctx i target amount)"
  unfolding handleBadWithdraw_def sign_withdraw_def wallet_address_def
  by (intro keeps_rules keeps_wallet_identity)+

lemmas [keeps_rules] = withdraw_parts_keep

lemma withdraw_handlers_keep:
  "keeps disk (handleWithdrawCreated E bridge ctx w)" "keeps wallet_identity (handleWithdrawCreated E bridge ctx w)"
  "keeps disk (handleWithdrawExpired E bridge ctx x)" "keeps wallet_identity (handleWithdrawExpired E bridge ctx x)"
  "keeps disk (handleWithdrawReady E bridge ctx y)" "keeps wallet_identity (handleWithdrawReady E bridge ctx y)"
  unfolding handleWithdrawCreated_def handleWithdrawExpired_def handleWithdrawReady_def
  by (intro keeps_rules keeps_wallet_identity)+

lemmas [keeps_rules] = withdraw_handlers_keep

section \<open>What the parts achieve\<close>

text \<open>A withdrawal's payment was signed by this daemon and the signature is on the chain.\<close>

definition signed_withdraw_of ::
    "('w, 'tx, 'kp, 'id) env \<Rightarrow> 'id Bridge \<Rightarrow> uint64 \<Rightarrow> string \<Rightarrow> uint64 \<Rightarrow> ('w, 'kp) state \<Rightarrow> 'w \<Rightarrow> bool" where
  "signed_withdraw_of E bridge i target amount s w \<longleftrightarrow>
     (\<exists>p tx stx. p = payment_of (stellar E) (wal_config (wallet s)) (StellarBridgeAccount (wal_config (wallet s)))
          amount target (wal_sequenceNumber (wallet s) + 1) \<and>
        NewTransaction (stellar E) p = Inr tx \<and>
        SignTx (stellar E) (getNetworkPassPhrase (stellar E) (wal_config (wallet s))) (wal_keypair (wallet s)) tx = Inr stx \<and>
        withdraw_settled (chain E) (br_identity bridge) i target (sint amount)
          (base64_EncodeToString (TxSignatures (stellar E) stx ! 0))
          (Address (stellar E) (wal_keypair (wallet s))) (wal_sequenceNumber (wallet s) + 1) w)"

lemma sign_withdraw_Ok:
  assumes laws: "txnbuild_laws (stellar E)" "horizon_names_accounts (stellar E)"
    and "sign_withdraw E bridge ctx i target amount s = Some (Ok (), t)"
  shows "signed_withdraw_of E bridge i target amount s (world t)"
proof -
  let ?S = "stellar E"
  from assms(3) obtain signature seqno v w' where
    c: "CreatePaymentAndReturnSignature ?S target amount i s = Some (Ok (signature, seqno), v)"
    and r: "RetryProposeWithdrawOrAddSig (chain E) (runtime E) (br_identity bridge) ctx i target (sint amount)
        signature (Address ?S (wal_keypair (wallet v))) seqno (world v) = Some (None, w')"
    and t: "t = v\<lparr>world := w'\<rparr>"
    by (auto simp: sign_withdraw_def bindM_Ok_iff wallet_address_def worldL_Some_iff)
  have "wal_keypair (wallet v) = wal_keypair (wallet s)"
    using keepsD [OF payments_rules(1) c] by (simp add: wallet_identity_def)
  with r have "withdraw_settled (chain E) (br_identity bridge) i target (sint amount) signature
      (Address ?S (wal_keypair (wallet s))) seqno (world t)"
    unfolding RetryProposeWithdrawOrAddSig_def t by (simp add: withdraw_call.nil_settled)
  then show ?thesis unfolding signed_withdraw_of_def
    by (rule_tac signed_payment [OF laws c]) blast
qed

text \<open>
  The same along the run: the signature that the retry loop sends from the world \<open>w\<close> is accepted by the
  chain, or the chain never accepts it and a check of the loop finds the withdrawal burned.
\<close>

definition withdraw_signature_accepted ::
    "('w, 'tx, 'kp, 'id) env \<Rightarrow> 'id Bridge \<Rightarrow> go_context \<Rightarrow> uint64 \<Rightarrow> string \<Rightarrow> uint64 \<Rightarrow> string \<Rightarrow> string \<Rightarrow> uint64
      \<Rightarrow> 'w \<Rightarrow> 'w \<Rightarrow> bool" where
  "withdraw_signature_accepted E bridge ctx i target amount signature address seqno w w' \<longleftrightarrow>
     accepted_from (wait_round (runtime E) ctx) (\<lambda>_. IsBurnedAlready (chain E) i)
       (ProposeBurnTransactionOrAddSig (chain E) (br_identity bridge) i target (sint amount) signature address seqno) w w'"

definition withdraw_found_burned ::
    "('w, 'tx, 'kp, 'id) env \<Rightarrow> 'id Bridge \<Rightarrow> go_context \<Rightarrow> uint64 \<Rightarrow> string \<Rightarrow> uint64 \<Rightarrow> string \<Rightarrow> string \<Rightarrow> uint64
      \<Rightarrow> 'w \<Rightarrow> 'w \<Rightarrow> bool" where
  "withdraw_found_burned E bridge ctx i target amount signature address seqno w w' \<longleftrightarrow>
     found_from (wait_round (runtime E) ctx) (\<lambda>_. IsBurnedAlready (chain E) i)
       (ProposeBurnTransactionOrAddSig (chain E) (br_identity bridge) i target (sint amount) signature address seqno) w w'"

definition signs_withdraw ::
    "('w, 'tx, 'kp, 'id) env \<Rightarrow> 'id Bridge \<Rightarrow> go_context \<Rightarrow> uint64 \<Rightarrow> string \<Rightarrow> uint64
      \<Rightarrow> ('w, 'kp) state \<Rightarrow> ('w, 'kp) state \<Rightarrow> bool" where
  "signs_withdraw E bridge ctx i target amount u t \<longleftrightarrow>
     (\<exists>tx stx signature seqno v.
        CreatePaymentAndReturnSignature (stellar E) target amount i u = Some (Ok (signature, seqno), v) \<and>
        NewTransaction (stellar E) (payment_of (stellar E) (wal_config (wallet u))
          (StellarBridgeAccount (wal_config (wallet u))) amount target seqno) = Inr tx \<and>
        SignTx (stellar E) (getNetworkPassPhrase (stellar E) (wal_config (wallet u))) (wal_keypair (wallet u)) tx = Inr stx \<and>
        signature = base64_EncodeToString (TxSignatures (stellar E) stx ! 0) \<and>
        seqno = wal_sequenceNumber (wallet u) + 1 \<and> wal_sequenceNumber (wallet t) = seqno \<and>
        (withdraw_signature_accepted E bridge ctx i target amount signature (Address (stellar E) (wal_keypair (wallet u)))
           seqno (world v) (world t) \<or>
         withdraw_found_burned E bridge ctx i target amount signature (Address (stellar E) (wal_keypair (wallet u)))
           seqno (world v) (world t)))"

lemma sign_withdraw_signs:
  assumes laws: "txnbuild_laws (stellar E)" "horizon_names_accounts (stellar E)"
    and "sign_withdraw E bridge ctx i target amount u = Some (Ok (), t)"
  shows "signs_withdraw E bridge ctx i target amount u t"
proof -
  let ?S = "stellar E"
  from assms(3) obtain signature seqno v w' where
    c: "CreatePaymentAndReturnSignature ?S target amount i u = Some (Ok (signature, seqno), v)"
    and r: "RetryProposeWithdrawOrAddSig (chain E) (runtime E) (br_identity bridge) ctx i target (sint amount)
        signature (Address ?S (wal_keypair (wallet v))) seqno (world v) = Some (None, w')"
    and t: "t = v\<lparr>world := w'\<rparr>"
    by (auto simp: sign_withdraw_def bindM_Ok_iff wallet_address_def worldL_Some_iff)
  have "wal_keypair (wallet v) = wal_keypair (wallet u)"
    using keepsD [OF payments_rules(1) c] by (simp add: wallet_identity_def)
  with retry_good_end [OF r [unfolded RetryProposeWithdrawOrAddSig_def]] t have sent:
    "withdraw_signature_accepted E bridge ctx i target amount signature (Address ?S (wal_keypair (wallet u))) seqno (world v) (world t) \<or>
     withdraw_found_burned E bridge ctx i target amount signature (Address ?S (wal_keypair (wallet u))) seqno (world v) (world t)"
    by (simp add: withdraw_signature_accepted_def withdraw_found_burned_def)
  have "wallet t = wallet v" using t by simp
  moreover obtain tx stx where "NewTransaction ?S (payment_of ?S (wal_config (wallet u))
        (StellarBridgeAccount (wal_config (wallet u))) amount target seqno) = Inr tx"
      "SignTx ?S (getNetworkPassPhrase ?S (wal_config (wallet u))) (wal_keypair (wallet u)) tx = Inr stx"
      "signature = base64_EncodeToString (TxSignatures ?S stx ! 0)"
      "seqno = wal_sequenceNumber (wallet u) + 1" "wal_sequenceNumber (wallet v) = seqno"
    by (rule signed_payment [OF laws c]) (rule that)
  ultimately show ?thesis using c sent unfolding signs_withdraw_def
    by - (rule exI [of _ tx], rule exI [of _ stx], rule exI [of _ signature], rule exI [of _ seqno], rule exI [of _ v], simp)
qed

text \<open>A withdrawal that cannot be paid: it is minted again for its source, and then set executed, in this order.\<close>

definition remints ::
    "('w, 'tx, 'kp, 'id) env \<Rightarrow> 'id Bridge \<Rightarrow> go_context \<Rightarrow> WithdrawCreatedEvent
      \<Rightarrow> ('w, 'kp) state \<Rightarrow> ('w, 'kp) state \<Rightarrow> bool" where
  "remints E bridge ctx withdraw u t \<longleftrightarrow>
     (\<exists>v w. minted_already (chain E) (refund_mint_id (wc_ID withdraw)) u = Some (Ok False, v) \<and>
        RetryProposeMintOrVote (chain E) (runtime E) (br_identity bridge) ctx (refund_mint_id (wc_ID withdraw))
          (wc_Source withdraw) (sint (wc_Amount withdraw)) (world v) = Some (None, w) \<and>
        mint_settled (chain E) (br_identity bridge) (refund_mint_id (wc_ID withdraw)) (wc_Source withdraw)
          (sint (wc_Amount withdraw)) w \<and>
        RetrySetWithdrawExecuted (chain E) (runtime E) (br_identity bridge) ctx (wc_ID withdraw) w = Some (None, world t) \<and>
        burn_settled (chain E) (br_identity bridge) (wc_ID withdraw) (world t))"

lemma handleBadWithdraw_remints:
  assumes "handleBadWithdraw E bridge ctx withdraw u = Some (Ok (), t)"
  shows "remints E bridge ctx withdraw u t"
proof -
  from assms obtain v w where "minted_already (chain E) (refund_mint_id (wc_ID withdraw)) u = Some (Ok False, v)"
    and "RetryProposeMintOrVote (chain E) (runtime E) (br_identity bridge) ctx
        (refund_mint_id (wc_ID withdraw)) (wc_Source withdraw) (sint (wc_Amount withdraw)) (world v) = Some (None, w)"
    and "RetrySetWithdrawExecuted (chain E) (runtime E) (br_identity bridge) ctx (wc_ID withdraw) w = Some (None, world t)"
    unfolding handleBadWithdraw_def
    by (auto simp: bindM_Ok_iff worldL_Some_iff split: if_splits)
  then show ?thesis
    unfolding remints_def RetryProposeMintOrVote_def RetrySetWithdrawExecuted_def
    using mint_call.nil_settled burned_call.nil_settled by metis
qed

section \<open>Properties\<close>

text \<open>Which trustline check a withdrawal saw: one request to Horizon, and the wallet unchanged.\<close>

definition checked :: "('w, 'tx, 'kp, 'id) env \<Rightarrow> string \<Rightarrow> ('w, 'kp) state \<Rightarrow> bool \<Rightarrow> ('w, 'kp) state \<Rightarrow> bool" where
  "checked E target u good v \<longleftrightarrow> wallet v = wallet u \<and> disk v = disk u \<and>
     (if good then CheckAccount (stellar E) target u = Some (Ok (), v)
      else \<exists>e. CheckAccount (stellar E) target u = Some (Err e, v))"

lemma tryM_CheckAccount:
  assumes "tryM (CheckAccount (stellar E) target) k u = Some (r, t)"
  obtains (good) v where "checked E target u True v" "k (Inr ()) v = Some (r, t)"
    | (bad) e v where "checked E target u False v" "k (Inl e) v = Some (r, t)"
proof -
  obtain q v where c: "CheckAccount (stellar E) target u = Some (q, v)"
    using CheckAccount_rules(3) by (rule returnsE)
  have "wallet v = wallet u" "disk v = disk u" "q \<noteq> Crash"
    using keepsD [OF CheckAccount_rules(1) c] keepsD [OF CheckAccount_rules(2) c]
      crash_freeD [OF CheckAccount_rules(4)] c by auto
  with assms c show thesis
    by (cases q) (auto simp: tryM_def checked_def intro: that)
qed

text \<open>
  C12: A new withdrawal that is handled without an error was not burned yet when the handler began, and then one
  of two things was done. Either its target has a trustline, the wallet signed the payment of the whole
  amount to the target under its next sequence number, and the chain accepted this signature, or refused
  it until a check of the retry loop found the withdrawal burned. Or the check of the trustline failed, the
  wallet signed nothing, and the whole amount was proposed for minting back to the source, under an id that
  the chain had not minted, until the chain accepted the proposal or had minted it; only after that, from the
  world in which that ended, the withdrawal was reported as executed, until the chain accepted it or had it
  burned.
\<close>

theorem withdraw_created_signs_or_remints:
  assumes "txnbuild_laws (stellar E)" "horizon_names_accounts (stellar E)"
    and "handleWithdrawCreated E bridge ctx withdraw s = Some (Ok (), t)"
  shows "\<exists>w u. IsBurnedAlready (chain E) (wc_ID withdraw) (world s) = (Inr False, w) \<and>
    (checked E (wc_Target withdraw) (s\<lparr>world := w\<rparr>) True u \<and>
       signs_withdraw E bridge ctx (wc_ID withdraw) (wc_Target withdraw) (wc_Amount withdraw) u t \<or>
     checked E (wc_Target withdraw) (s\<lparr>world := w\<rparr>) False u \<and>
       remints E bridge ctx withdraw u t \<and> wallet t = wallet s)"
proof -
  from assms(3) obtain w where q: "IsBurnedAlready (chain E) (wc_ID withdraw) (world s) = (Inr False, w)"
    and c: "tryM (CheckAccount (stellar E) (wc_Target withdraw)) (\<lambda>r.
           case r of
             Inl _ \<Rightarrow> handleBadWithdraw E bridge ctx withdraw
           | Inr _ \<Rightarrow> sign_withdraw E bridge ctx (wc_ID withdraw) (wc_Target withdraw) (wc_Amount withdraw))
         (s\<lparr>world := w\<rparr>) = Some (Ok (), t)"
    by (auto simp: handleWithdrawCreated_def bindM_Ok_iff worldM_Ok_iff split: if_splits)
  from c show ?thesis
  proof (cases rule: tryM_CheckAccount)
    case (good v)
    then have "sign_withdraw E bridge ctx (wc_ID withdraw) (wc_Target withdraw) (wc_Amount withdraw) v = Some (Ok (), t)"
      by simp
    from sign_withdraw_signs [OF assms(1,2) this] q good(1) show ?thesis by blast
  next
    case (bad e v)
    then have h: "handleBadWithdraw E bridge ctx withdraw v = Some (Ok (), t)" by simp
    have "wallet t = wallet s" using keepsD [OF withdraw_parts_keep(2) h] bad(1) by (simp add: checked_def)
    with q bad(1) handleBadWithdraw_remints [OF h] show ?thesis by blast
  qed
qed

text \<open>
  C32: An expired withdrawal is signed again when its target still has a trustline; otherwise it is only
  set executed, and nothing is signed.
\<close>

theorem withdraw_expired_signs_or_executes:
  assumes "txnbuild_laws (stellar E)" "horizon_names_accounts (stellar E)"
    and "handleWithdrawExpired E bridge ctx ev s = Some (Ok (), t)"
  shows "\<exists>u good. checked E (we_Target ev) s good u \<and>
    (if good then signed_withdraw_of E bridge (we_ID ev) (we_Target ev) (we_Amount ev) s (world t)
     else burn_settled (chain E) (br_identity bridge) (we_ID ev) (world t) \<and> wallet t = wallet s)"
  using assms(3) [unfolded handleWithdrawExpired_def]
proof (cases rule: tryM_CheckAccount)
  case (good v)
  then have "sign_withdraw E bridge ctx (we_ID ev) (we_Target ev) (we_Amount ev) v = Some (Ok (), t)" by simp
  from sign_withdraw_Ok [OF assms(1,2) this] good(1)
  have "signed_withdraw_of E bridge (we_ID ev) (we_Target ev) (we_Amount ev) s (world t)"
    by (simp add: signed_withdraw_of_def checked_def)
  with good(1) show ?thesis by (intro exI [of _ v] exI [of _ True]) simp
next
  case (bad e v)
  then have "worldL (RetrySetWithdrawExecuted (chain E) (runtime E) (br_identity bridge) ctx (we_ID ev)) v = Some (Ok (), t)"
    by simp
  then have "burn_settled (chain E) (br_identity bridge) (we_ID ev) (world t)" "wallet t = wallet v"
    by (auto simp: worldL_Some_iff RetrySetWithdrawExecuted_def dest: burned_call.nil_settled)
  with bad(1) show ?thesis by (intro exI [of _ v] exI [of _ False]) (simp add: checked_def)
qed

text \<open>
  C13: A withdrawal that is burned already is refused before anything is built or sent, and so is one without
  signatures. A handler that succeeds asked the chain, read the record, submitted one payment, with the
  signatures, target, amount and sequence number of the record, and from the world in which that
  submission left it only ran the retry loop of its report: no second payment is built or sent. The report
  was accepted, or the chain answered that the withdrawal is burned.
\<close>

theorem withdraw_ready_pays_record:
  "(\<forall>w. IsBurnedAlready (chain E) (wr_ID ev) (world s) = (Inr True, w) \<longrightarrow>
      handleWithdrawReady E bridge ctx ev s = Some (Err ErrTransactionAlreadyBurned, s\<lparr>world := w\<rparr>)) \<and>
   (\<forall>w w' tx. IsBurnedAlready (chain E) (wr_ID ev) (world s) = (Inr False, w) \<longrightarrow>
      GetBurnTransaction (chain E) (wr_ID ev) w = (Inr tx, w') \<longrightarrow> burn_Signatures tx = [] \<longrightarrow>
      handleWithdrawReady E bridge ctx ev s = Some (Err ErrNoSignatures, s\<lparr>world := w'\<rparr>)) \<and>
   (handleWithdrawReady E bridge ctx ev s = Some (Ok (), t) \<longrightarrow>
      (\<exists>w1 tx w2 w3.
         IsBurnedAlready (chain E) (wr_ID ev) (world s) = (Inr False, w1) \<and>
         GetBurnTransaction (chain E) (wr_ID ev) w1 = (Inr tx, w2) \<and> burn_Signatures tx \<noteq> [] \<and>
         submitted_payment (stellar E) Inr (wallet s) (burn_Target tx) (burn_Amount tx) (burn_Signatures tx)
           (next_sequence (wal_sequenceNumber (wallet s)) (burn_SequenceNumber tx)) w2 w3 \<and>
         RetrySetWithdrawExecuted (chain E) (runtime E) (br_identity bridge) ctx (wr_ID ev) w3 = Some (None, world t) \<and>
         burn_settled (chain E) (br_identity bridge) (wr_ID ev) (world t)))"
proof (intro conjI allI impI)
  fix w
  assume "IsBurnedAlready (chain E) (wr_ID ev) (world s) = (Inr True, w)"
  then show "handleWithdrawReady E bridge ctx ev s = Some (Err ErrTransactionAlreadyBurned, s\<lparr>world := w\<rparr>)"
    by (simp add: handleWithdrawReady_def worldM_eq bindM_def failM_def)
next
  fix w w' tx
  assume "IsBurnedAlready (chain E) (wr_ID ev) (world s) = (Inr False, w)"
    and "GetBurnTransaction (chain E) (wr_ID ev) w = (Inr tx, w')" and "burn_Signatures tx = []"
  then show "handleWithdrawReady E bridge ctx ev s = Some (Err ErrNoSignatures, s\<lparr>world := w'\<rparr>)"
    by (simp add: handleWithdrawReady_def worldM_eq bindM_def failM_def)
next
  assume "handleWithdrawReady E bridge ctx ev s = Some (Ok (), t)"
  then obtain w1 tx w2 v where q: "IsBurnedAlready (chain E) (wr_ID ev) (world s) = (Inr False, w1)"
    and g: "GetBurnTransaction (chain E) (wr_ID ev) w1 = (Inr tx, w2)" "burn_Signatures tx \<noteq> []"
    and p: "CreatePaymentWithSignaturesAndSubmit (stellar E) (burn_Target tx) (burn_Amount tx) []
        (burn_Signatures tx) (burn_SequenceNumber tx) (s\<lparr>world := w2\<rparr>) = Some (Ok (), v)"
    and r: "worldL (RetrySetWithdrawExecuted (chain E) (runtime E) (br_identity bridge) ctx (wr_ID ev)) v = Some (Ok (), t)"
    by (auto simp: handleWithdrawReady_def bindM_Ok_iff worldM_Ok_iff split: if_splits)
  from r have report: "RetrySetWithdrawExecuted (chain E) (runtime E) (br_identity bridge) ctx (wr_ID ev) (world v) = Some (None, world t)"
    by (auto simp: worldL_Some_iff)
  then have "burn_settled (chain E) (br_identity bridge) (wr_ID ev) (world t)"
    by (auto simp: RetrySetWithdrawExecuted_def dest: burned_call.nil_settled)
  moreover have "submitted_payment (stellar E) Inr (wallet s) (burn_Target tx) (burn_Amount tx) (burn_Signatures tx)
           (next_sequence (wal_sequenceNumber (wallet s)) (burn_SequenceNumber tx)) w2 (world v)"
    using submit_steps [OF p [unfolded withdraw_submit_as_steps]] by simp
  ultimately show "\<exists>w1 tx w2 w3.
         IsBurnedAlready (chain E) (wr_ID ev) (world s) = (Inr False, w1) \<and>
         GetBurnTransaction (chain E) (wr_ID ev) w1 = (Inr tx, w2) \<and> burn_Signatures tx \<noteq> [] \<and>
         submitted_payment (stellar E) Inr (wallet s) (burn_Target tx) (burn_Amount tx) (burn_Signatures tx)
           (next_sequence (wal_sequenceNumber (wallet s)) (burn_SequenceNumber tx)) w2 w3 \<and>
         RetrySetWithdrawExecuted (chain E) (runtime E) (br_identity bridge) ctx (wr_ID ev) w3 = Some (None, world t) \<and>
         burn_settled (chain E) (br_identity bridge) (wr_ID ev) (world t)"
    using q g report by blast
qed

text \<open>
  C39: The ids under which failed withdrawals are minted back are unique per withdrawal, and none is the
  hash of a Stellar transaction, so such a mint never collides with another one or with a deposit's.
\<close>

theorem refund_mint_ids_unique:
  "(refund_mint_id i = refund_mint_id j) = (i = j) \<and> refund_mint_id i \<noteq> hex_EncodeToString h"
proof
  show "(refund_mint_id i = refund_mint_id j) = (i = j)"
    by (simp add: refund_mint_id_def word_unat_eq_iff)
  have "from_hex_char (CHR ''r'') = None" by code_simp
  then have digit: "hex_digit d \<noteq> CHR ''r''" if "d < 16" for d using from_hex_digit [OF that] by auto
  have "hex_digit (of_char c div 16) \<noteq> CHR ''r''" "hex_digit (of_char c mod 16) \<noteq> CHR ''r''" for c
    by (rule digit; use nat_of_char_less_256 [of c] in linarith)+
  then have "CHR ''r'' \<notin> set (hex_EncodeToString h)"
    by (auto simp: hex_EncodeToString_def dest: sym)
  moreover have "CHR ''r'' \<in> set (refund_mint_id i)" by (simp add: refund_mint_id_def)
  ultimately show "refund_mint_id i \<noteq> hex_EncodeToString h" by metis
qed

text \<open>Sample withdrawals to a user with a trustline, and to an account that does not exist.\<close>

definition sample_withdraw :: "string \<Rightarrow> WithdrawCreatedEvent" where
  "sample_withdraw target = \<lparr>wc_ID = 7, wc_Source = ''dave'', wc_Target = target, wc_Amount = 50000000\<rparr>"

lemma sample_limit: "ParseFloat_positive ''1000.0000000'' = Some True"
proof -
  have "list_all is_digit ''1000''" "list_all is_digit ''0000000''" by (simp_all add: is_digit_def)
  from read_float_decimal [OF _ this]
  have "read_float ''1000.0000000'' = Some (False, False, 10000000000, - 7)"
    by (simp add: digits_val_def digit_val_def)
  moreover have "\<not> is_infinity (snd (take_sign ''1000.0000000''))"
    by (simp add: is_infinity_def take_sign_def lower_char_def)
  ultimately show ?thesis
    by (simp add: ParseFloat_positive_def lower_char_def scaled_ge_def above_underflow_def)
qed

lemma sample_trustline:
  "CheckAccount sample_stellar ''GUSER'' (sample_state c) = Some (Ok (), sample_state c)"
  "\<exists>e. CheckAccount sample_stellar ''GNOBODY'' (sample_state c) = Some (Err e, sample_state c)"
proof -
  have cl: "getHorizonClient (wal_config (wallet (sample_state c))) = Inr DefaultTestNetClient"
    by (simp add: sample_fields sample_config_def getHorizonClient_def)
  have "AccountDetail sample_stellar DefaultTestNetClient ''GUSER'' (world (sample_state c)) =
      (Inr (sample_account ''GUSER''), world (sample_state c))"
    by (simp add: sample_stellar_def sample_state_def sample_net_def lookup_or_def sample_account_def)
  then have "getAccountDetails sample_stellar ''GUSER'' (sample_state c) = Some (Ok (sample_account ''GUSER''), sample_state c)"
    using cl by (simp add: getAccountDetails_Ok_iff)
  moreover have "getAssetCodeAndIssuer sample_config = [''TFT'', tft_issuer]"
    by (simp add: asset_parts sample_config_def tft_issuer_def)
  ultimately show "CheckAccount sample_stellar ''GUSER'' (sample_state c) = Some (Ok (), sample_state c)"
    by (simp add: CheckAccount_Ok_iff sample_fields trusted_balance_iff)
       (simp add: sample_account_def sample_limit)
  have "AccountDetail sample_stellar DefaultTestNetClient ''GNOBODY'' (world (sample_state c)) =
      (Inl not_found, world (sample_state c))"
    by (simp add: sample_stellar_def sample_state_def sample_net_def lookup_or_def)
  then have "\<exists>e. getAccountDetails sample_stellar ''GNOBODY'' (sample_state c) = Some (Err e, sample_state c)"
    using cl by (simp add: getAccountDetails_def worldM_eq bindM_def tryM_def getM_def failM_def)
  then show "\<exists>e. CheckAccount sample_stellar ''GNOBODY'' (sample_state c) = Some (Err e, sample_state c)"
    by (auto simp: CheckAccount_eq bindM_def)
qed

lemma sample_payment_created:
  "CreatePaymentAndReturnSignature sample_stellar ''GUSER'' 50000000 i (sample_state c) =
     Some (Ok (base64_EncodeToString ''alice'', 42), (sample_state c)\<lparr>wallet := sample_wallet\<lparr>wal_sequenceNumber := 42\<rparr>\<rparr>)"
  by (simp add: wallet_eval)

lemma sample_withdraw_sent:
  "sc_reject (sw_chain w) = 0 \<Longrightarrow>
   RetryProposeWithdrawOrAddSig sample_chain sample_runtime x ctx i target n sig addr seqno w =
     Some (None, w\<lparr>sw_chain := sign_burn i target n \<lparr>Signature = sig, StellarAddress = addr\<rparr> seqno (sw_chain w)\<rparr>)"
  "sc_reject (sw_chain w) = 0 \<Longrightarrow>
   RetrySetWithdrawExecuted sample_chain sample_runtime x ctx i w =
     Some (None, w\<lparr>sw_chain := (sw_chain w)\<lparr>sc_burned := i # sc_burned (sw_chain w)\<rparr>\<rparr>)"
  by (simp_all add: RetryProposeWithdrawOrAddSig_def RetrySetWithdrawExecuted_def retry_def sample_chain_fields
      extrinsic_accepted)

lemma sample_env_laws: "txnbuild_laws (stellar sample_env)" "horizon_names_accounts (stellar sample_env)"
  by (simp_all add: sample_env_def sample_laws)

theorem withdraw_created_signs_or_remints_witness:
  "\<exists>t. handleWithdrawCreated sample_env sample_bridge DaemonContext (sample_withdraw ''GUSER'') (sample_state fresh_chain)
       = Some (Ok (), t) \<and>
     signs_withdraw sample_env sample_bridge DaemonContext 7 ''GUSER'' 50000000 (sample_state fresh_chain) t"
proof -
  let ?s = "sample_state fresh_chain"
  have fresh: "sc_burned fresh_chain = []" "sc_reject fresh_chain = 0" by (simp_all add: fresh_chain_def)
  obtain t where t: "handleWithdrawCreated sample_env sample_bridge DaemonContext (sample_withdraw ''GUSER'') ?s
      = Some (Ok (), t)"
    by (simp add: handleWithdrawCreated_def sample_withdraw_def worldM_eq bindM_def tryM_def sample_fields fresh
        sample_trustline sign_withdraw_def sample_payment_created wallet_address_def getM_def worldL_def
        sample_withdraw_sent)
  let ?ev = "sample_withdraw ''GUSER''"
  from withdraw_created_signs_or_remints [OF sample_env_laws t] obtain w u where
    w: "IsBurnedAlready (chain sample_env) (wc_ID ?ev) (world ?s) = (Inr False, w)"
    and res: "checked sample_env (wc_Target ?ev) (?s\<lparr>world := w\<rparr>) True u \<and>
        signs_withdraw sample_env sample_bridge DaemonContext (wc_ID ?ev) (wc_Target ?ev) (wc_Amount ?ev) u t \<or>
      checked sample_env (wc_Target ?ev) (?s\<lparr>world := w\<rparr>) False u \<and>
        remints sample_env sample_bridge DaemonContext ?ev u t \<and> wallet t = wallet ?s"
    by (elim exE conjE) (rule that)
  from w have "w = world ?s" by (simp add: sample_fields)
  then have same: "?s\<lparr>world := w\<rparr> = ?s" by simp
  have fields: "wc_Target ?ev = ''GUSER''" "wc_ID ?ev = 7" "wc_Amount ?ev = 50000000" by (simp_all add: sample_withdraw_def)
  have "\<not> checked sample_env (wc_Target ?ev) (?s\<lparr>world := w\<rparr>) False u"
    unfolding same fields checked_def sample_env_fields by (simp add: sample_trustline)
  with res have good: "checked sample_env ''GUSER'' ?s True u"
    and signs: "signs_withdraw sample_env sample_bridge DaemonContext 7 ''GUSER'' 50000000 u t"
    unfolding same fields by blast+
  from good have "u = ?s"
    unfolding checked_def sample_env_fields by (simp add: sample_trustline)
  with signs t show ?thesis by blast
qed

theorem withdraw_expired_signs_or_executes_witness:
  "\<exists>t. handleWithdrawExpired sample_env sample_bridge DaemonContext
       \<lparr>we_ID = 7, we_Target = ''GNOBODY'', we_Amount = 50000000\<rparr> (sample_state fresh_chain) = Some (Ok (), t) \<and>
     burn_settled sample_chain ''alice'' 7 (world t) \<and> wallet t = sample_wallet"
proof -
  let ?s = "sample_state fresh_chain" and ?ev = "\<lparr>we_ID = 7, we_Target = ''GNOBODY'', we_Amount = 50000000\<rparr>"
  have fresh: "sc_reject fresh_chain = 0" by (simp add: fresh_chain_def)
  obtain e where e: "CheckAccount sample_stellar ''GNOBODY'' ?s = Some (Err e, ?s)"
    using sample_trustline(2) [of fresh_chain] by (elim exE) (rule that)
  then obtain t where t: "handleWithdrawExpired sample_env sample_bridge DaemonContext ?ev ?s = Some (Ok (), t)"
    by (simp add: handleWithdrawExpired_def tryM_def sample_fields worldL_def sample_withdraw_sent fresh)
  from withdraw_expired_signs_or_executes [OF sample_env_laws t] obtain u good where
    u: "checked sample_env (we_Target ?ev) ?s good u"
    and res: "if good then signed_withdraw_of sample_env sample_bridge (we_ID ?ev) (we_Target ?ev) (we_Amount ?ev) ?s (world t)
      else burn_settled (chain sample_env) (br_identity sample_bridge) (we_ID ?ev) (world t) \<and> wallet t = wallet ?s"
    by (elim exE conjE) (rule that)
  from u e have "\<not> good" by (auto simp: checked_def sample_env_fields split: if_splits)
  with res t show ?thesis by (intro exI [of _ t]) (simp add: sample_bridge_def sample_fields)
qed

text \<open>A chain on which the sample withdrawal is signed by alice and by bob.\<close>

definition burn_record :: BurnTransaction where
  "burn_record = \<lparr>burn_Target = ''GUSER'', burn_Amount = 50000000, burn_Signatures = sample_signatures,
     burn_SequenceNumber = 42\<rparr>"

definition burn_chain :: sample_chain_state where
  "burn_chain = fresh_chain\<lparr>sc_burns := [(7, burn_record)]\<rparr>"

lemma burn_chain_fields:
  "sc_reject burn_chain = 0" "sc_burned burn_chain = []" "find_or (sc_burns burn_chain) 7 = Inr burn_record"
  by (simp_all add: burn_chain_def fresh_chain_def find_or_def)

lemma sample_withdraw_paid:
  "\<exists>w. CreatePaymentWithSignaturesAndSubmit sample_stellar ''GUSER'' 50000000 [] sample_signatures 42
     (sample_state c) = Some (Ok (), (sample_state c)\<lparr>wallet := sample_wallet\<lparr>wal_sequenceNumber := 42\<rparr>, world := w\<rparr>)
     \<and> sw_chain w = c"
  by (simp add: wallet_eval sample_signatures_def)

theorem withdraw_ready_pays_record_witness:
  "\<exists>t w3. handleWithdrawReady sample_env sample_bridge DaemonContext \<lparr>wr_ID = 7\<rparr> (sample_state burn_chain)
       = Some (Ok (), t) \<and>
     submitted_payment sample_stellar Inr sample_wallet ''GUSER'' 50000000 sample_signatures 42
       (world (sample_state burn_chain)) w3 \<and>
     burn_settled sample_chain ''alice'' 7 (world t)"
proof -
  let ?s = "sample_state burn_chain" and ?ev = "\<lparr>wr_ID = 7\<rparr>"
  obtain w where paid: "CreatePaymentWithSignaturesAndSubmit sample_stellar ''GUSER'' 50000000 []
      sample_signatures 42 ?s = Some (Ok (), ?s\<lparr>wallet := sample_wallet\<lparr>wal_sequenceNumber := 42\<rparr>, world := w\<rparr>)"
    and w: "sw_chain w = burn_chain" using sample_withdraw_paid [of burn_chain] by (elim exE conjE) (rule that)
  have sigs: "sample_signatures \<noteq> []" by (simp add: sample_signatures_def)
  obtain t where t: "handleWithdrawReady sample_env sample_bridge DaemonContext ?ev ?s = Some (Ok (), t)"
    by (simp add: handleWithdrawReady_def sample_fields worldM_eq bindM_def burn_chain_fields burn_record_def
        paid worldL_def sample_withdraw_sent w sigs)
  have "\<exists>w1 tx w2 w3.
         IsBurnedAlready (chain sample_env) (wr_ID ?ev) (world ?s) = (Inr False, w1) \<and>
         GetBurnTransaction (chain sample_env) (wr_ID ?ev) w1 = (Inr tx, w2) \<and> burn_Signatures tx \<noteq> [] \<and>
         submitted_payment (stellar sample_env) Inr (wallet ?s) (burn_Target tx) (burn_Amount tx) (burn_Signatures tx)
           (next_sequence (wal_sequenceNumber (wallet ?s)) (burn_SequenceNumber tx)) w2 w3 \<and>
         RetrySetWithdrawExecuted (chain sample_env) (runtime sample_env) (br_identity sample_bridge) DaemonContext (wr_ID ?ev) w3
           = Some (None, world t) \<and>
         burn_settled (chain sample_env) (br_identity sample_bridge) (wr_ID ?ev) (world t)"
    by (rule withdraw_ready_pays_record [THEN conjunct2, THEN conjunct2, THEN mp, OF t])
  then obtain w1 tx w2 w3 where
    q: "IsBurnedAlready (chain sample_env) (wr_ID ?ev) (world ?s) = (Inr False, w1)"
    "GetBurnTransaction (chain sample_env) (wr_ID ?ev) w1 = (Inr tx, w2)"
    and sub: "submitted_payment (stellar sample_env) Inr (wallet ?s) (burn_Target tx) (burn_Amount tx) (burn_Signatures tx)
           (next_sequence (wal_sequenceNumber (wallet ?s)) (burn_SequenceNumber tx)) w2 w3"
    and settled: "burn_settled (chain sample_env) (br_identity sample_bridge) (wr_ID ?ev) (world t)"
    by (elim exE conjE) (rule that)
  from q have "w2 = world ?s" "tx = burn_record"
    by (auto simp: sample_fields burn_chain_fields)
  with sub settled t show ?thesis
    by (intro exI [of _ t] exI [of _ w3]) (simp add: sample_fields burn_record_def next_sequence_def sample_bridge_def)
qed

end
