(* ===== verification/BridgeMain.thy ===== *)
theory BridgeMain
  imports BridgeWithdraw
begin

text \<open>
  \<open>pkg/bridge/bridge.go\<close>: starting the daemon (\<open>NewBridge\<close>) and its main loop (\<open>Start\<close>), which takes
  messages from the two subscriptions and runs the handlers. The loop, the goroutine that streams the
  Stellar transactions and the outside world together are a step relation; its reachable states carry
  the guarantee of the whole daemon, that the cursor on file never passes a deposit that is not
  handled.
\<close>

section \<open>Start-up\<close>

text \<open>The part of \<open>NewBridge\<close> that runs once the wallet exists.\<close>

definition start_bridge ::
    "('w, 'tx, 'kp, 'id) env \<Rightarrow> BridgeConfig \<Rightarrow> 'id \<Rightarrow> ('w, 'kp, 'id Bridge) daemon" where
  "start_bridge E cfg identity =
     bindM (if RescanBridgeAccount cfg
            then bindM (SaveStellarCursor (runtime E) ''0'') (\<lambda>_. SaveHeight (runtime E) 0)
            else returnM ()) (\<lambda>_.
     bindM (worldM (GetDepositFee (chain E))) (\<lambda>fee.
       returnM \<lparr>br_identity = identity, br_config = cfg, br_depositFee = fee\<rparr>))"

text \<open>
  \<open>Inl\<close>: an error before there was a wallet (the persistency file \<open>file\<close> is not touched then);
  otherwise the run of the rest, on a state with the new wallet.
\<close>

definition NewBridge ::
    "('w, 'tx, 'kp, 'id) env \<Rightarrow> BridgeConfig \<Rightarrow> bytes option \<Rightarrow> 'w
      \<Rightarrow> (error \<times> 'w) + ('id Bridge outcome \<times> ('w, 'kp) state) option" where
  "NewBridge E cfg file w =
     (case NewSubstrateClient (chain E) (TfchainURL cfg) (TfchainSeed cfg) w of
        (Inl e, w1) \<Rightarrow> Inl (e, w1)
      | (Inr identity, w1) \<Rightarrow>
          (case NewStellarWallet (stellar E) (StellarConfigOf cfg) w1 of
             (Inl e, w2) \<Rightarrow> Inl (e, w2)
           | (Inr wal, w2) \<Rightarrow>
               Inr (start_bridge E cfg identity \<lparr>wallet = wal, disk = file, world = w2\<rparr>)))"

section \<open>The main loop\<close>

text \<open>
  \<open>for _, event := range events { err := handle(event); if err != nil { if skip { continue };
  return errors.Wrap(err, msg) } }\<close>
\<close>

fun handle_all :: "('a \<Rightarrow> ('s, unit) prog) \<Rightarrow> (error \<Rightarrow> bool) \<Rightarrow> string \<Rightarrow> 'a list \<Rightarrow> ('s, unit) prog" where
  "handle_all handler skip msg [] = returnM ()"
| "handle_all handler skip msg (x # xs) =
     tryM (handler x) (\<lambda>r.
       case r of
         Inl err \<Rightarrow> if skip err then handle_all handler skip msg xs else failM (Wrapped msg err)
       | Inr _ \<Rightarrow> handle_all handler skip msg xs)"

text \<open>How an arm of the main loop ends without an error: in the next round, or with \<open>return nil\<close>.\<close>

datatype loop_step = Continue | ReturnNil

text \<open>\<open>errors.Wrap\<close> of \<open>github.com/pkg/errors\<close>: nil stays nil.\<close>

definition errors_Wrap :: "error option \<Rightarrow> string \<Rightarrow> error option" where
  "errors_Wrap err msg = map_option (Wrapped msg) err"

definition return_wrapped :: "error option \<Rightarrow> string \<Rightarrow> ('s, loop_step) prog" where
  "return_wrapped err msg =
     (case errors_Wrap err msg of None \<Rightarrow> returnM ReturnNil | Some e \<Rightarrow> failM e)"

text \<open>
  On an error in the received value both arms \<open>return errors.Wrap(err, ..)\<close>, where \<open>err\<close> is not the
  received \<open>data.Err\<close> but the variable of \<open>Start\<close> that holds the result of \<open>GetHeight\<close>: nil, once the
  loop runs (the first goroutine of \<open>Start\<close> assigns the same variable, but calls \<open>log.Fatal\<close> at once).
\<close>

definition handle_tfchain ::
    "('w, 'tx, 'kp, 'id) env \<Rightarrow> 'id Bridge \<Rightarrow> go_context \<Rightarrow> EventSubscription \<Rightarrow> ('w, 'kp, loop_step) daemon" where
  "handle_tfchain E bridge ctx data =
     (case sub_Err data of
        Some _ \<Rightarrow> return_wrapped None ''failed to process events''
      | None \<Rightarrow>
          bindM (handle_all (handleWithdrawCreated E bridge ctx)
                   (\<lambda>err. errors_Is err ErrTransactionAlreadyBurned \<or> errors_Is err ErrTransactionAlreadyMinted)
                   ''failed to handle withdraw created'' (WithdrawCreatedEvents (sub_Events data))) (\<lambda>_.
          bindM (handle_all (handleWithdrawExpired E bridge ctx) (\<lambda>_. False)
                   ''failed to handle withdraw expired'' (WithdrawExpiredEvents (sub_Events data))) (\<lambda>_.
          bindM (handle_all (handleWithdrawReady E bridge ctx)
                   (\<lambda>err. errors_Is err ErrTransactionAlreadyBurned)
                   ''failed to handle withdraw ready'' (WithdrawReadyEvents (sub_Events data))) (\<lambda>_.
          bindM (handle_all (handleRefundExpired E bridge ctx) (\<lambda>_. False)
                   ''failed to handle refund expired'' (RefundExpiredEvents (sub_Events data))) (\<lambda>_.
          bindM (handle_all (handleRefundReady E bridge ctx)
                   (\<lambda>err. errors_Is err ErrTransactionAlreadyRefunded)
                   ''failed to handle refund ready'' (RefundReadyEvents (sub_Events data))) (\<lambda>_.
            returnM Continue))))))"

definition handle_stellar ::
    "('w, 'tx, 'kp, 'id) env \<Rightarrow> 'id Bridge \<Rightarrow> go_context \<Rightarrow> MintEventSubscription \<Rightarrow> ('w, 'kp, loop_step) daemon" where
  "handle_stellar E bridge ctx data =
     (case mes_Err data of
        Some _ \<Rightarrow> return_wrapped None ''failed to get mint events''
      | None \<Rightarrow>
          bindM (handle_all (\<lambda>mEvent. mint E bridge ctx (Senders mEvent) (Tx mEvent))
                   (\<lambda>err. errors_Is err ErrTransactionAlreadyMinted) ''failed to handle mint''
                   (mes_Events data)) (\<lambda>_.
            returnM Continue))"

text \<open>What the three arms of the \<open>select\<close> of the main loop can receive.\<close>

datatype message = TfchainData EventSubscription | StellarData MintEventSubscription | ContextDone

fun handle_message ::
    "('w, 'tx, 'kp, 'id) env \<Rightarrow> 'id Bridge \<Rightarrow> go_context \<Rightarrow> message \<Rightarrow> ('w, 'kp, loop_step) daemon" where
  "handle_message E bridge ctx (TfchainData data) = handle_tfchain E bridge ctx data"
| "handle_message E bridge ctx (StellarData data) = handle_stellar E bridge ctx data"
| "handle_message E bridge ctx ContextDone = failM ContextCanceled"

text \<open>The loop on the messages that arrive; the empty list is the loop waiting for the next one.\<close>

fun main_loop ::
    "('w, 'tx, 'kp, 'id) env \<Rightarrow> 'id Bridge \<Rightarrow> go_context \<Rightarrow> message list \<Rightarrow> ('w, 'kp, loop_step) daemon" where
  "main_loop E bridge ctx [] = returnM Continue"
| "main_loop E bridge ctx (m # ms) =
     bindM (handle_message E bridge ctx m) (\<lambda>step.
       if step = ReturnNil then returnM ReturnNil else main_loop E bridge ctx ms)"

text \<open>What \<open>Start\<close> does before the loop: read the file, and start the stream at its cursor.\<close>

definition start_stream :: "('w, 'tx, 'kp, 'id) env \<Rightarrow> ('w, 'kp, string \<times> stream) daemon" where
  "start_stream E =
     tryM (GetHeight (runtime E)) (\<lambda>r.
       case r of
         Inl err \<Rightarrow> failM (Wrapped ''failed to get block height from persistency'' err)
       | Inr height \<Rightarrow>
           bindM (StreamBridgeStellarTransactions (stellar E) (StellarCursor height)) (\<lambda>st.
             returnM (StellarCursor height, st)))"

text \<open>\<open>Start\<close> on the messages that arrive until it returns (\<open>Continue\<close>: it waits for the next one); the loop runs with the daemon's context.\<close>

definition Start :: "('w, 'tx, 'kp, 'id) env \<Rightarrow> 'id Bridge \<Rightarrow> message list \<Rightarrow> ('w, 'kp, loop_step) daemon" where
  "Start E bridge msgs = bindM (start_stream E) (\<lambda>_. main_loop E bridge DaemonContext msgs)"

section \<open>The event loops\<close>

text \<open>
  The contract between the main loop and a handler: the handler leaves a part of the state alone.
  The loop over a list of events then leaves it alone too, whatever is skipped.
\<close>

locale event_loop =
  fixes handler :: "'a \<Rightarrow> ('s, unit) prog"
    and part :: "'s \<Rightarrow> 'b"
  assumes handler_keeps: "keeps part (handler x)"
begin

lemma loop_keeps: "keeps part (handle_all handler skip msg xs)"
  by (induction xs) (auto intro!: keeps_rules handler_keeps)

end

interpretation created_disk: event_loop "handleWithdrawCreated E bridge ctx" disk for E bridge ctx
  by unfold_locales (rule withdraw_handlers_keep)

interpretation withdraw_expired_disk: event_loop "handleWithdrawExpired E bridge ctx" disk for E bridge ctx
  by unfold_locales (rule withdraw_handlers_keep)

interpretation withdraw_ready_disk: event_loop "handleWithdrawReady E bridge ctx" disk for E bridge ctx
  by unfold_locales (rule withdraw_handlers_keep)

interpretation refund_expired_disk: event_loop "handleRefundExpired E bridge ctx" disk for E bridge ctx
  by unfold_locales (rule refund_handlers_keep)

interpretation refund_ready_disk: event_loop "handleRefundReady E bridge ctx" disk for E bridge ctx
  by unfold_locales (rule refund_handlers_keep)

interpretation created_identity: event_loop "handleWithdrawCreated E bridge ctx" wallet_identity for E bridge ctx
  by unfold_locales (rule withdraw_handlers_keep)

interpretation withdraw_expired_identity: event_loop "handleWithdrawExpired E bridge ctx" wallet_identity for E bridge ctx
  by unfold_locales (rule withdraw_handlers_keep)

interpretation withdraw_ready_identity: event_loop "handleWithdrawReady E bridge ctx" wallet_identity for E bridge ctx
  by unfold_locales (rule withdraw_handlers_keep)

interpretation refund_expired_identity: event_loop "handleRefundExpired E bridge ctx" wallet_identity for E bridge ctx
  by unfold_locales (rule refund_handlers_keep)

interpretation refund_ready_identity: event_loop "handleRefundReady E bridge ctx" wallet_identity for E bridge ctx
  by unfold_locales (rule refund_handlers_keep)

interpretation mint_identity: event_loop "\<lambda>mEvent. mint E bridge ctx (Senders mEvent) (Tx mEvent)" wallet_identity
  for E bridge ctx
  by unfold_locales (rule mint_keeps_identity)

lemma handle_tfchain_keeps:
  "keeps disk (handle_tfchain E bridge ctx data)" "keeps wallet_identity (handle_tfchain E bridge ctx data)"
  unfolding handle_tfchain_def return_wrapped_def
  by (intro keeps_rules created_disk.loop_keeps withdraw_expired_disk.loop_keeps withdraw_ready_disk.loop_keeps
      refund_expired_disk.loop_keeps refund_ready_disk.loop_keeps)
     (intro keeps_rules created_identity.loop_keeps withdraw_expired_identity.loop_keeps
      withdraw_ready_identity.loop_keeps refund_expired_identity.loop_keeps refund_ready_identity.loop_keeps)

lemma handle_stellar_keeps: "keeps wallet_identity (handle_stellar E bridge ctx data)"
  unfolding handle_stellar_def return_wrapped_def by (intro keeps_rules mint_identity.loop_keeps)

text \<open>Every event of a list that was gone through got its handler's answer, and it was Ok or skipped.\<close>

lemma handle_all_each:
  assumes "handle_all handler skip msg xs s = Some (Ok (), t)" and "x \<in> set xs"
  shows "\<exists>u r v. handler x u = Some (r, v) \<and> (r = Ok () \<or> (\<exists>e. r = Err e \<and> skip e))"
  using assms
proof (induction xs arbitrary: s)
  case (Cons y ys)
  from Cons.prems(1) consider (ok) u where "handler y s = Some (Ok (), u)" "handle_all handler skip msg ys u = Some (Ok (), t)"
    | (skipped) e u where "handler y s = Some (Err e, u)" "skip e" "handle_all handler skip msg ys u = Some (Ok (), t)"
    by (auto simp: tryM_Some_iff split: if_splits)
  then show ?case
  proof cases
    case ok
    with Cons show ?thesis by (cases "x = y") auto
  next
    case skipped
    with Cons show ?thesis by (cases "x = y") auto
  qed
qed simp

text \<open>An invariant that every single answer of the handler preserves, failures included.\<close>

lemma handle_all_invariant:
  assumes "handle_all handler skip msg xs s = Some (r, t)" and "P s"
    and step: "\<And>x u q v. x \<in> set xs \<Longrightarrow> P u \<Longrightarrow> handler x u = Some (q, v) \<Longrightarrow> P v"
  shows "P t"
  using assms
proof (induction xs arbitrary: s)
  case (Cons y ys)
  from Cons.prems(1) obtain q u where h: "handler y s = Some (q, u)"
    by (auto simp: tryM_def split: option.splits)
  with Cons.prems have u: "P u" by (meson list.set_intros(1))
  have ys: "handle_all handler skip msg ys u = Some (r, t) \<Longrightarrow> P t"
    using Cons.IH u Cons.prems(3) by (meson list.set_intros(2))
  from Cons.prems(1) h u ys show ?case
    by (cases q) (auto simp: tryM_def split: if_splits)
qed simp

section \<open>The daemon as a state machine\<close>

text \<open>
  What the history of a run keeps of a Stellar transaction whose events the main loop received: the
  transaction, the state in which the goroutine read it, what the loop received for it, and the states in
  which the loop's handling of it began and ended.
\<close>

record ('w, 'kp) delivery =
  dl_tx :: hz_transaction
  dl_read :: "('w, 'kp) state"
  dl_sub :: MintEventSubscription
  dl_from :: "('w, 'kp) state"
  dl_to :: "('w, 'kp) state"

text \<open>
  A run of \<open>Start\<close>: \<open>cursor\<close> is what the file held when it started, \<open>log\<close> the history of the Stellar transactions
  that the loop went through, \<open>rd\<close> the state before the last move that changed the goroutine. It moves by
  itself and hands over its events, decoded blocks of the chain arrive in between, and the outside world
  may change at any time.
\<close>

inductive bridge_run ::
    "('w, 'tx, 'kp, 'id) env \<Rightarrow> 'id Bridge \<Rightarrow> string \<Rightarrow> ('w, 'kp) state \<Rightarrow> stream \<Rightarrow> ('w, 'kp) state
      \<Rightarrow> ('w, 'kp) delivery list \<Rightarrow> bool"
  for E bridge where
  run_start: "start_stream E s = Some (Ok (cursor, st), t) \<Longrightarrow> bridge_run E bridge cursor t st t []"
| run_goroutine: "bridge_run E bridge cursor s st rd log \<Longrightarrow>
    stream_next (stellar E) (runtime E) st s = Some (Ok st', t) \<Longrightarrow>
    bridge_run E bridge cursor t st' (if st' = st then rd else s) log"
| run_stellar: "bridge_run E bridge cursor s (Offering sub tx txs) rd log \<Longrightarrow>
    stream_receive (Offering sub tx txs) = Some (sub, st') \<Longrightarrow>
    handle_message E bridge DaemonContext (StellarData sub) s = Some (Ok Continue, t) \<Longrightarrow>
    bridge_run E bridge cursor t st' rd
      (log @ [\<lparr>dl_tx = tx, dl_read = rd, dl_sub = sub, dl_from = s, dl_to = t\<rparr>])"
| run_tfchain: "bridge_run E bridge cursor s st rd log \<Longrightarrow> decodes (chain E) n data \<Longrightarrow>
    handle_message E bridge DaemonContext (TfchainData data) s = Some (Ok Continue, t) \<Longrightarrow>
    bridge_run E bridge cursor t st rd log"
| run_world: "bridge_run E bridge cursor s st rd log \<Longrightarrow> bridge_run E bridge cursor (s\<lparr>world := w\<rparr>) st rd log"

text \<open>
  The states in which the daemon can be when it goes away: any running one, or the end of a failing message;
  \<open>pending\<close> is the delivery of that message, when it was one of the goroutine's.
\<close>

inductive bridge_ends ::
    "('w, 'tx, 'kp, 'id) env \<Rightarrow> 'id Bridge \<Rightarrow> string \<Rightarrow> ('w, 'kp) state \<Rightarrow> ('w, 'kp) delivery list
      \<Rightarrow> ('w, 'kp) delivery option \<Rightarrow> bool"
  for E bridge where
  ends_running: "bridge_run E bridge cursor s st rd log \<Longrightarrow> bridge_ends E bridge cursor s log None"
| ends_stellar: "bridge_run E bridge cursor s (Offering sub tx txs) rd log \<Longrightarrow>
    handle_message E bridge DaemonContext (StellarData sub) s = Some (r, t) \<Longrightarrow>
    bridge_ends E bridge cursor t log
      (Some \<lparr>dl_tx = tx, dl_read = rd, dl_sub = sub, dl_from = s, dl_to = t\<rparr>)"
| ends_tfchain: "bridge_run E bridge cursor s st rd log \<Longrightarrow>
    handle_message E bridge DaemonContext (TfchainData data) s = Some (r, t) \<Longrightarrow>
    bridge_ends E bridge cursor t log None"

inductive_cases bridge_endsE: "bridge_ends E bridge cursor t log pending"

section \<open>The cursor and the handled transactions\<close>

text \<open>The operating system does not fail a write of the persistency file.\<close>

definition reliable_disk :: "'w go_runtime \<Rightarrow> bool" where
  "reliable_disk R \<longleftrightarrow> (\<forall>w. fst (write_fault R w) = None)"

lemma reliable_save_error:
  assumes "reliable_disk R" and "SaveStellarCursor R c s = Some (r, t)" and "r \<noteq> Ok ()"
  shows "disk t = disk s"
proof -
  obtain q u where g: "GetHeight R s = Some (q, u)" using persistency_returns(1) by (rule returnsE)
  have disk: "disk u = disk s" using keepsD [OF persistency_keeps(2) g] .
  obtain w where "write_fault R (world u) = (None, w)"
    using assms(1) unfolding reliable_disk_def by (metis fst_conv surj_pair)
  then have "Save R b u = Some (Ok (), u\<lparr>world := w, disk := Some (json_Marshal b)\<rparr>)" for b
    by (simp add: Save_def os_WriteFile_def worldP_def bindM_def modifyM_def)
  with assms(2,3) g disk show ?thesis by (cases q) (auto simp: SaveStellarCursor_def bindM_def)
qed

text \<open>
  The loop goes past an event from the state \<open>s\<close> to the state \<open>u\<close> in one of three ways: its deposit is settled
  and then the cursor of its transaction is saved; it has no senders and the query is all; or its handler
  ends with the error that it is minted already, which the loop skips.
\<close>

definition event_gone ::
    "('w, 'tx, 'kp, 'id) env \<Rightarrow> 'id Bridge \<Rightarrow> MintEvent \<Rightarrow> ('w, 'kp) state \<Rightarrow> ('w, 'kp) state \<Rightarrow> bool" where
  "event_gone E bridge ev s u \<longleftrightarrow>
     (\<exists>v. settles E bridge DaemonContext (Senders ev) (Tx ev) s v \<and>
        SaveStellarCursor (runtime E) (PagingToken (Tx ev)) v = Some (Ok (), u)) \<or>
     (Senders ev = [] \<and> minted_already (chain E) (Hash (Tx ev)) s = Some (Ok False, u)) \<or>
     (\<exists>e. mint E bridge DaemonContext (Senders ev) (Tx ev) s = Some (Err e, u) \<and>
        errors_Is e ErrTransactionAlreadyMinted)"

text \<open>All events of a list, one after the other, none left out.\<close>

fun events_gone ::
    "('w, 'tx, 'kp, 'id) env \<Rightarrow> 'id Bridge \<Rightarrow> MintEvent list \<Rightarrow> ('w, 'kp) state \<Rightarrow> ('w, 'kp) state \<Rightarrow> bool" where
  "events_gone E bridge [] s t \<longleftrightarrow> t = s"
| "events_gone E bridge (ev # evs) s t \<longleftrightarrow> (\<exists>u. event_gone E bridge ev s u \<and> events_gone E bridge evs u t)"

text \<open>What the loop received is what \<open>processTransaction\<close> made of the transaction when the goroutine read it.\<close>

definition read_events ::
    "('w, 'tx, 'kp) stellar_api \<Rightarrow> hz_transaction \<Rightarrow> ('w, 'kp) state \<Rightarrow> MintEventSubscription \<Rightarrow> bool" where
  "read_events S tx rd sub \<longleftrightarrow> mes_Err sub = None \<and> (\<exists>v. processTransaction S tx rd = Some (Ok (mes_Events sub), v))"

definition dealt_with :: "('w, 'tx, 'kp, 'id) env \<Rightarrow> 'id Bridge \<Rightarrow> ('w, 'kp) delivery \<Rightarrow> bool" where
  "dealt_with E bridge d \<longleftrightarrow> read_events (stellar E) (dl_tx d) (dl_read d) (dl_sub d) \<and>
     events_gone E bridge (mes_Events (dl_sub d)) (dl_from d) (dl_to d)"

text \<open>
  A message that failed, after one of its events was settled and the cursor of its transaction saved, the
  events before that one having been gone past.
\<close>

definition reached_save ::
    "('w, 'tx, 'kp, 'id) env \<Rightarrow> 'id Bridge \<Rightarrow> MintEvent list \<Rightarrow> ('w, 'kp) state \<Rightarrow> bool" where
  "reached_save E bridge evs s \<longleftrightarrow>
     (\<exists>before ev after u v w. evs = before @ ev # after \<and> events_gone E bridge before s u \<and>
        settles E bridge DaemonContext (Senders ev) (Tx ev) u v \<and>
        SaveStellarCursor (runtime E) (PagingToken (Tx ev)) v = Some (Ok (), w))"

definition begun :: "('w, 'tx, 'kp, 'id) env \<Rightarrow> 'id Bridge \<Rightarrow> ('w, 'kp) delivery \<Rightarrow> bool" where
  "begun E bridge d \<longleftrightarrow> read_events (stellar E) (dl_tx d) (dl_read d) (dl_sub d) \<and>
     reached_save E bridge (mes_Events (dl_sub d)) (dl_from d)"

lemma read_events_tx:
  assumes "read_events S tx rd sub" and "ev \<in> set (mes_Events sub)"
  shows "Tx ev = tx"
proof -
  from assms(1) obtain v where "processTransaction S tx rd = Some (Ok (mes_Events sub), v)"
    unfolding read_events_def by blast
  with assms(2) obtain effects u' where
    "collect_events S (wal_config (wallet u')) tx effects [] u' = Some (Ok (mes_Events sub), v)"
    by (auto simp: processTransaction_def bindM_Ok_iff split: if_splits)
  from collect_events_faithful [OF this] assms(2) show ?thesis by (simp add: faithful_event_def)
qed

lemma mint_Ok_gone:
  assumes "mint E bridge DaemonContext (Senders ev) (Tx ev) s = Some (Ok (), u)"
  shows "event_gone E bridge ev s u"
proof (cases "Senders ev = []")
  case True
  with assms show ?thesis by (auto simp: event_gone_def mint_def bindM_Ok_iff split: if_splits)
next
  case False
  from mint_saves_last [OF assms this] show ?thesis unfolding saves_last_def event_gone_def by blast
qed

lemma mint_cursor:
  assumes "reliable_disk (runtime E)" and "ascii_string (PagingToken tx)"
    and "mint E bridge ctx senders tx u = Some (q, v)"
  shows "stored_cursor v = stored_cursor u \<or>
    (stored_cursor v = Some (PagingToken tx) \<and> q = Ok () \<and>
     (\<exists>u'. settles E bridge ctx senders tx u u' \<and> SaveStellarCursor (runtime E) (PagingToken tx) u' = Some (Ok (), v)))"
proof (cases "senders = []")
  case True
  have "keeps disk (mint E bridge ctx [] tx)" unfolding mint_def by (auto intro!: keeps_rules)
  with assms True show ?thesis using keepsD stored_cursor_disk by metis
next
  case False
  from mint_saves_last [OF assms(3) False] consider "disk v = disk u"
    | u' where "settles E bridge ctx senders tx u u'" "disk u' = disk u"
      "SaveStellarCursor (runtime E) (PagingToken tx) u' = Some (q, v)"
    unfolding saves_last_def by blast
  then show ?thesis
  proof cases
    case 1
    then show ?thesis using stored_cursor_disk by blast
  next
    case 2
    show ?thesis
    proof (cases "q = Ok ()")
      case True
      with 2 cursor_file.save_stores [OF _ assms(2)] show ?thesis by blast
    next
      case False
      then have "disk v = disk u" using reliable_save_error [OF assms(1) 2(3)] 2(2) by simp
      then show ?thesis using stored_cursor_disk by blast
    qed
  qed
qed

abbreviation mint_all :: "('w, 'tx, 'kp, 'id) env \<Rightarrow> 'id Bridge \<Rightarrow> MintEvent list \<Rightarrow> ('w, 'kp, unit) daemon" where
  "mint_all E bridge \<equiv> handle_all (\<lambda>mEvent. mint E bridge DaemonContext (Senders mEvent) (Tx mEvent))
     (\<lambda>err. errors_Is err ErrTransactionAlreadyMinted) ''failed to handle mint''"

text \<open>One round of the loop over the events: it stops with this event, or it goes past it.\<close>

lemma mint_all_step:
  assumes "mint_all E bridge (ev # evs) s = Some (r, t)"
  obtains (stops) q where "mint E bridge DaemonContext (Senders ev) (Tx ev) s = Some (q, t)" "r \<noteq> Ok ()"
    | (goes_on) q u where "mint E bridge DaemonContext (Senders ev) (Tx ev) s = Some (q, u)"
        "event_gone E bridge ev s u" "mint_all E bridge evs u = Some (r, t)"
proof -
  obtain q u where m: "mint E bridge DaemonContext (Senders ev) (Tx ev) s = Some (q, u)"
    using assms by (auto simp: tryM_def split: option.splits)
  show thesis
  proof (cases "q = Ok () \<or> (\<exists>e. q = Err e \<and> errors_Is e ErrTransactionAlreadyMinted)")
    case True
    then have "event_gone E bridge ev s u" using mint_Ok_gone m unfolding event_gone_def by blast
    moreover have "mint_all E bridge evs u = Some (r, t)" using assms m True by (auto simp: tryM_def)
    ultimately show thesis using m by (intro goes_on)
  next
    case False
    then have "r \<noteq> Ok () \<and> t = u" using assms m by (cases q) (auto simp: tryM_def failM_def)
    with m show thesis by (intro stops) simp_all
  qed
qed

lemma mint_all_gone: "mint_all E bridge evs s = Some (Ok (), t) \<Longrightarrow> events_gone E bridge evs s t"
proof (induction evs arbitrary: s)
  case (Cons ev evs)
  from Cons.prems show ?case
    by (cases rule: mint_all_step) (use Cons.IH in auto)
qed simp

lemma mint_all_cursor:
  assumes rel: "reliable_disk (runtime E)" and tok: "ascii_string (PagingToken tx)"
    and "mint_all E bridge evs s = Some (r, t)" and "\<forall>ev\<in>set evs. Tx ev = tx"
  shows "stored_cursor t = stored_cursor s \<or> (stored_cursor t = Some (PagingToken tx) \<and> reached_save E bridge evs s)"
  using assms(3,4)
proof (induction evs arbitrary: s)
  case (Cons ev evs)
  have tx: "Tx ev = tx" using Cons.prems(2) by simp
  have here: "reached_save E bridge (ev # evs) s"
    if "settles E bridge DaemonContext (Senders ev) tx s v" "SaveStellarCursor (runtime E) (PagingToken tx) v = Some (Ok (), w)"
    for v w
    unfolding reached_save_def
    by (rule exI [of _ "[]"], rule exI [of _ ev], rule exI [of _ evs], rule exI [of _ s]) (use that tx in auto)
  from Cons.prems(1) show ?case
  proof (cases rule: mint_all_step)
    case (stops q)
    from mint_cursor [OF rel tok stops(1) [unfolded tx]] here show ?thesis by blast
  next
    case (goes_on q u)
    have later: "reached_save E bridge (ev # evs) s" if "reached_save E bridge evs u"
      using that goes_on(2) unfolding reached_save_def by (metis append_Cons events_gone.simps(2))
    have rest: "stored_cursor t = stored_cursor u \<or> (stored_cursor t = Some (PagingToken tx) \<and> reached_save E bridge evs u)"
      using Cons.IH [OF goes_on(3)] Cons.prems(2) by simp
    from mint_cursor [OF rel tok goes_on(1) [unfolded tx]] rest here later show ?thesis by metis
  qed
qed simp

lemma handle_stellar_events:
  assumes "mes_Err sub = None" and "handle_stellar E bridge DaemonContext sub s = Some (r, t)"
  obtains r' where "mint_all E bridge (mes_Events sub) s = Some (r', t)" "r = Ok Continue \<Longrightarrow> r' = Ok ()"
  using assms by (auto simp: handle_stellar_def bindM_Some_iff)

section \<open>Properties\<close>

lemma keeps_config: "keeps wallet_identity m \<Longrightarrow> m s = Some (r, t) \<Longrightarrow> wal_config (wallet t) = wal_config (wallet s)"
  by (auto simp: keeps_def wallet_identity_def)

lemma start_stream_Ok:
  assumes "start_stream E s = Some (Ok (cursor, st), t)"
  shows "stored_cursor t = Some cursor" and "wallet t = wallet s"
    and "st = Fetching cursor \<or> (\<exists>e. st = Stopped e)"
proof -
  from assms obtain h u where g: "GetHeight (runtime E) s = Some (Ok h, u)"
    and st: "StreamBridgeStellarTransactions (stellar E) (StellarCursor h) u = Some (Ok st, t)"
    and c: "cursor = StellarCursor h"
    by (auto simp: start_stream_def tryM_Some_iff bindM_Ok_iff)
  from st have t: "t = u" "st = Fetching cursor \<or> (\<exists>e. st = Stopped e)"
    by (auto simp: StreamBridgeStellarTransactions_def c prog_defs split: sum.splits)
  from g have "stored u = Some h" "wallet u = wallet s"
    by (auto simp: GetHeight_eq stored_def split: prod.splits option.splits sum.splits)
  with t c show "stored_cursor t = Some cursor" "wallet t = wallet s"
    "st = Fetching cursor \<or> (\<exists>e. st = Stopped e)" by (auto simp: stored_cursor_def)
qed

text \<open>What the runs are about: a Horizon that serves one history, with tokens of ASCII characters.\<close>

definition serves_history :: "('w, 'tx, 'kp, 'id) env \<Rightarrow> StellarConfig \<Rightarrow> hz_transaction list \<Rightarrow> bool" where
  "serves_history E cfg H \<longleftrightarrow>
     pages_of (stellar E) (StellarBridgeAccount cfg) H \<and> (\<forall>tx\<in>set H. ascii_string (PagingToken tx)) \<and>
     reliable_disk (runtime E)"

fun offers_read :: "('w, 'tx, 'kp) stellar_api \<Rightarrow> stream \<Rightarrow> ('w, 'kp) state \<Rightarrow> bool" where
  "offers_read S (Offering sub tx txs) rd = read_events S tx rd sub"
| "offers_read S _ rd = True"

lemma stream_next_reads:
  assumes "stream_next S R st s = Some (Ok st', t)" and "offers_read S st rd"
  shows "offers_read S st' (if st' = st then rd else s)"
proof (cases "(S, R, st)" rule: stream_next.cases)
  case (1 S' R' c)
  with assms(1) have "st' = Stopped ContextCanceled \<or> (\<exists>u. fetch_page S R c u = Some (Ok st', t))"
    by (auto simp: bindM_Ok_iff split: if_splits)
  then show ?thesis using fetch_page_Ok by fastforce
next
  case (3 S' R' c tx txs)
  with assms(1) show ?thesis by (auto simp: tryM_Some_iff read_events_def)
qed (use assms in auto)

definition run_invariant ::
    "('w, 'tx, 'kp, 'id) env \<Rightarrow> 'id Bridge \<Rightarrow> string \<Rightarrow> hz_transaction list
      \<Rightarrow> ('w, 'kp) state \<Rightarrow> stream \<Rightarrow> ('w, 'kp) state \<Rightarrow> ('w, 'kp) delivery list \<Rightarrow> bool" where
  "run_invariant E bridge cursor rest s st rd log \<longleftrightarrow>
     map dl_tx log = take (length log) rest \<and> stream_position cursor rest (length log) st \<and>
     offers_read (stellar E) st rd \<and> (\<forall>d\<in>set log. dealt_with E bridge d) \<and>
     (\<exists>j\<le>length log. stored_cursor s = Some (cursor_at cursor rest j))"

text \<open>The transaction that the goroutine offers is the next one of the history.\<close>

lemma offered_next:
  assumes "serves_history E cfg H"
    and inv: "run_invariant E bridge cursor (after_cursor cursor H) s (Offering sub tx txs) rd log"
  shows "length log < length (after_cursor cursor H)" "read_events (stellar E) tx rd sub"
    "reliable_disk (runtime E)" "ascii_string (PagingToken tx)"
    "map dl_tx log @ [tx] = take (Suc (length log)) (after_cursor cursor H)"
    "cursor_at cursor (after_cursor cursor H) (Suc (length log)) = PagingToken tx"
proof -
  let ?rest = "after_cursor cursor H" and ?n = "length log"
  from inv have pos: "?n < length ?rest" "tx = ?rest ! ?n" and hd: "map dl_tx log = take ?n ?rest"
    and sub: "read_events (stellar E) tx rd sub" by (auto simp: run_invariant_def)
  then have "tx \<in> set H" using after_cursor_drop [of cursor H] by (metis in_set_dropD nth_mem)
  with assms(1) show "reliable_disk (runtime E)" "ascii_string (PagingToken tx)" by (auto simp: serves_history_def)
  show "map dl_tx log @ [tx] = take (Suc ?n) ?rest" using hd pos by (simp add: take_Suc_conv_app_nth)
  show "?n < length ?rest" "read_events (stellar E) tx rd sub" "cursor_at cursor ?rest (Suc ?n) = PagingToken tx"
    using pos sub by (simp_all add: cursor_at_def)
qed

text \<open>What one message of the goroutine does to the file, however it ends.\<close>

lemma stellar_message_cursor:
  assumes H: "serves_history E cfg H"
    and inv: "run_invariant E bridge cursor (after_cursor cursor H) s (Offering sub tx txs) rd log"
    and h: "handle_stellar E bridge DaemonContext sub s = Some (r, t)"
  shows "stored_cursor t = stored_cursor s \<or>
    (stored_cursor t = Some (PagingToken tx) \<and> reached_save E bridge (mes_Events sub) s)"
proof -
  note nxt = offered_next [OF H inv]
  have "mes_Err sub = None" using nxt(2) by (simp add: read_events_def)
  then obtain r' where "mint_all E bridge (mes_Events sub) s = Some (r', t)"
    using h by (rule handle_stellar_events)
  from mint_all_cursor [OF nxt(3,4) this] read_events_tx [OF nxt(2)] show ?thesis by blast
qed

lemma stellar_message_invariant:
  assumes H: "serves_history E cfg H"
    and inv: "run_invariant E bridge cursor (after_cursor cursor H) s (Offering sub tx txs) rd log"
    and received: "stream_receive (Offering sub tx txs) = Some (sub, st')"
    and h: "handle_stellar E bridge DaemonContext sub s = Some (Ok Continue, t)"
  shows "run_invariant E bridge cursor (after_cursor cursor H) t st' rd
    (log @ [\<lparr>dl_tx = tx, dl_read = rd, dl_sub = sub, dl_from = s, dl_to = t\<rparr>])"
proof -
  let ?rest = "after_cursor cursor H" and ?n = "length log"
  let ?d = "\<lparr>dl_tx = tx, dl_read = rd, dl_sub = sub, dl_from = s, dl_to = t\<rparr>"
  note nxt = offered_next [OF H inv]
  have "mes_Err sub = None" using nxt(2) by (simp add: read_events_def)
  then obtain r' where "mint_all E bridge (mes_Events sub) s = Some (r', t)" "r' = Ok ()"
    using h by (rule handle_stellar_events) simp
  with mint_all_gone nxt(2) have "dealt_with E bridge ?d" by (simp add: dealt_with_def)
  then have "\<forall>d\<in>set (log @ [?d]). dealt_with E bridge d" using inv by (simp add: run_invariant_def)
  moreover have "stored_cursor t = stored_cursor s \<or> stored_cursor t = Some (cursor_at cursor ?rest (Suc ?n))"
    using stellar_message_cursor [OF H inv h] nxt(6) by auto
  then have "\<exists>j\<le>Suc ?n. stored_cursor t = Some (cursor_at cursor ?rest j)"
    using inv unfolding run_invariant_def by (metis le_Suc_eq)
  moreover have "stream_position cursor ?rest (Suc ?n) st'"
    using inv stream_receive_position [OF _ received] by (auto simp: run_invariant_def)
  moreover have "offers_read (stellar E) st' rd" using received by auto
  moreover have "map dl_tx (log @ [?d]) = take (Suc ?n) ?rest" using nxt(5) by simp
  moreover have len: "length (log @ [?d]) = Suc ?n" by simp
  ultimately show ?thesis unfolding run_invariant_def len by blast
qed

lemma bridge_run_invariant:
  assumes H: "serves_history E cfg H" and c: "known_cursor H cursor"
    and "bridge_run E bridge cursor s st rd log" and "wal_config (wallet s) = cfg"
  shows "run_invariant E bridge cursor (after_cursor cursor H) s st rd log"
  using assms(3,4,2)
proof (induction rule: bridge_run.induct)
  case (run_start s cursor st t)
  from start_stream_Ok [OF run_start.hyps] show ?case
    by (auto simp: run_invariant_def cursor_at_def)
next
  case (run_goroutine cursor s st rd log st' t)
  let ?rest = "after_cursor cursor H"
  have w: "wallet t = wallet s" and d: "disk t = disk s"
    using keepsD [OF stream_next_rules(1) run_goroutine.hyps(2)]
      keepsD [OF stream_next_rules(2) run_goroutine.hyps(2)] by auto
  with run_goroutine have inv: "run_invariant E bridge cursor ?rest s st rd log" by simp
  then have "stream_position cursor ?rest (length log) st" "offers_read (stellar E) st rd"
    by (auto simp: run_invariant_def)
  then have "stream_position cursor ?rest (length log) st'" "offers_read (stellar E) st' (if st' = st then rd else s)"
    using stream_next_position [OF _ run_goroutine.prems(2) _ run_goroutine.hyps(2)]
      stream_next_reads [OF run_goroutine.hyps(2)] H run_goroutine.prems(1) w
    by (auto simp: serves_history_def)
  with inv stored_cursor_disk [OF d] show ?case by (simp add: run_invariant_def)
next
  case (run_stellar cursor s sub tx txs rd log st' t)
  from run_stellar.hyps(3) have h: "handle_stellar E bridge DaemonContext sub s = Some (Ok Continue, t)" by simp
  have "wal_config (wallet s) = cfg" using keeps_config [OF handle_stellar_keeps h] run_stellar.prems(1) by simp
  then show ?case
    using stellar_message_invariant [OF H run_stellar.IH run_stellar.hyps(2) h] run_stellar.prems(2) by simp
next
  case (run_tfchain cursor s st rd log n data t)
  from run_tfchain.hyps(3) have h: "handle_tfchain E bridge DaemonContext data s = Some (Ok Continue, t)" by simp
  have "wal_config (wallet s) = cfg"
    using keeps_config [OF handle_tfchain_keeps(2) h] run_tfchain.prems(1) by simp
  with run_tfchain have "run_invariant E bridge cursor (after_cursor cursor H) s st rd log" by simp
  with stored_cursor_disk [OF keepsD [OF handle_tfchain_keeps(1) h]] show ?case
    by (simp add: run_invariant_def)
next
  case (run_world cursor s st rd log w)
  then show ?case by (simp add: run_invariant_def stored_cursor_def stored_def)
qed

text \<open>
  C5: While the daemon runs, the Stellar transactions that it has gone through are the next ones of the
  account after the cursor it started with, in order and without a gap. For each of them the loop received
  exactly the events that \<open>processTransaction\<close> made of it when the goroutine read it, and it went past
  these events one after the other and left none out: from the state in which the message arrived to the
  state in which the loop went on, every event's deposit was settled and the cursor of the transaction saved
  after that, or it had no senders, or its handler ended with the error that it is minted already.
\<close>

theorem daemon_handles_in_order:
  assumes "serves_history E cfg H" and "known_cursor H cursor"
    and "bridge_run E bridge cursor s st rd log" and "wal_config (wallet s) = cfg"
  shows "map dl_tx log = take (length log) (after_cursor cursor H) \<and>
    (\<forall>d\<in>set log. read_events (stellar E) (dl_tx d) (dl_read d) (dl_sub d) \<and>
       events_gone E bridge (mes_Events (dl_sub d)) (dl_from d) (dl_to d))"
  using bridge_run_invariant [OF assms] by (simp add: run_invariant_def dealt_with_def)

text \<open>A restart that reads the cursor of \<open>t\<close> sees every transaction after \<open>cursor\<close> again that this run did not deal with.\<close>

definition resumes ::
    "('w, 'tx, 'kp, 'id) env \<Rightarrow> 'id Bridge \<Rightarrow> hz_transaction list \<Rightarrow> string \<Rightarrow> ('w, 'kp) state
      \<Rightarrow> ('w, 'kp) delivery list \<Rightarrow> ('w, 'kp) delivery option \<Rightarrow> bool" where
  "resumes E bridge H cursor t log pending \<longleftrightarrow>
     (\<exists>cursor'. stored_cursor t = Some cursor' \<and> known_cursor H cursor' \<and>
       (\<forall>tx\<in>set (after_cursor cursor H). tx \<in> set (after_cursor cursor' H) \<or>
          (\<exists>d\<in>set log. dl_tx d = tx \<and> dealt_with E bridge d) \<or>
          (\<exists>d. pending = Some d \<and> dl_tx d = tx \<and> begun E bridge d)))"

lemma resumes_at:
  assumes H: "serves_history E cfg H" and c: "known_cursor H cursor" and j: "j \<le> length (after_cursor cursor H)"
    and cur: "stored_cursor t = Some (cursor_at cursor (after_cursor cursor H) j)"
    and before: "\<forall>tx\<in>set (take j (after_cursor cursor H)). (\<exists>d\<in>set log. dl_tx d = tx \<and> dealt_with E bridge d) \<or>
      (\<exists>d. pending = Some d \<and> dl_tx d = tx \<and> begun E bridge d)"
  shows "resumes E bridge H cursor t log pending"
proof -
  let ?rest = "after_cursor cursor H"
  have dist: "distinct (map PagingToken H)" using H by (simp add: serves_history_def pages_of_def)
  have "set ?rest = set (take j ?rest) \<union> set (drop j ?rest)" by (metis append_take_drop_id set_append)
  with before have "\<forall>tx\<in>set ?rest. tx \<in> set (after_cursor (cursor_at cursor ?rest j) H) \<or>
      (\<exists>d\<in>set log. dl_tx d = tx \<and> dealt_with E bridge d) \<or> (\<exists>d. pending = Some d \<and> dl_tx d = tx \<and> begun E bridge d)"
    unfolding after_cursor_at [OF dist j] by blast
  with cur known_cursor_at [OF c j] show ?thesis unfolding resumes_def by blast
qed

lemma running_resumes:
  assumes "serves_history E cfg H" and "known_cursor H cursor"
    and inv: "run_invariant E bridge cursor (after_cursor cursor H) s st rd log"
    and same: "stored_cursor t = stored_cursor s"
  shows "resumes E bridge H cursor t log pending"
proof -
  let ?rest = "after_cursor cursor H"
  from inv obtain j where j: "j \<le> length log" "stored_cursor s = Some (cursor_at cursor ?rest j)"
    and hd: "map dl_tx log = take (length log) ?rest" and full: "\<forall>d\<in>set log. dealt_with E bridge d"
    unfolding run_invariant_def by blast
  have "length log \<le> length ?rest" using hd by (metis length_map length_take min.cobounded1)
  then have "j \<le> length ?rest" using j(1) by simp
  moreover have "set (take j ?rest) \<subseteq> dl_tx ` set log"
    using hd j(1) by (metis set_map set_take_subset_set_take)
  then have "\<forall>tx\<in>set (take j ?rest). \<exists>d\<in>set log. dl_tx d = tx \<and> dealt_with E bridge d" using full by blast
  ultimately show ?thesis using resumes_at [OF assms(1,2)] j(2) same by simp
qed

lemma stopped_on_deposit_resumes:
  assumes H: "serves_history E cfg H" and c: "known_cursor H cursor"
    and inv: "run_invariant E bridge cursor (after_cursor cursor H) s (Offering sub tx txs) rd log"
    and h: "handle_stellar E bridge DaemonContext sub s = Some (r, t)"
  shows "resumes E bridge H cursor t log (Some \<lparr>dl_tx = tx, dl_read = rd, dl_sub = sub, dl_from = s, dl_to = t\<rparr>)"
proof -
  note nxt = offered_next [OF H inv]
  let ?d = "\<lparr>dl_tx = tx, dl_read = rd, dl_sub = sub, dl_from = s, dl_to = t\<rparr>"
  from stellar_message_cursor [OF H inv h] show ?thesis
  proof
    assume "stored_cursor t = stored_cursor s"
    with running_resumes [OF H c inv] show ?thesis .
  next
    assume saved: "stored_cursor t = Some (PagingToken tx) \<and> reached_save E bridge (mes_Events sub) s"
    then have d: "begun E bridge ?d" using nxt(2) by (simp add: begun_def)
    have full: "\<forall>d\<in>set log. dealt_with E bridge d" using inv unfolding run_invariant_def by blast
    show ?thesis
    proof (rule resumes_at [OF H c])
      show "Suc (length log) \<le> length (after_cursor cursor H)" using nxt(1) by simp
      show "stored_cursor t = Some (cursor_at cursor (after_cursor cursor H) (Suc (length log)))"
        using saved nxt(6) by simp
      show "\<forall>x\<in>set (take (Suc (length log)) (after_cursor cursor H)). (\<exists>d\<in>set log. dl_tx d = x \<and> dealt_with E bridge d) \<or>
          (\<exists>d. Some ?d = Some d \<and> dl_tx d = x \<and> begun E bridge d)"
        unfolding nxt(5) [symmetric] using full d by auto
    qed
  qed
qed


text \<open>The daemon of the sample network, on a Horizon whose history is the sample deposit.\<close>

definition history_env :: "(sample, sample_tx, string, string) env" where
  "history_env = sample_env\<lparr>stellar := fixed_history [sample_deposit]\<rparr>"

lemma history_env_fields:
  "chain history_env = sample_chain" "stellar history_env = fixed_history [sample_deposit]"
  "runtime history_env = sample_runtime"
  by (simp_all add: history_env_def sample_env_def)

lemma history_env_serves: "serves_history history_env cfg [sample_deposit]"
  by (simp add: serves_history_def history_env_fields fixed_history_pages reliable_disk_def sample_runtime_def)
     (simp add: ascii_string_def sample_deposit_def)

lemma sample_bridge_run:
  "\<exists>t rd d. bridge_run history_env sample_bridge [] t (Records ''1001'' []) rd [d] \<and> dl_tx d = sample_deposit \<and>
     mes_Events (dl_sub d) = [\<lparr>Senders = [(''GCAROL'', 45000000)], Tx = sample_deposit, Error = None\<rparr>] \<and>
     wallet t = sample_wallet \<and> sc_votes (sw_chain (world t)) = [(''00ff'', ''dave'', 45000000)]"
proof -
  let ?s = "deposit_state sample_ops fresh_chain"
  let ?ev = "\<lparr>Senders = [(''GCAROL'', 45000000)], Tx = sample_deposit, Error = None\<rparr>"
  let ?sub = "\<lparr>mes_Events = [?ev], mes_Err = None\<rparr>"
  let ?run = "bridge_run history_env sample_bridge []"
  have cfg: "wal_config (wallet ?s) = sample_config" by (rule deposit_wallet)
  have st: "stored ?s = Some zero_Blockheight"
    by (simp add: stored_def deposit_state_def sample_state_def)
  have fresh: "sc_reject (sw_chain (world ?s)) = 0" "sc_votes (sw_chain (world ?s)) = []"
    by (simp_all add: deposit_state_def deposit_net_def sample_net_def fresh_chain_def)
  have "?run ?s (Fetching []) ?s []"
    by (rule run_start [of _ ?s])
       (simp add: start_stream_def history_env_fields sample_GetHeight [OF st] tryM_def zero_Blockheight_def
         StreamBridgeStellarTransactions_def bindM_def getM_def cfg deposit_wallet returnM_def)
  moreover have "stream_next (stellar history_env) (runtime history_env) (Fetching []) ?s = Some (Ok (Records [] [sample_deposit]), ?s)"
    by (simp add: history_env_fields fetch_page_def worldP_def worldM_eq bindM_def tryM_def getM_def cfg
         deposit_wallet sample_runtime_def fixed_history_def after_cursor_def sample_deposit_def returnM_def)
  ultimately have "?run ?s (Records [] [sample_deposit]) (if Records [] [sample_deposit] = Fetching [] then ?s else ?s) []"
    by (rule run_goroutine)
  moreover have "stream_next (stellar history_env) (runtime history_env) (Records [] [sample_deposit]) ?s =
      Some (Ok (Offering ?sub sample_deposit []), ?s)"
    by (simp add: history_env_fields sample_events [OF fixed_history_like] tryM_def returnM_def)
  ultimately obtain rd where offering: "?run ?s (Offering ?sub sample_deposit []) rd []"
    using run_goroutine by blast
  obtain t where t: "mint history_env sample_bridge DaemonContext [(''GCAROL'', 45000000)] sample_deposit ?s = Some (Ok (), t)"
    and votes: "sc_votes (sw_chain (world t)) = [(''00ff'', ''dave'', 45000000)]" and w: "wallet t = wallet ?s"
    using sample_mint_run [OF history_env_fields(1,3) fresh st] by blast
  have "?run t (Records ''1001'' []) rd ([] @ [\<lparr>dl_tx = sample_deposit, dl_read = rd, dl_sub = ?sub, dl_from = ?s, dl_to = t\<rparr>])"
    by (rule run_stellar [OF offering])
       (simp_all add: handle_stellar_def t tryM_def bindM_def returnM_def, simp add: sample_deposit_def)
  with votes w show ?thesis
    by (intro exI [of _ t] exI [of _ rd] exI [of _ "\<lparr>dl_tx = sample_deposit, dl_read = rd, dl_sub = ?sub, dl_from = ?s, dl_to = t\<rparr>"])
       (simp add: deposit_state_def sample_state_fields)
qed

theorem daemon_handles_in_order_witness:
  "\<exists>t rd d. bridge_run history_env sample_bridge [] t (Records ''1001'' []) rd [d] \<and> dl_tx d = sample_deposit \<and>
     event_gone history_env sample_bridge \<lparr>Senders = [(''GCAROL'', 45000000)], Tx = sample_deposit, Error = None\<rparr>
       (dl_from d) (dl_to d)"
proof -
  obtain t rd d where t: "bridge_run history_env sample_bridge [] t (Records ''1001'' []) rd [d]"
    and d: "dl_tx d = sample_deposit"
      "mes_Events (dl_sub d) = [\<lparr>Senders = [(''GCAROL'', 45000000)], Tx = sample_deposit, Error = None\<rparr>]"
    and w: "wallet t = sample_wallet" using sample_bridge_run by blast
  have "known_cursor [sample_deposit] []" by (simp add: known_cursor_def)
  from daemon_handles_in_order [OF history_env_serves this t, of sample_config] d w
  have "event_gone history_env sample_bridge \<lparr>Senders = [(''GCAROL'', 45000000)], Tx = sample_deposit, Error = None\<rparr>
       (dl_from d) (dl_to d)"
    by (simp add: sample_state_fields)
  with t d(1) show ?thesis by blast
qed


subsection \<open>Stopping\<close>

text \<open>
  A context that is cancelled is seen by every \<open>select\<close> on it. All handlers of the chain's events run on the
  daemon's context, so each of their retry loops returns at its first \<open>select\<close>.
\<close>

definition stop_requested :: "'w go_runtime \<Rightarrow> bool" where
  "stop_requested R \<longleftrightarrow> (\<forall>w. fst (select_wait R w))"

lemma stop_seen: "stop_requested R \<Longrightarrow> fst (wait_round R DaemonContext w)"
  by (auto simp: stop_requested_def wait_round_def Let_def split: prod.splits)

lemma returns_worldL: "(\<And>w. f w \<noteq> None) \<Longrightarrow> returns (worldL f)"
  by (auto simp: returns_def worldL_def split: option.splits)

lemma stopped_retries:
  assumes "stop_requested R"
  shows "RetrySetWithdrawExecuted C R i DaemonContext txid w \<noteq> None"
    "RetryProposeWithdrawOrAddSig C R i DaemonContext txid target n sig addr seqno w \<noteq> None"
    "RetryCreateRefundTransactionOrAddSig C R i DaemonContext h target m sig addr seqno w \<noteq> None"
    "RetrySetRefundTransactionExecutedTx C R i DaemonContext h w \<noteq> None"
    "RetryProposeMintOrVote C R i DaemonContext h a n w \<noteq> None"
  unfolding RetrySetWithdrawExecuted_def RetryProposeWithdrawOrAddSig_def RetryCreateRefundTransactionOrAddSig_def
    RetrySetRefundTransactionExecutedTx_def RetryProposeMintOrVote_def
  by (rule retry_cancelled stop_seen assms)+

lemma handle_all_returns: "(\<And>x. returns (handler x)) \<Longrightarrow> returns (handle_all handler skip msg xs)"
  by (induction xs) (auto intro!: returns_rules)

lemma stopped_handlers_return:
  assumes "stop_requested (runtime E)"
  shows "returns (handleWithdrawCreated E bridge DaemonContext w)" "returns (handleWithdrawExpired E bridge DaemonContext x)"
    "returns (handleWithdrawReady E bridge DaemonContext y)" "returns (handleRefundExpired E bridge DaemonContext z)"
    "returns (handleRefundReady E bridge DaemonContext v)"
  unfolding handleWithdrawCreated_def handleWithdrawExpired_def handleWithdrawReady_def handleRefundExpired_def
    handleRefundReady_def handleBadWithdraw_def sign_withdraw_def wallet_address_def
  by (intro returns_rules CheckAccount_rules(3) payments_return returns_worldL stopped_retries assms)+

text \<open>A deposit that \<open>mint\<close> does not refund: no sender, a return memo, or a mint to an account that the lookup finds.\<close>

definition never_refunded :: "('w, 'tx, 'kp, 'id) env \<Rightarrow> 'id Bridge \<Rightarrow> MintEvent \<Rightarrow> bool" where
  "never_refunded E bridge ev \<longleftrightarrow>
     Senders ev = [] \<or> (\<exists>p. Senders ev = [p]) \<and> Memo (Tx ev) \<noteq> [] \<and> MemoType (Tx ev) = ''return'' \<or>
     (\<exists>n. mint_allowed bridge (Senders ev) (Tx ev) n) \<and>
     (\<forall>u :: ('w, 'kp) state. \<exists>address v. getSubstrateAddressFromMemo E (Memo (Tx ev)) u = Some (Ok address, v))"

lemma never_refunded_returns:
  fixes E :: "('w, 'tx, 'kp, 'id) env"
  assumes "stop_requested (runtime E)" and "never_refunded E bridge ev"
  shows "returns (mint E bridge DaemonContext (Senders ev) (Tx ev))"
proof -
  have vote: "returns (worldL (RetryProposeMintOrVote (chain E) (runtime E) (br_identity bridge) DaemonContext h a n)
      :: ('w, 'kp, unit) daemon)" for h a n
    by (intro returns_worldL stopped_retries assms)
  have single: "returns (mint_single E bridge DaemonContext a n (Tx ev))"
    if "Senders ev = [(a, n)]" for a n
  proof (cases "mint_allowed bridge (Senders ev) (Tx ev) n")
    case False
    with assms(2) that have "Memo (Tx ev) \<noteq> [] \<and> MemoType (Tx ev) = ''return''"
      by (auto simp: never_refunded_def mint_allowed_def)
    then show ?thesis unfolding mint_single_def by (auto intro: returns_rules)
  next
    case True
    then have memo: "Memo (Tx ev) \<noteq> []" "MemoType (Tx ev) \<noteq> ''return''" "\<not> n \<le> sint (br_depositFee bridge)"
      using that by (auto simp: mint_allowed_def)
    have rest: "returns (bindM (liftE (FromAddress (chain E) address)) (\<lambda>accountID.
        bindM (worldL (RetryProposeMintOrVote (chain E) (runtime E) (br_identity bridge) DaemonContext (Hash (Tx ev)) accountID n))
          (\<lambda>_. SaveStellarCursor (runtime E) (PagingToken (Tx ev)) :: ('w, 'kp, unit) daemon)))" for address
      by (intro returns_rules vote)
    show ?thesis unfolding returns_def
    proof
      fix u :: "('w, 'kp) state"
      from assms(2) memo that obtain address v where
        "getSubstrateAddressFromMemo E (Memo (Tx ev)) u = Some (Ok address, v)"
        unfolding never_refunded_def by (elim disjE conjE exE allE [of _ u]) simp_all
      with memo rest [unfolded returns_def] show "mint_single E bridge DaemonContext a n (Tx ev) u \<noteq> None"
        by (simp add: mint_single_def tryM_def)
    qed
  qed
  show ?thesis
  proof (cases "Senders ev")
    case Nil
    then show ?thesis unfolding mint_def by (auto intro!: returns_rules)
  next
    case (Cons p ps)
    with assms(2) obtain a n where "Senders ev = [(a, n)]"
      by (cases p) (auto simp: never_refunded_def mint_allowed_def)
    with single show ?thesis unfolding mint_def by (auto intro!: returns_rules)
  qed
qed

text \<open>
  C28: A daemon that is asked to stop is not held up by the chain: once its context is cancelled, the handling of
  every message of the chain returns, whatever the chain answers, even when it goes on refusing
  extrinsics; and so does the handling of a message of the goroutine unless it holds a deposit that is to
  be refunded.
\<close>

theorem stopped_daemon_returns:
  fixes E :: "('w, 'tx, 'kp, 'id) env" and s :: "('w, 'kp) state"
  assumes "stop_requested (runtime E)"
    and "\<forall>sub. m = StellarData sub \<longrightarrow> (\<forall>ev\<in>set (mes_Events sub). never_refunded E bridge ev)"
  shows "handle_message E bridge DaemonContext m s \<noteq> None"
proof (cases m)
  case (TfchainData data)
  have "returns (handle_tfchain E bridge DaemonContext data)"
    unfolding handle_tfchain_def return_wrapped_def
    by (intro returns_rules handle_all_returns stopped_handlers_return assms(1))
  then show ?thesis by (simp add: TfchainData returns_def)
next
  case (StellarData sub)
  let ?mint = "\<lambda>ev. mint E bridge DaemonContext (Senders ev) (Tx ev) :: ('w, 'kp, unit) daemon"
  have "\<forall>ev\<in>set evs. returns (?mint ev) \<Longrightarrow> returns (handle_all ?mint skip msg evs)" for skip msg evs
    by (induction evs) (auto intro!: returns_rules)
  moreover have "\<forall>ev\<in>set (mes_Events sub). returns (?mint ev)"
    using assms(2) never_refunded_returns [OF assms(1)] by (simp add: StellarData)
  ultimately have "returns (handle_all ?mint skip msg (mes_Events sub))" for skip msg by blast
  then have "returns (handle_stellar E bridge DaemonContext sub :: ('w, 'kp, loop_step) daemon)"
    unfolding handle_stellar_def return_wrapped_def by (intro returns_rules)
  then show ?thesis by (simp add: StellarData returns_def)
qed (simp add: failM_def)

text \<open>A chain that refuses every signature of a refund, under a runtime in which the stop was requested.\<close>

definition stopping_sample :: "(sample, sample_tx, string, string) env" where
  "stopping_sample = sample_env\<lparr>chain := refusing_chain, runtime := cancelling_runtime\<rparr>"

lemma stopping_sample_fields:
  "chain stopping_sample = refusing_chain" "stellar stopping_sample = sample_stellar"
  "runtime stopping_sample = cancelling_runtime" "stop_requested (runtime stopping_sample)"
  by (simp_all add: stopping_sample_def sample_env_def stop_requested_def cancelling_runtime_def)

definition expired_refund_data :: EventSubscription where
  "expired_refund_data = \<lparr>sub_Events = empty_Events\<lparr>RefundExpiredEvents := [sample_refund]\<rparr>, sub_Err = None\<rparr>"

theorem stopped_daemon_returns_witness:
  "\<exists>r. handle_message stopping_sample sample_bridge DaemonContext (TfchainData expired_refund_data) (sample_state fresh_chain) = Some r"
  using stopped_daemon_returns [OF stopping_sample_fields(4), of "TfchainData expired_refund_data" sample_bridge
      "sample_state fresh_chain"] by auto

text \<open>
  A deposit whose refund the chain keeps refusing: in the worlds of \<open>P\<close>, which no call leaves, the chain has
  its transaction neither minted nor refunded and accepts no signature for its refund, while the wallet can
  sign one for each of the senders.
\<close>

definition refund_refused ::
    "('w, 'tx, 'kp, 'id) env \<Rightarrow> 'id Bridge \<Rightarrow> senders \<Rightarrow> hz_transaction \<Rightarrow> ('w \<Rightarrow> bool) \<Rightarrow> ('w, 'kp) state \<Rightarrow> bool" where
  "refund_refused E bridge senders tx P s \<longleftrightarrow>
     (\<forall>w. P w \<longrightarrow>
       (\<exists>err w'. IsMintedAlready (chain E) (Hash tx) w = ((False, err), w') \<and>
          err \<in> {None, Some ErrMintTransactionNotFound} \<and> P w') \<and>
       (\<exists>w'. IsRefundedAlready (chain E) (Hash tx) w = (Inr False, w') \<and> P w') \<and>
       (\<forall>target amount signature address seqno. \<exists>e w'.
          CreateRefundTransactionOrAddSig (chain E) (br_identity bridge) (Hash tx) target amount signature address seqno w
            = (Some e, w') \<and> P w') \<and>
       P (snd (select_wait (runtime E) w)) \<and> P (snd (map_start (runtime E) w)) \<and>
       (\<forall>(a, n)\<in>set senders. \<exists>signed v.
          CreateRefundAndReturnSignature (stellar E) a (of_int n) (Hash tx) (s\<lparr>world := w\<rparr>) = Some (Ok signed, v) \<and> P (world v)))"

lemma refused_refund_hangs:
  assumes "refund_refused E bridge senders tx P s" and "P w" and "(a, n) \<in> set senders"
  shows "refund E bridge Background a (of_int n) tx (s\<lparr>world := w\<rparr>) = None"
proof -
  let ?check = "\<lambda>_. IsRefundedAlready (chain E) (Hash tx)" and ?ev = "\<lparr>re_Hash = Hash tx, re_Target = a, re_Amount = of_int n\<rparr>"
  note refused = assms(1) [unfolded refund_refused_def, rule_format]
  have hangs: "RetryCreateRefundTransactionOrAddSig (chain E) (runtime E) (br_identity bridge) Background (Hash tx)
      target amount signature address seqno u = None" if u: "P u" for target amount signature address seqno u
    unfolding RetryCreateRefundTransactionOrAddSig_def
  proof (rule retry_diverges [where P = P])
    fix e :: error and w assume w: "P w"
    have "wait_round (runtime E) Background w = (False, snd (select_wait (runtime E) w))"
      by (simp add: wait_round_def split: prod.splits)
    moreover have next_world: "P (snd (select_wait (runtime E) w))" using refused [OF w] by blast
    moreover obtain w2 where "IsRefundedAlready (chain E) (Hash tx) (snd (select_wait (runtime E) w)) = (Inr False, w2)" "P w2"
      using refused [OF next_world] by blast
    moreover obtain e' w3 where "CreateRefundTransactionOrAddSig (chain E) (br_identity bridge) (Hash tx) target amount
        signature address seqno w2 = (Some e', w3)" "P w3"
      using refused [OF \<open>P w2\<close>] by blast
    ultimately show "\<exists>w1 w2 e' w3. wait_round (runtime E) Background w = (False, w1) \<and> ?check e w1 = (Inr False, w2) \<and>
        CreateRefundTransactionOrAddSig (chain E) (br_identity bridge) (Hash tx) target amount signature address seqno w2
          = (Some e', w3) \<and> P w3" by blast
  qed (use refused [OF u] u in blast)+
  obtain w2 where q: "IsRefundedAlready (chain E) (Hash tx) w = (Inr False, w2)" "P w2" using refused [OF assms(2)] by blast
  obtain signature seqno v where c: "CreateRefundAndReturnSignature (stellar E) a (of_int n) (Hash tx) (s\<lparr>world := w2\<rparr>)
      = Some (Ok (signature, seqno), v)" "P (world v)"
    using refused [OF q(2)] assms(3) by fastforce
  have "handleRefundExpired E bridge Background ?ev (s\<lparr>world := w\<rparr>) = None"
    using q c hangs [OF c(2)]
    by (simp add: handleRefundExpired_def worldM_eq bindM_def wallet_address_def getM_def worldL_def)
  then show ?thesis by (simp add: refund_def bindM_def)
qed

text \<open>
  C29: A refund holds the daemon up for ever: \<open>mint\<close> makes its refunds with the background context and not with
  the one it was given, so when the chain goes on refusing the signature for the refund of a received deposit,
  the handling of the message never returns, also when the daemon's context is cancelled: nothing is
  assumed of the answers of the \<open>select\<close>, and in the witness each of them is that the context is done.
\<close>

theorem refused_refund_is_not_stopped:
  assumes "mes_Err sub = None" and "mes_Events sub = ev # evs"
    and "Senders ev \<noteq> []" and "\<not> (\<exists>n. mint_allowed bridge (Senders ev) (Tx ev) n)"
    and "Memo (Tx ev) = [] \<or> MemoType (Tx ev) \<noteq> ''return'' \<or> 2 \<le> length (Senders ev)"
    and "refund_refused E bridge (Senders ev) (Tx ev) P s" and "P (world s)"
  shows "handle_message E bridge DaemonContext (StellarData sub) s = None"
proof -
  note refused = assms(6) [unfolded refund_refused_def, rule_format]
  from refused [OF assms(7)] obtain err w where
    "IsMintedAlready (chain E) (Hash (Tx ev)) (world s) = ((False, err), w)" "err \<in> {None, Some ErrMintTransactionNotFound}"
    and w: "P w" by blast
  then have m: "minted_already (chain E) (Hash (Tx ev)) s = Some (Ok False, s\<lparr>world := w\<rparr>)"
    by (auto simp: minted_already_def worldP_def bindM_def returnM_def)
  have "mint E bridge DaemonContext (Senders ev) (Tx ev) s = None"
  proof (cases "\<exists>p. Senders ev = [p]")
    case True
    then obtain a n where senders: "Senders ev = [(a, n)]" by auto
    with assms(4,5) have "Memo (Tx ev) = [] \<or> MemoType (Tx ev) \<noteq> ''return'' \<and> n \<le> sint (br_depositFee bridge)"
      unfolding mint_allowed_def by (auto simp: not_le)
    then have "mint_single E bridge DaemonContext a n (Tx ev) = refund E bridge Background a (of_int n) (Tx ev)"
      by (auto simp: mint_single_def)
    with refused_refund_hangs [OF assms(6) w, of a n] m senders show ?thesis by (simp add: mint_def bindM_def)
  next
    case False
    then obtain p p' ps where senders: "Senders ev = p # p' # ps" using assms(3) by (metis neq_Nil_conv)
    obtain i w2 where i: "map_start (runtime E) w = (i, w2)" by force
    then have w2: "P w2" using refused [OF w] by (metis snd_conv)
    obtain a n where an: "Senders ev ! (i mod length (Senders ev)) = (a, n)" by force
    have "i mod length (Senders ev) < length (Senders ev)" by (simp add: senders)
    with an have "(a, n) \<in> set (Senders ev)" by (metis nth_mem)
    from refused_refund_hangs [OF assms(6) w2 this] m i an show ?thesis
      by (simp add: mint_def bindM_def worldP_def senders)
  qed
  with assms(1,2) show ?thesis by (simp add: handle_stellar_def bindM_def tryM_def)
qed

theorem refused_refund_is_not_stopped_witness:
  "stop_requested (runtime stopping_sample) \<and>
   handle_message stopping_sample sample_bridge DaemonContext
     (StellarData \<lparr>mes_Events = [\<lparr>Senders = [(''GCAROL'', 45000000)], Tx = sample_deposit\<lparr>Memo := []\<rparr>, Error = None\<rparr>],
        mes_Err = None\<rparr>) (sample_state fresh_chain) = None"
proof -
  let ?s = "sample_state fresh_chain" and ?tx = "sample_deposit\<lparr>Memo := []\<rparr>"
  have tx: "Hash ?tx = ''00ff''" by (simp add: sample_deposit_def)
  have same: "?s\<lparr>world := sample_net fresh_chain\<rparr> = ?s" by (simp add: sample_state_def)
  have start: "world ?s = sample_net fresh_chain" by (simp add: sample_state_def)
  have fresh: "sc_votes (sw_chain (sample_net fresh_chain)) = []" by (simp add: sample_net_def fresh_chain_def)
  have signs: "\<exists>signed v. CreateRefundAndReturnSignature sample_stellar ''GCAROL'' (of_int 45000000) ''00ff'' ?s = Some (Ok signed, v) \<and>
      world v = sample_net fresh_chain"
    by (simp add: sample_refund_created start del: base64_EncodeToString.simps)
  have "refund_refused stopping_sample sample_bridge [(''GCAROL'', 45000000)] ?tx (\<lambda>w. w = sample_net fresh_chain) ?s"
    unfolding refund_refused_def tx stopping_sample_fields using signs
    by (simp add: same fresh refusing_chain_def cancelling_runtime_def sample_runtime_def sample_chain_def)
  then show ?thesis
    using refused_refund_is_not_stopped [of "\<lparr>mes_Events = [\<lparr>Senders = [(''GCAROL'', 45000000)], Tx = ?tx, Error = None\<rparr>],
        mes_Err = None\<rparr>" "\<lparr>Senders = [(''GCAROL'', 45000000)], Tx = ?tx, Error = None\<rparr>" "[]" sample_bridge stopping_sample
        "\<lambda>w. w = sample_net fresh_chain" ?s] stopping_sample_fields(4)
    by (simp add: mint_allowed_def sample_state_def)
qed

subsection \<open>Start-up\<close>

lemma new_wallet_account:
  assumes "NewStellarWallet S cfg w = (Inr wal, w')"
  shows "\<exists>client w0 account w1. AccountDetail S client (StellarBridgeAccount cfg) w0 = (Inr account, w1) \<and>
     wal_signatureCount wal = unat (acc_MedThreshold account) \<and>
     acc_GetSequenceNumber account = (wal_sequenceNumber wal, None) \<and> wal_config wal = cfg"
  using assms by (auto simp: NewStellarWallet_def split: sum.splits prod.splits option.splits) blast

text \<open>What the rescan leaves in the file.\<close>

lemma rescan_stored:
  assumes "bindM (SaveStellarCursor R ''0'') (\<lambda>_. SaveHeight R 0) s = Some (Ok (), u)"
  shows "stored u = Some \<lparr>LastHeight = 0, StellarCursor = ''0''\<rparr>"
proof -
  from assms obtain v where c: "SaveStellarCursor R ''0'' s = Some (Ok (), v)"
    and h: "SaveHeight R 0 v = Some (Ok (), u)" by (auto simp: bindM_Ok_iff)
  have a: "ascii_string ''0''" by (simp add: ascii_string_def)
  obtain bh where bh: "stored v = Some (bh\<lparr>StellarCursor := ''0''\<rparr>)" using SaveStellarCursor_stored [OF c a] by blast
  obtain b' where "disk v = None \<and> b' = zero_Blockheight \<or> (\<exists>d. disk v = Some d \<and> json_Unmarshal d = Inr b')"
    and u: "disk u = Some (json_Marshal (b'\<lparr>LastHeight := 0\<rparr>))" using h by (rule SaveHeight_Ok)
  with bh have "b' = bh\<lparr>StellarCursor := ''0''\<rparr>" by (auto simp: stored_def)
  with u json_Unmarshal_Marshal [of "b'\<lparr>LastHeight := 0\<rparr>"] a show ?thesis by (simp add: stored_def)
qed

text \<open>
  C33: A daemon that starts has a key the chain lists as a validator, the deposit fee of the chain, and a
  wallet whose signature threshold and sequence number are the bridge account's; when a rescan is
  asked for, the file holds height 0 and the cursor \<open>0\<close>, from which every transaction of the account
  comes again; otherwise the file is as it was.
\<close>

theorem started_bridge:
  assumes "NewBridge E cfg file w = Inr (Some (Ok bridge, s))"
  shows "(\<exists>w0 w1. IsValidator (chain E) (br_identity bridge) w0 = (Inr True, w1)) \<and>
    (\<exists>w0 w1. GetDepositFee (chain E) w0 = (Inr (br_depositFee bridge), w1)) \<and> br_config bridge = cfg \<and>
    (\<exists>client w0 account w1. AccountDetail (stellar E) client (StellarBridgeAccount (StellarConfigOf cfg)) w0 = (Inr account, w1) \<and>
       wal_signatureCount (wallet s) = unat (acc_MedThreshold account) \<and>
       acc_GetSequenceNumber account = (wal_sequenceNumber (wallet s), None) \<and>
       wal_config (wallet s) = StellarConfigOf cfg) \<and>
    (if RescanBridgeAccount cfg then stored s = Some \<lparr>LastHeight = 0, StellarCursor = ''0''\<rparr> else disk s = file)"
proof -
  from assms obtain identity w1 wal w2 where
    c: "NewSubstrateClient (chain E) (TfchainURL cfg) (TfchainSeed cfg) w = (Inr identity, w1)"
    and wal: "NewStellarWallet (stellar E) (StellarConfigOf cfg) w1 = (Inr wal, w2)"
    and run: "start_bridge E cfg identity \<lparr>wallet = wal, disk = file, world = w2\<rparr> = Some (Ok bridge, s)"
    by (auto simp: NewBridge_def split: prod.splits sum.splits)
  let ?s = "\<lparr>wallet = wal, disk = file, world = w2\<rparr>"
  let ?save = "if RescanBridgeAccount cfg
            then bindM (SaveStellarCursor (runtime E) ''0'') (\<lambda>_. SaveHeight (runtime E) 0)
            else returnM ()"
  from run obtain u fee where sv: "?save ?s = Some (Ok (), u)"
    and fee: "worldM (GetDepositFee (chain E)) u = Some (Ok fee, s)"
    and b: "bridge = \<lparr>br_identity = identity, br_config = cfg, br_depositFee = fee\<rparr>"
    by (auto simp: start_bridge_def bindM_Ok_iff)
  have valid: "\<exists>w0 w1. IsValidator (chain E) identity w0 = (Inr True, w1)"
    using c by (auto simp: NewSubstrateClient_def split: prod.splits option.splits sum.splits bool.splits)
  have "keeps wallet ?save" by (intro keeps_rules)
  from keepsD [OF this sv] have "wallet u = wal" by simp
  with keepsD [OF world_keeps(3) fee] keepsD [OF world_keeps(4) fee]
  have ws: "wallet s = wal" and ds: "disk s = disk u" by auto
  have "if RescanBridgeAccount cfg then stored s = Some \<lparr>LastHeight = 0, StellarCursor = ''0''\<rparr> else disk s = file"
    using sv ds rescan_stored by (fastforce simp: stored_def split: if_splits)
  with valid new_wallet_account [OF wal] b ws fee show ?thesis by (auto simp: worldM_Ok_iff)
qed

theorem started_bridge_witness:
  "\<exists>bridge s. NewBridge sample_env ((br_config sample_bridge)\<lparr>RescanBridgeAccount := True\<rparr>) None (sample_net fresh_chain)
       = Inr (Some (Ok bridge, s)) \<and>
     stored s = Some \<lparr>LastHeight = 0, StellarCursor = ''0''\<rparr> \<and> wal_signatureCount (wallet s) = 1"
proof -
  let ?cfg = "(br_config sample_bridge)\<lparr>RescanBridgeAccount := True\<rparr>"
  have cfg: "StellarConfigOf ?cfg = sample_config" "RescanBridgeAccount ?cfg" by (simp_all add: sample_bridge_def)
  obtain wal where wal: "NewStellarWallet sample_stellar sample_config (sample_net fresh_chain) =
      (Inr wal, sample_net fresh_chain)"
    by (simp add: NewStellarWallet_def sample_defs getHorizonClient_def)
  let ?s = "\<lparr>wallet = wal, disk = None, world = sample_net fresh_chain\<rparr>"
  let ?t = "?s\<lparr>disk := Some (json_Marshal (zero_Blockheight\<lparr>StellarCursor := ''0''\<rparr>))\<rparr>"
  have s: "stored ?s = Some zero_Blockheight" by (simp add: stored_def)
  note t = sample_save [OF s, of "''0''"]
  have "ascii_string ''0''" by (simp add: ascii_string_def)
  from SaveStellarCursor_stored [OF t this] obtain b where b: "stored ?t = Some b" by auto
  have id: "NewSubstrateClient sample_chain url ''alice'' w = (Inr ''alice'', w)" for url w
    by (simp add: NewSubstrateClient_def sample_chain_def)
  have seed: "TfchainSeed ?cfg = ''alice''" by (simp add: sample_bridge_def)
  let ?u = "?t\<lparr>disk := Some (json_Marshal (b\<lparr>LastHeight := 0\<rparr>))\<rparr>"
  have save: "(if RescanBridgeAccount ?cfg then bindM (SaveStellarCursor sample_runtime ''0'')
      (\<lambda>_. SaveHeight sample_runtime 0) else returnM ()) ?s = Some (Ok (), ?u)"
    using sample_GetHeight [OF b] t by (simp add: cfg bindM_def SaveHeight_def sample_Save)
  have "start_bridge sample_env ?cfg ''alice'' ?s =
      Some (Ok \<lparr>br_identity = ''alice'', br_config = ?cfg, br_depositFee = 10000000\<rparr>, ?u)"
    using save unfolding start_bridge_def sample_env_fields
    by (simp add: bindM_step(1) [where s' = ?u] worldM_eq sample_chain_fields bindM_def [of "worldM _"] returnM_def)
  then obtain bridge where run: "NewBridge sample_env ?cfg None (sample_net fresh_chain) = Inr (Some (Ok bridge, ?u))"
    unfolding NewBridge_def sample_env_fields seed id cfg(1) by (simp add: wal)
  have "wal_signatureCount wal = 1"
    using wal by (auto simp: NewStellarWallet_def sample_defs getHorizonClient_def)
  with started_bridge [OF run] run cfg(2) show ?thesis
    by (intro exI [of _ bridge] exI [of _ ?u]) simp
qed

end
