(* ===== verification/DaemonMain.thy ===== *)
theory DaemonMain
  imports BridgeMain
begin

text \<open>
  \<open>main.go\<close>: the process. It fills the configuration from the command line, creates the bridge (an
  error is a panic), and runs it until the loop returns; a loop that ends with anything but the plain
  error of the cancelled context ends the process with \<open>log.Fatal\<close>.
\<close>

section \<open>The command line\<close>

text \<open>
  \<open>text_flag\<close> and \<open>bool_flag\<close> are what \<open>pflag\<close> parsed: the value given for a flag, \<open>None\<close> when the flag
  is absent and its default holds.
\<close>

definition parse_flags :: "(string \<Rightarrow> string option) \<Rightarrow> (string \<Rightarrow> bool option) \<Rightarrow> BridgeConfig" where
  "parse_flags text_flag bool_flag =
     (let text_or = (\<lambda>name default. case text_flag name of None \<Rightarrow> default | Some v \<Rightarrow> v) in
      \<lparr>TfchainURL = text_or ''tfchainurl'' [],
       TfchainSeed = text_or ''tfchainseed'' [],
       RescanBridgeAccount = (case bool_flag ''rescan'' of None \<Rightarrow> False | Some b \<Rightarrow> b),
       PersistencyFile = text_or ''persistency'' ''./node.json'',
       StellarConfigOf =
         \<lparr>StellarBridgeAccount = text_or ''bridgewallet'' [],
          StellarNetwork = text_or ''network'' ''testnet'',
          StellarSeed = text_or ''secret'' [],
          StellarHorizonUrl = text_or ''horizon'' []\<rparr>\<rparr>)"

section \<open>The process\<close>

datatype exit = ExitNormally | ExitFatal error | Panic

text \<open>How the process ends on the messages that arrive; \<open>None\<close> while it still runs.\<close>

definition daemon_main ::
    "('w, 'tx, 'kp, 'id) env \<Rightarrow> (string \<Rightarrow> string option) \<Rightarrow> (string \<Rightarrow> bool option) \<Rightarrow> bytes option \<Rightarrow> 'w
      \<Rightarrow> message list \<Rightarrow> exit option" where
  "daemon_main E text_flag bool_flag file w msgs =
     (case NewBridge E (parse_flags text_flag bool_flag) file w of
        Inl _ \<Rightarrow> Some Panic
      | Inr None \<Rightarrow> None
      | Inr (Some (Ok bridge, s)) \<Rightarrow>
          (case Start E bridge msgs s of
             None \<Rightarrow> None
           | Some (Ok Continue, _) \<Rightarrow> None
           | Some (Ok ReturnNil, _) \<Rightarrow> Some ExitNormally
           | Some (Err err, _) \<Rightarrow> Some (if err \<noteq> ContextCanceled then ExitFatal err else ExitNormally)
           | Some (Crash, _) \<Rightarrow> Some Panic)
      | Inr (Some (_, s)) \<Rightarrow> Some Panic)"

section \<open>Properties\<close>

text \<open>The handlers' errors come wrapped: none of them is the plain error of a cancelled context.\<close>

lemma handle_all_wraps:
  "handle_all handler skip msg xs s = Some (Err e, t) \<Longrightarrow> \<exists>e'. e = Wrapped msg e'"
proof (induction xs arbitrary: s)
  case (Cons x xs)
  obtain q u where h: "handler x s = Some (q, u)"
    using Cons.prems by (auto simp: tryM_def split: option.splits)
  with Cons show ?case by (cases q) (auto simp: tryM_def split: if_splits)
qed simp

text \<open>What makes the loop return nil: a value that carries an error.\<close>

fun carries_error :: "message \<Rightarrow> bool" where
  "carries_error (TfchainData data) = (sub_Err data \<noteq> None)"
| "carries_error (StellarData data) = (mes_Err data \<noteq> None)"
| "carries_error ContextDone = False"

lemma return_wrapped_None [simp]: "return_wrapped None msg = returnM ReturnNil"
  by (simp add: return_wrapped_def errors_Wrap_def)

lemma handle_message_ends:
  assumes "handle_message E bridge ctx m s = Some (r, t)"
  shows "(r = Ok ReturnNil \<longrightarrow> carries_error m) \<and> (r = Err ContextCanceled \<longrightarrow> m = ContextDone)"
  using assms
  by (cases m)
     (auto simp: handle_tfchain_def handle_stellar_def bindM_Some_iff split: option.splits dest!: handle_all_wraps)

lemma not_Continue: "step \<noteq> Continue \<longleftrightarrow> step = ReturnNil"
  by (cases step) simp_all

lemma main_loop_append:
  "main_loop E bridge ctx ms s = Some (Ok Continue, u) \<Longrightarrow> main_loop E bridge ctx (ms @ rest) s = main_loop E bridge ctx rest u"
proof (induction ms arbitrary: s)
  case (Cons m ms)
  from Cons.prems obtain step v where "handle_message E bridge ctx m s = Some (Ok step, v)"
    "(if step = ReturnNil then returnM ReturnNil else main_loop E bridge ctx ms) v = Some (Ok Continue, u)"
    by (auto simp: bindM_Ok_iff)
  with Cons.IH [of v] show ?case by (auto simp: bindM_def split: if_splits)
qed (simp add: returnM_def)

text \<open>A loop that ends has handled some messages and ends with the next one.\<close>

lemma main_loop_last:
  assumes "main_loop E bridge ctx msgs s = Some (r, t)" and "r \<noteq> Ok Continue"
  shows "\<exists>ms m rest u. msgs = ms @ m # rest \<and> main_loop E bridge ctx ms s = Some (Ok Continue, u) \<and>
    handle_message E bridge ctx m u = Some (r, t)"
  using assms
proof (induction msgs arbitrary: s)
  case (Cons m ms)
  obtain q u where h: "handle_message E bridge ctx m s = Some (q, u)"
    using Cons.prems(1) by (auto simp: bindM_def split: option.splits)
  show ?case
  proof (cases "q = Ok Continue")
    case True
    with Cons.prems(1) h have "main_loop E bridge ctx ms u = Some (r, t)" by (simp add: bindM_def)
    from Cons.IH [OF this Cons.prems(2)] obtain ms' m' rest v where "ms = ms' @ m' # rest"
      "main_loop E bridge ctx ms' u = Some (Ok Continue, v)" "handle_message E bridge ctx m' v = Some (r, t)" by blast
    with True h show ?thesis
      by - (rule exI [of _ "m # ms'"], rule exI [of _ m'], rule exI [of _ rest], rule exI [of _ v], simp add: bindM_def)
  next
    case False
    with Cons.prems(1) h have "q = r \<and> u = t"
      by (cases q) (auto simp: bindM_def returnM_def not_Continue)
    with h show ?thesis
      by - (rule exI [of _ "[]"], rule exI [of _ m], rule exI [of _ ms], rule exI [of _ s], simp add: returnM_def)
  qed
qed simp

lemma main_loop_stops:
  assumes "main_loop E bridge ctx ms s = Some (Ok Continue, u)" and "handle_message E bridge ctx m u = Some (r, t)"
    and "r \<noteq> Ok Continue"
  shows "main_loop E bridge ctx (ms @ m # rest) s = Some (r, t)"
  using assms(2,3) unfolding main_loop_append [OF assms(1)]
  by (cases r) (auto simp: bindM_def returnM_def not_Continue)

text \<open>
  A handler of a message ends with an error that its loop does not skip: the events before went well or were
  skipped, and the kinds of events that come first were all gone through.
\<close>

abbreviation created_all where
  "created_all E bridge \<equiv> handle_all (handleWithdrawCreated E bridge DaemonContext)
     (\<lambda>err. errors_Is err ErrTransactionAlreadyBurned \<or> errors_Is err ErrTransactionAlreadyMinted) ''failed to handle withdraw created''"

abbreviation expired_all where
  "expired_all E bridge \<equiv> handle_all (handleWithdrawExpired E bridge DaemonContext) (\<lambda>_. False) ''failed to handle withdraw expired''"

abbreviation ready_all where
  "ready_all E bridge \<equiv> handle_all (handleWithdrawReady E bridge DaemonContext)
     (\<lambda>err. errors_Is err ErrTransactionAlreadyBurned) ''failed to handle withdraw ready''"

abbreviation refund_expired_all where
  "refund_expired_all E bridge \<equiv> handle_all (handleRefundExpired E bridge DaemonContext) (\<lambda>_. False) ''failed to handle refund expired''"

abbreviation refund_ready_all where
  "refund_ready_all E bridge \<equiv> handle_all (handleRefundReady E bridge DaemonContext)
     (\<lambda>err. errors_Is err ErrTransactionAlreadyRefunded) ''failed to handle refund ready''"

inductive handler_fails ::
    "('w, 'tx, 'kp, 'id) env \<Rightarrow> 'id Bridge \<Rightarrow> message \<Rightarrow> ('w, 'kp) state \<Rightarrow> error \<Rightarrow> bool"
  for E bridge where
  mint_fails: "mes_Err sub = None \<Longrightarrow> mes_Events sub = before @ x # after \<Longrightarrow>
    mint_all E bridge before u = Some (Ok (), v) \<Longrightarrow>
    mint E bridge DaemonContext (Senders x) (Tx x) v = Some (Err e, y) \<Longrightarrow> \<not> errors_Is e ErrTransactionAlreadyMinted \<Longrightarrow>
    handler_fails E bridge (StellarData sub) u (Wrapped ''failed to handle mint'' e)"
| created_fails: "sub_Err data = None \<Longrightarrow> WithdrawCreatedEvents (sub_Events data) = before @ x # after \<Longrightarrow>
    created_all E bridge before u = Some (Ok (), v) \<Longrightarrow>
    handleWithdrawCreated E bridge DaemonContext x v = Some (Err e, y) \<Longrightarrow>
    \<not> errors_Is e ErrTransactionAlreadyBurned \<Longrightarrow> \<not> errors_Is e ErrTransactionAlreadyMinted \<Longrightarrow>
    handler_fails E bridge (TfchainData data) u (Wrapped ''failed to handle withdraw created'' e)"
| expired_fails: "sub_Err data = None \<Longrightarrow> created_all E bridge (WithdrawCreatedEvents (sub_Events data)) u = Some (Ok (), u1) \<Longrightarrow>
    WithdrawExpiredEvents (sub_Events data) = before @ x # after \<Longrightarrow> expired_all E bridge before u1 = Some (Ok (), v) \<Longrightarrow>
    handleWithdrawExpired E bridge DaemonContext x v = Some (Err e, y) \<Longrightarrow>
    handler_fails E bridge (TfchainData data) u (Wrapped ''failed to handle withdraw expired'' e)"
| ready_fails: "sub_Err data = None \<Longrightarrow> created_all E bridge (WithdrawCreatedEvents (sub_Events data)) u = Some (Ok (), u1) \<Longrightarrow>
    expired_all E bridge (WithdrawExpiredEvents (sub_Events data)) u1 = Some (Ok (), u2) \<Longrightarrow>
    WithdrawReadyEvents (sub_Events data) = before @ x # after \<Longrightarrow> ready_all E bridge before u2 = Some (Ok (), v) \<Longrightarrow>
    handleWithdrawReady E bridge DaemonContext x v = Some (Err e, y) \<Longrightarrow> \<not> errors_Is e ErrTransactionAlreadyBurned \<Longrightarrow>
    handler_fails E bridge (TfchainData data) u (Wrapped ''failed to handle withdraw ready'' e)"
| refund_expired_fails: "sub_Err data = None \<Longrightarrow> created_all E bridge (WithdrawCreatedEvents (sub_Events data)) u = Some (Ok (), u1) \<Longrightarrow>
    expired_all E bridge (WithdrawExpiredEvents (sub_Events data)) u1 = Some (Ok (), u2) \<Longrightarrow>
    ready_all E bridge (WithdrawReadyEvents (sub_Events data)) u2 = Some (Ok (), u3) \<Longrightarrow>
    RefundExpiredEvents (sub_Events data) = before @ x # after \<Longrightarrow> refund_expired_all E bridge before u3 = Some (Ok (), v) \<Longrightarrow>
    handleRefundExpired E bridge DaemonContext x v = Some (Err e, y) \<Longrightarrow>
    handler_fails E bridge (TfchainData data) u (Wrapped ''failed to handle refund expired'' e)"
| refund_ready_fails: "sub_Err data = None \<Longrightarrow> created_all E bridge (WithdrawCreatedEvents (sub_Events data)) u = Some (Ok (), u1) \<Longrightarrow>
    expired_all E bridge (WithdrawExpiredEvents (sub_Events data)) u1 = Some (Ok (), u2) \<Longrightarrow>
    ready_all E bridge (WithdrawReadyEvents (sub_Events data)) u2 = Some (Ok (), u3) \<Longrightarrow>
    refund_expired_all E bridge (RefundExpiredEvents (sub_Events data)) u3 = Some (Ok (), u4) \<Longrightarrow>
    RefundReadyEvents (sub_Events data) = before @ x # after \<Longrightarrow> refund_ready_all E bridge before u4 = Some (Ok (), v) \<Longrightarrow>
    handleRefundReady E bridge DaemonContext x v = Some (Err e, y) \<Longrightarrow> \<not> errors_Is e ErrTransactionAlreadyRefunded \<Longrightarrow>
    handler_fails E bridge (TfchainData data) u (Wrapped ''failed to handle refund ready'' e)"

lemma handle_all_fails:
  assumes "handle_all handler skip msg before s = Some (Ok (), u)" and "handler x u = Some (Err e, v)" and "\<not> skip e"
  shows "handle_all handler skip msg (before @ x # after) s = Some (Err (Wrapped msg e), v)"
  using assms(1)
proof (induction before arbitrary: s)
  case Nil
  with assms(2,3) show ?case by (simp add: tryM_def failM_def)
next
  case (Cons b before)
  obtain q w where "handler b s = Some (q, w)" using Cons.prems by (auto simp: tryM_def split: option.splits)
  with Cons show ?case by (cases q) (auto simp: tryM_def split: if_splits)
qed

lemma handler_fails_message:
  assumes "handler_fails E bridge m u e"
  shows "\<exists>v. handle_message E bridge DaemonContext m u = Some (Err e, v)"
  using assms
proof cases
  case (mint_fails sub before x after v e y)
  with handle_all_fails [OF mint_fails(5,6)] show ?thesis by (simp add: handle_stellar_def bindM_def)
next
  case (created_fails data before x after v e y)
  with handle_all_fails [OF created_fails(5,6)] show ?thesis by (simp add: handle_tfchain_def bindM_def)
next
  case (expired_fails data u1 before x after v e y)
  with handle_all_fails [OF expired_fails(6,7)] show ?thesis by (simp add: handle_tfchain_def bindM_def)
next
  case (ready_fails data u1 u2 before x after v e y)
  with handle_all_fails [OF ready_fails(7,8)] show ?thesis by (simp add: handle_tfchain_def bindM_def)
next
  case (refund_expired_fails data u1 u2 u3 before x after v e y)
  with handle_all_fails [OF refund_expired_fails(8,9)] show ?thesis by (simp add: handle_tfchain_def bindM_def)
next
  case (refund_ready_fails data u1 u2 u3 u4 before x after v e y)
  with handle_all_fails [OF refund_ready_fails(9,10)] show ?thesis by (simp add: handle_tfchain_def bindM_def)
qed

lemma handler_fails_error:
  assumes "handler_fails E bridge m u e"
  shows "e \<noteq> ContextCanceled"
  using assms by cases auto

lemma start_stream_not_cancelled: "start_stream E s \<noteq> Some (Err ContextCanceled, t)"
  by (auto simp: start_stream_def tryM_Some_iff bindM_Some_iff StreamBridgeStellarTransactions_def
      split: sum.splits)

text \<open>How the process ends, given how the loop does.\<close>

lemma daemon_main_started:
  assumes "NewBridge E (parse_flags text_flag bool_flag) file w = Inr (Some (Ok bridge, s))"
    and "start_stream E s = Some (Ok started, t)" and "main_loop E bridge DaemonContext msgs t = Some (r, u)"
  shows "daemon_main E text_flag bool_flag file w msgs =
    (case r of Ok Continue \<Rightarrow> None | Ok ReturnNil \<Rightarrow> Some ExitNormally
     | Err err \<Rightarrow> Some (if err \<noteq> ContextCanceled then ExitFatal err else ExitNormally) | Crash \<Rightarrow> Some Panic)"
proof -
  have "Start E bridge msgs s = Some (r, u)" using assms(2,3) by (simp add: Start_def bindM_def)
  with assms(1) show ?thesis by (simp add: daemon_main_def split: outcome.splits loop_step.splits)
qed

lemma message_ends_iff:
  "(\<exists>r t. handle_message E bridge ctx m s = Some (r, t) \<and> (r = Ok ReturnNil \<or> r = Err ContextCanceled)) \<longleftrightarrow>
     m = ContextDone \<or> carries_error m"
  using handle_message_ends [of E bridge ctx m s]
  by (cases m) (auto simp: handle_tfchain_def handle_stellar_def failM_def returnM_def)


text \<open>
  C35: A block whose events cannot be read takes the daemon down as if it had been asked to stop: the
  error of the subscription is dropped, since the loop wraps another variable that is nil, and the
  process ends normally.
\<close>

theorem unreadable_block_exits_normally:
  assumes "NewBridge E (parse_flags text_flag bool_flag) file w = Inr (Some (Ok bridge, s))"
    and "start_stream E s = Some (Ok started, t)"
    and "processEventsForHeight (chain E) height v = ((events, Some e), v')"
  shows "daemon_main E text_flag bool_flag file w
    (TfchainData \<lparr>sub_Events = events, sub_Err = Some e\<rparr> # msgs) = Some ExitNormally"
proof -
  let ?msg = "TfchainData \<lparr>sub_Events = events, sub_Err = Some e\<rparr>"
  have "Start E bridge (?msg # msgs) s = Some (Ok ReturnNil, t)"
    using assms(2) by (simp add: Start_def handle_tfchain_def bindM_def [of "start_stream E"])
  with assms(1) show ?thesis by (simp add: daemon_main_def)
qed

definition sample_flag :: "string \<Rightarrow> string option" where
  "sample_flag name = map_of [(''tfchainseed'', ''alice''), (''bridgewallet'', ''GBRIDGE'')] name"

lemma sample_daemon_starts:
  "\<exists>bridge s. NewBridge sample_env (parse_flags sample_flag (\<lambda>_. None)) None (sample_net fresh_chain) =
       Inr (Some (Ok bridge, s)) \<and> start_stream sample_env s = Some (Ok ([], Fetching []), s)"
proof -
  let ?cfg = "parse_flags sample_flag (\<lambda>_. None)"
  have cfg: "StellarConfigOf ?cfg = sample_config\<lparr>StellarSeed := []\<rparr>" "RescanBridgeAccount ?cfg = False"
    "TfchainSeed ?cfg = ''alice''"
    by (simp_all add: parse_flags_def sample_flag_def sample_config_def)
  have id: "NewSubstrateClient sample_chain url ''alice'' w = (Inr ''alice'', w)" for url w
    by (simp add: NewSubstrateClient_def sample_chain_def)
  obtain wal where wal: "NewStellarWallet sample_stellar (sample_config\<lparr>StellarSeed := []\<rparr>) (sample_net fresh_chain) =
      (Inr wal, sample_net fresh_chain)" and wcfg: "wal_config wal = sample_config\<lparr>StellarSeed := []\<rparr>"
    by (simp add: NewStellarWallet_def sample_defs getHorizonClient_def)
  let ?s = "\<lparr>wallet = wal, disk = None, world = sample_net fresh_chain\<rparr>"
  let ?b = "\<lparr>br_identity = ''alice'', br_config = ?cfg, br_depositFee = 10000000\<rparr>"
  have st: "stored ?s = Some zero_Blockheight" by (simp add: stored_def)
  have "start_bridge sample_env ?cfg ''alice'' ?s = Some (Ok ?b, ?s)"
    unfolding start_bridge_def sample_env_fields
    by (simp add: cfg worldM_eq sample_chain_fields bindM_def returnM_def)
  then have "NewBridge sample_env ?cfg None (sample_net fresh_chain) = Inr (Some (Ok ?b, ?s))"
    unfolding NewBridge_def sample_env_fields cfg id by (simp add: wal)
  moreover have "getHorizonClient (wal_config wal) = Inr DefaultTestNetClient"
    by (simp add: wcfg getHorizonClient_def sample_config_def)
  then have "start_stream sample_env ?s = Some (Ok ([], Fetching []), ?s)"
    unfolding start_stream_def sample_env_fields
    using sample_GetHeight [OF st]
    by (simp add: tryM_def zero_Blockheight_def StreamBridgeStellarTransactions_def bindM_def getM_def returnM_def)
  ultimately show ?thesis by blast
qed


text \<open>The sample chain has no blocks: reading the events of height 7 fails.\<close>

theorem unreadable_block_exits_normally_witness:
  "\<exists>e. daemon_main sample_env sample_flag (\<lambda>_. None) None (sample_net fresh_chain)
     [TfchainData \<lparr>sub_Events = empty_Events, sub_Err = Some e\<rparr>] = Some ExitNormally"
proof -
  obtain bridge s where start: "NewBridge sample_env (parse_flags sample_flag (\<lambda>_. None)) None (sample_net fresh_chain) =
       Inr (Some (Ok bridge, s))" "start_stream sample_env s = Some (Ok ([], Fetching []), s)"
    using sample_daemon_starts by blast
  have "\<exists>e. processEventsForHeight (chain sample_env) 7 (sample_net fresh_chain) =
      ((empty_Events, Some e), sample_net fresh_chain)"
    by (simp add: processEventsForHeight_def sample_env_fields sample_chain_def find_or_def sample_net_def fresh_chain_def)
  then show ?thesis using unreadable_block_exits_normally [OF start] by blast
qed

end
