(* ===== verification/BridgeTools.thy ===== *)
theory BridgeTools
  imports SubstrateClient
begin

text \<open>
  The two command line tools: \<open>tools/keygen/main.go\<close>, which makes one seed for both chains, and
  \<open>tools/eventParser/main.go\<close>, which logs the bridge events of a range of blocks.
\<close>

section \<open>Key generation\<close>

text \<open>
  The key libraries are parameters: the hexadecimal spelling of a seed, the key pair derived from a
  seed phrase with its address and public key, and the Stellar key pair of 32 raw bytes.
\<close>

record ('pair, 'kp) key_api =
  HexEncode :: "bytes \<Rightarrow> string"
  DeriveKeyPair :: "string \<Rightarrow> error + 'pair"
  SS58Address :: "'pair \<Rightarrow> nat \<Rightarrow> error + string"
  Public :: "'pair \<Rightarrow> bytes"
  FromRawSeed :: "bytes \<Rightarrow> error + 'kp"
  StellarSecret :: "'kp \<Rightarrow> string"
  StellarAccount :: "'kp \<Rightarrow> string"

record KeyringPair =
  krp_URI :: string
  krp_Address :: string
  krp_PublicKey :: bytes

definition keyringPairFromSecret :: "('pair, 'kp) key_api \<Rightarrow> string \<Rightarrow> nat \<Rightarrow> error + KeyringPair" where
  "keyringPairFromSecret K seedOrPhrase network =
     (case DeriveKeyPair K seedOrPhrase of
        Inl err \<Rightarrow> Inl err
      | Inr kyr \<Rightarrow>
          (case SS58Address K kyr network of
             Inl err \<Rightarrow> Inl err
           | Inr ss58Address \<Rightarrow>
               Inr \<lparr>krp_URI = seedOrPhrase, krp_Address = ss58Address, krp_PublicKey = Public K kyr\<rparr>))"

text \<open>\<open>strings.Trim\<close>: both ends lose every character of the cutset.\<close>

definition strings_Trim :: "string \<Rightarrow> string \<Rightarrow> string" where
  "strings_Trim s cutset =
     rev (dropWhile (\<lambda>c. c \<in> set cutset) (rev (dropWhile (\<lambda>c. c \<in> set cutset) s)))"

text \<open>The four lines printed: the raw seed, the SS58 address, the Stellar secret and address.\<close>

record key_report =
  raw_seed :: string
  ss58_address :: string
  stellar_secret :: string
  stellar_address :: string

definition keygen_main :: "('pair, 'kp) key_api \<Rightarrow> bytes \<Rightarrow> key_report outcome" where
  "keygen_main K seed =
     (case keyringPairFromSecret K (HexEncode K seed) 42 of
        Inl _ \<Rightarrow> Crash
      | Inr krp \<Rightarrow>
          (case hex_DecodeString (strings_Trim (krp_URI krp) ''0x'') of
             Inl _ \<Rightarrow> Crash
           | Inr b \<Rightarrow>
               (case FromRawSeed K (copy32 b) of
                  Inl _ \<Rightarrow> Crash
                | Inr k \<Rightarrow>
                    Ok \<lparr>raw_seed = krp_URI krp, ss58_address = krp_Address krp,
                      stellar_secret = StellarSecret K k, stellar_address = StellarAccount K k\<rparr>)))"

section \<open>The event parser\<close>

text \<open>A log line: its text, and the \<open>ID\<close> field where it has one.\<close>

type_synonym log_line = "string \<times> uint64 option"

definition log_EventRecords :: "EventRecords \<Rightarrow> log_line list" where
  "log_EventRecords events =
     map (\<lambda>h. (''found refund transaction ready event '' @ h, None)) (RefundTransactionReady events) @
     map (\<lambda>(i, _, _, _). (''found burn transaction created event'', Some i)) (BurnTransactionCreated events) @
     map (\<lambda>i. (''found burn transaction ready event'', Some i)) (BurnTransactionReady events) @
     map (\<lambda>(i, _, _). (''found burn transaction expired event'', Some i)) (BurnTransactionExpired events) @
     map (\<lambda>(h, _, _). (''found expired refund transaction '' @ h, None)) (RefundTransactionExpired events)"

text \<open>One height: the lines logged, and an error or nil.\<close>

definition log_height :: "('w, 'id) chain_api \<Rightarrow> uint32 \<Rightarrow> 'w \<Rightarrow> (log_line list \<times> error option) \<times> 'w" where
  "log_height C height w =
     (let fetching = (''fetching events for blockheight '' @ show_nat (unat height), None) in
      case GetEventsForBlock C height w of
        (Inl err, w1) \<Rightarrow>
          (([fetching, (''failed to decode block with height '' @ show_nat (unat height), None)], Some err), w1)
      | (Inr records, w1) \<Rightarrow> ((fetching # log_EventRecords records, None), w1))"

text \<open>\<open>for i := startHeight; i < endHeight; i++\<close>, with a panic at the first error.\<close>

fun log_heights :: "('w, 'id) chain_api \<Rightarrow> uint32 list \<Rightarrow> 'w \<Rightarrow> (log_line list \<times> unit outcome) \<times> 'w" where
  "log_heights C [] w = (([], Ok ()), w)"
| "log_heights C (i # heights) w =
     (case log_height C i w of
        ((lines, Some err), w1) \<Rightarrow> ((lines, Crash), w1)
      | ((lines, None), w1) \<Rightarrow>
          (case log_heights C heights w1 of ((rest_lines, ended), w2) \<Rightarrow> ((lines @ rest_lines, ended), w2)))"

definition eventParser_main :: "('w, 'id) chain_api \<Rightarrow> 'w \<Rightarrow> (log_line list \<times> unit outcome) \<times> 'w" where
  "eventParser_main C w =
     (case ManagerSubstrate C ''wss://tfchain.dev.grid.tf'' w of
        (Some err, w1) \<Rightarrow> (([], Crash), w1)
      | (None, w1) \<Rightarrow> log_heights C (map of_nat [1677587..<1677590]) w1)"

section \<open>Trimming the prefix\<close>

lemma hex_digit_0: "hex_digit 0 = CHR ''0''"
  by code_simp

lemma hex_digit_zero: "d < 16 \<Longrightarrow> hex_digit d = CHR ''0'' \<longleftrightarrow> d = 0"
  using from_hex_digit [of d] from_hex_digit [of 0] by (metis hex_digit_0 option.inject zero_less_numeral)

lemma hex_digit_x: "d < 16 \<Longrightarrow> hex_digit d \<noteq> CHR ''x''"
proof
  assume d: "d < 16" and x: "hex_digit d = CHR ''x''"
  have "from_hex_char (CHR ''x'') = None" by code_simp
  with from_hex_digit [OF d] x show False by simp
qed

lemma nibbles: "(of_char b :: nat) div 16 < 16" "(of_char b :: nat) mod 16 < 16"
  using nat_of_char_less_256 [of b] by linarith+

lemma hex_Cons: "hex_EncodeToString (b # bs) = hex_digit (of_char b div 16) # hex_digit (of_char b mod 16) # hex_EncodeToString bs"
  by (simp add: hex_EncodeToString_def)

lemma hex_append: "hex_EncodeToString (as @ bs) = hex_EncodeToString as @ hex_EncodeToString bs"
  by (simp add: hex_EncodeToString_def)

text \<open>After a first byte that is at least 16, trimming only takes what follows the last nonzero digit.\<close>

lemma trim_prefix:
  assumes "16 \<le> (of_char b :: nat)"
  shows "strings_Trim (''0x'' @ hex_EncodeToString (b # bs)) ''0x'' =
    rev (dropWhile (\<lambda>c. c = CHR ''0'' \<or> c = CHR ''x'') (rev (hex_EncodeToString (b # bs))))"
proof -
  have "hex_digit (of_char b div 16) \<noteq> CHR ''0''" "hex_digit (of_char b div 16) \<noteq> CHR ''x''"
    using hex_digit_zero [OF nibbles(1)] hex_digit_x [OF nibbles(1)] assms by auto
  then show ?thesis by (simp add: strings_Trim_def hex_Cons)
qed

lemma hex_odd: "odd (length s) \<Longrightarrow> \<exists>e. hex_DecodeString s = Inl e"
  using length_hex_decode [of s] by (cases "hex_DecodeString s") auto

text \<open>A last digit that is not zero stops the trim, and the prefix alone is lost.\<close>

lemma trim_seed:
  assumes "16 \<le> (of_char (hd seed) :: nat)" and "(of_char (last seed) :: nat) mod 16 \<noteq> 0" and "seed \<noteq> []"
  shows "strings_Trim (''0x'' @ hex_EncodeToString seed) ''0x'' = hex_EncodeToString seed"
proof -
  obtain b bs where seed: "seed = b # bs" using assms(3) by (cases seed) auto
  obtain as c where snoc: "seed = as @ [c]" using assms(3) by (cases seed rule: rev_cases) auto
  have last: "hex_digit (of_char c mod 16) \<noteq> CHR ''0''" "hex_digit (of_char c mod 16) \<noteq> CHR ''x''"
    using hex_digit_zero [OF nibbles(2)] hex_digit_x [OF nibbles(2)] assms(2) by (auto simp: snoc)
  have "rev (hex_EncodeToString seed) =
      hex_digit (of_char c mod 16) # hex_digit (of_char c div 16) # rev (hex_EncodeToString as)"
    by (simp add: snoc hex_append hex_EncodeToString_def)
  with last have "dropWhile (\<lambda>c. c = CHR ''0'' \<or> c = CHR ''x'') (rev (hex_EncodeToString seed)) = rev (hex_EncodeToString seed)"
    by simp
  with trim_prefix [of b bs] assms(1) show ?thesis by (simp add: seed)
qed

section \<open>Properties\<close>

text \<open>
  The key generator gives both chains the same seed when neither end of the seed's hexadecimal
  spelling is a zero digit.
\<close>

theorem keygen_same_seed:
  assumes "HexEncode K seed = ''0x'' @ hex_EncodeToString seed" and "length seed = 32"
    and "16 \<le> (of_char (hd seed) :: nat)" and "(of_char (last seed) :: nat) mod 16 \<noteq> 0"
    and "keygen_main K seed = Ok report"
  shows "raw_seed report = ''0x'' @ hex_EncodeToString seed \<and>
    (\<exists>k. FromRawSeed K seed = Inr k \<and> stellar_secret report = StellarSecret K k)"
proof -
  have "seed \<noteq> []" using assms(2) by auto
  note trim = trim_seed [OF assms(3,4) this]
  have "copy32 seed = seed" using assms(2) by (rule copy32_id)
  with assms(5) show ?thesis
    by (auto simp: keygen_main_def keyringPairFromSecret_def assms(1) trim [simplified] hex_decode_encode split: sum.splits)
qed

text \<open>
  C40: The key generator panics on every seed whose last hexadecimal digit is a zero and whose other
  end digits are not: the trim of the \<open>0x\<close> prefix also takes the trailing zero, and what is left has
  an odd length.
\<close>

theorem keygen_panics_on_trailing_zero:
  assumes "HexEncode K seed = ''0x'' @ hex_EncodeToString seed"
    and "seed = b # bs @ [c]" and "16 \<le> (of_char b :: nat)"
    and "(of_char c :: nat) mod 16 = 0" and "of_char c \<noteq> (0 :: nat)"
  shows "keygen_main K seed = Crash"
proof -
  have c: "(of_char c :: nat) div 16 \<noteq> 0" using assms(4,5) by auto
  have hi: "hex_digit (of_char c div 16) \<noteq> CHR ''0''" "hex_digit (of_char c div 16) \<noteq> CHR ''x''"
    using hex_digit_zero [OF nibbles(1)] hex_digit_x [OF nibbles(1)] c by auto
  have lo: "hex_digit (of_char c mod 16) = CHR ''0''" using hex_digit_zero [of 0] assms(4) by simp
  have h: "hex_EncodeToString seed = hex_EncodeToString (b # bs) @ [hex_digit (of_char c div 16), CHR ''0'']"
    using hex_append [of "b # bs" "[c]"] lo by (simp add: assms(2) hex_Cons hex_EncodeToString_def)
  have "strings_Trim (''0x'' @ hex_EncodeToString seed) ''0x'' =
      hex_EncodeToString (b # bs) @ [hex_digit (of_char c div 16)]"
    using trim_prefix [OF assms(3), of "bs @ [c]"] hi h by (simp add: assms(2))
  moreover have "even (length (hex_EncodeToString xs))" for xs
    by (induction xs) (simp_all add: hex_EncodeToString_def)
  ultimately obtain e where "hex_DecodeString (strings_Trim (''0x'' @ hex_EncodeToString seed) ''0x'') = Inl e"
    using hex_odd [of "hex_EncodeToString (b # bs) @ [hex_digit (of_char c div 16)]"] by auto
  then show ?thesis
    by (auto simp: keygen_main_def keyringPairFromSecret_def assms(1) split: sum.splits)
qed

text \<open>
  For every block the parser tool logs exactly the events that the daemon would handle: as many
  lines as there are events in the daemon's five lists, with the same ids and hashes.
\<close>

theorem parser_logs_handled_events:
  "log_EventRecords ev =
     map (\<lambda>e. (''found refund transaction ready event '' @ rr_Hash e, None)) (RefundReadyEvents (processEventRecords ev)) @
     map (\<lambda>e. (''found burn transaction created event'', Some (wc_ID e))) (WithdrawCreatedEvents (processEventRecords ev)) @
     map (\<lambda>e. (''found burn transaction ready event'', Some (wr_ID e))) (WithdrawReadyEvents (processEventRecords ev)) @
     map (\<lambda>e. (''found burn transaction expired event'', Some (we_ID e))) (WithdrawExpiredEvents (processEventRecords ev)) @
     map (\<lambda>e. (''found expired refund transaction '' @ re_Hash e, None)) (RefundExpiredEvents (processEventRecords ev))"
  by (simp add: log_EventRecords_def processEventRecords_def comp_def case_prod_beta)

text \<open>Sample key libraries, whose key pair is the seed itself.\<close>

definition sample_keys :: "(string, bytes) key_api" where
  "sample_keys = \<lparr>HexEncode = (\<lambda>b. ''0x'' @ hex_EncodeToString b), DeriveKeyPair = Inr, SS58Address = (\<lambda>k n. Inr ''5G''),
     Public = id, FromRawSeed = Inr, StellarSecret = id, StellarAccount = id\<rparr>"

theorem keygen_same_seed_witness:
  "\<exists>report. keygen_main sample_keys (replicate 32 (CHR 0xab)) = Ok report \<and>
     stellar_secret report = replicate 32 (CHR 0xab)"
proof -
  let ?seed = "replicate 32 (CHR 0xab)"
  have enc: "HexEncode sample_keys ?seed = ''0x'' @ hex_EncodeToString ?seed" by (simp add: sample_keys_def)
  have ends: "16 \<le> (of_char (hd ?seed) :: nat)" "(of_char (last ?seed) :: nat) mod 16 \<noteq> 0" by simp_all
  have "hex_DecodeString (strings_Trim (''0x'' @ hex_EncodeToString ?seed) ''0x'') = Inr ?seed"
    using trim_seed [OF ends] hex_decode_encode by simp
  then obtain report where run: "keygen_main sample_keys ?seed = Ok report"
    by (simp add: keygen_main_def keyringPairFromSecret_def sample_keys_def)
  from keygen_same_seed [OF enc _ ends run] run show ?thesis by (auto simp: sample_keys_def)
qed

theorem keygen_panics_on_trailing_zero_witness:
  "keygen_main sample_keys (CHR 0xab # replicate 30 (CHR 0xcd) @ [CHR 0x10]) = Crash"
  by (rule keygen_panics_on_trailing_zero [OF _ refl]) (simp_all add: sample_keys_def)

end
