(* ===== verification/PalletSearch.thy ===== *)
theory PalletSearch
  imports Main
begin

text \<open>
  The search that the pallet does in its list of validators: \<open>slice::binary_search\<close> of Rust's standard
  library, with its result on a sorted list. The pallet keeps the list sorted by inserting at the
  index that a failed search returns.
\<close>

text \<open>\<open>Ok(index)\<close> of an element that is there, or \<open>Err(index)\<close> of the place where it belongs.\<close>

datatype search_result = Found nat | Missing nat

text \<open>The loop on the half-open range from \<open>left\<close> to \<open>right\<close>.\<close>

function bisect :: "('a::linorder) list \<Rightarrow> 'a \<Rightarrow> nat \<Rightarrow> nat \<Rightarrow> search_result" where
  "bisect xs x left right =
     (if left < right then
        (let mid = left + (right - left) div 2 in
         if xs ! mid < x then bisect xs x (mid + 1) right
         else if x < xs ! mid then bisect xs x left mid
         else Found mid)
      else Missing left)"
  by pat_completeness auto
termination
  by (relation "measure (\<lambda>(xs, x, left, right). right - left)") (auto simp: Let_def)

declare bisect.simps [simp del]

definition binary_search :: "('a::linorder) list \<Rightarrow> 'a \<Rightarrow> search_result" where
  "binary_search xs x = bisect xs x 0 (length xs)"

text \<open>\<open>Vec::insert\<close> and \<open>Vec::remove\<close>, at an index in range.\<close>

definition insert_at :: "nat \<Rightarrow> 'a \<Rightarrow> 'a list \<Rightarrow> 'a list" where
  "insert_at i x xs = take i xs @ x # drop i xs"

definition remove_at :: "nat \<Rightarrow> 'a list \<Rightarrow> 'a list" where
  "remove_at i xs = take i xs @ drop (i + 1) xs"

section \<open>Correctness on sorted lists\<close>

text \<open>What a result says: the place of the element, or the place that separates the smaller from the larger.\<close>

fun search_correct :: "('a::linorder) list \<Rightarrow> 'a \<Rightarrow> search_result \<Rightarrow> bool" where
  "search_correct xs x (Found i) = (i < length xs \<and> xs ! i = x)"
| "search_correct xs x (Missing i) =
     (i \<le> length xs \<and> (\<forall>y\<in>set (take i xs). y < x) \<and> (\<forall>y\<in>set (drop i xs). x < y))"

lemma sorted_prefix_less:
  assumes "sorted xs" and "i < length xs" and "xs ! i < x"
  shows "\<forall>y\<in>set (take (Suc i) xs). y < x"
proof
  fix y assume "y \<in> set (take (Suc i) xs)"
  then obtain j where "j \<le> i" "y = xs ! j" using assms(2) by (auto simp: in_set_conv_nth less_Suc_eq_le)
  with assms show "y < x" by (meson le_less_trans sorted_nth_mono)
qed

lemma sorted_suffix_greater:
  assumes "sorted xs" and "i < length xs" and "x < xs ! i"
  shows "\<forall>y\<in>set (drop i xs). x < y"
proof
  fix y assume "y \<in> set (drop i xs)"
  then obtain k where "k < length xs - i" "y = xs ! (i + k)" by (auto simp: in_set_conv_nth)
  then have "i \<le> i + k" "i + k < length xs" "y = xs ! (i + k)" by auto
  with assms show "x < y" by (meson less_le_trans sorted_nth_mono)
qed

lemma bisect_correct:
  assumes "sorted xs" and "left \<le> right" and "right \<le> length xs"
    and "\<forall>y\<in>set (take left xs). y < x" and "\<forall>y\<in>set (drop right xs). x < y"
  shows "search_correct xs x (bisect xs x left right)"
  using assms
proof (induction xs x left right rule: bisect.induct)
  case (1 xs x left right)
  show ?case
  proof (cases "left < right")
    case False
    with "1.prems" show ?thesis by (simp add: bisect.simps)
  next
    case True
    let ?mid = "left + (right - left) div 2"
    have mid: "?mid < right" "left \<le> ?mid" "?mid < length xs" using True "1.prems"(3) by auto
    consider "xs ! ?mid < x" | "x < xs ! ?mid" | "xs ! ?mid = x" by (meson linorder_neqE)
    then show ?thesis
    proof cases
      case 1
      then show ?thesis
        using "1.IH"(1) [OF True refl] "1.prems" mid sorted_prefix_less [OF "1.prems"(1) mid(3)] True
        by (subst bisect.simps) (simp add: Let_def)
    next
      case 2
      then have "\<not> xs ! ?mid < x" by simp
      then show ?thesis
        using 2 "1.IH"(2) [OF True refl] "1.prems" mid sorted_suffix_greater [OF "1.prems"(1) mid(3)] True
        by (subst bisect.simps) (simp add: Let_def)
    next
      case 3
      then show ?thesis using mid True by (subst bisect.simps) (simp add: Let_def)
    qed
  qed
qed

lemma binary_search_correct: "sorted xs \<Longrightarrow> search_correct xs x (binary_search xs x)"
  unfolding binary_search_def by (rule bisect_correct) auto

text \<open>The two questions the pallet asks: is the element there, and where.\<close>

lemma binary_search_Found:
  assumes "sorted xs"
  shows "(\<exists>i. binary_search xs x = Found i) \<longleftrightarrow> x \<in> set xs"
proof (cases "binary_search xs x")
  case (Found i)
  with binary_search_correct [OF assms, of x] show ?thesis by (auto simp: in_set_conv_nth)
next
  case (Missing i)
  with binary_search_correct [OF assms, of x]
  have "\<forall>y\<in>set (take i xs @ drop i xs). y \<noteq> x" unfolding set_append by fastforce
  with Missing show ?thesis by auto
qed

lemma insert_found_place:
  assumes "sorted xs" and "binary_search xs x = Missing i"
  shows "sorted (insert_at i x xs)" and "set (insert_at i x xs) = insert x (set xs)"
    and "x \<notin> set xs" and "distinct xs \<Longrightarrow> distinct (insert_at i x xs)"
proof -
  have c: "i \<le> length xs" "\<forall>y\<in>set (take i xs). y < x" "\<forall>y\<in>set (drop i xs). x < y"
    using binary_search_correct [OF assms(1), of x] assms(2) by auto
  have xs: "set xs = set (take i xs) \<union> set (drop i xs)" by (metis append_take_drop_id set_append)
  have "sorted (take i xs @ drop i xs)" using assms(1) by simp
  then have "sorted (take i xs)" "sorted (drop i xs)" "\<forall>a\<in>set (take i xs). \<forall>b\<in>set (drop i xs). a \<le> b"
    unfolding sorted_append by auto
  with c(2,3) show "sorted (insert_at i x xs)"
    by (auto simp: insert_at_def sorted_append less_imp_le)
  show "set (insert_at i x xs) = insert x (set xs)" using xs by (auto simp: insert_at_def)
  show new: "x \<notin> set xs" using xs c(2,3) by auto
  assume "distinct xs"
  then have "distinct (take i xs @ drop i xs)" by simp
  moreover have "x \<notin> set (take i xs)" "x \<notin> set (drop i xs)" using c(2,3) by auto
  ultimately show "distinct (insert_at i x xs)"
    unfolding insert_at_def distinct_append by (simp del: append_take_drop_id)
qed

lemma remove_found_place:
  assumes "sorted xs" and "distinct xs" and "binary_search xs x = Found i"
  shows "sorted (remove_at i xs)" and "distinct (remove_at i xs)" and "set (remove_at i xs) = set xs - {x}"
proof -
  have i: "i < length xs" "xs ! i = x" using binary_search_correct [OF assms(1), of x] assms(3) by auto
  then have split: "xs = take i xs @ x # drop (i + 1) xs" by (metis Suc_eq_plus1 id_take_nth_drop)
  have "sorted (take i xs @ x # drop (i + 1) xs)" "distinct (take i xs @ x # drop (i + 1) xs)"
    using assms(1,2) unfolding split [symmetric] by simp_all
  then show "sorted (remove_at i xs)" "distinct (remove_at i xs)"
    unfolding remove_at_def sorted_append distinct_append by auto
  have "set xs = set (take i xs @ x # drop (i + 1) xs)" using split by (rule arg_cong)
  then have "set xs = insert x (set (take i xs) \<union> set (drop (i + 1) xs))" by simp
  moreover have "x \<notin> set (take i xs) \<union> set (drop (i + 1) xs)"
    using \<open>distinct (take i xs @ x # drop (i + 1) xs)\<close> by auto
  ultimately show "set (remove_at i xs) = set xs - {x}" by (auto simp: remove_at_def)
qed

end
