(* ===== verification/PalletBridge.thy ===== *)
theory PalletBridge
  imports BridgeEnv PalletSearch "HOL-Library.AList"
begin

text \<open>
  \<open>pallet-tft-bridge/src/lib.rs\<close>: the runtime module of the chain on which the daemons agree. It counts
  the votes for a mint, collects the signatures of a withdrawal or a refund, expires what stays open
  too long, and records what is executed. A storage map is an association list; the currency of the
  runtime, the origin check of the restricted calls, the retry interval and the decoding of a Stellar
  key are a parameter. The block number and the balances are 64 bits wide, as in \<open>mock.rs\<close>.
\<close>

section \<open>Data\<close>

record 'acc MintTransaction =
  mt_amount :: uint64
  mt_target :: 'acc
  mt_block :: uint64
  mt_votes :: uint32

record BurnTx =
  bt_block :: uint64
  bt_amount :: uint64
  bt_target :: bytes
  bt_signatures :: "StellarSignature list"
  bt_sequence_number :: uint64

record RefundTx =
  rt_block :: uint64
  rt_amount :: uint64
  rt_target :: bytes
  rt_tx_hash :: bytes
  rt_signatures :: "StellarSignature list"
  rt_sequence_number :: uint64

datatype 'acc pallet_event =
    MintTransactionProposed bytes 'acc uint64
  | MintTransactionVoted bytes
  | MintCompleted "'acc MintTransaction"
  | MintTransactionExpired bytes uint64 'acc
  | BurnTransactionCreated uint64 'acc bytes uint64
  | BurnTransactionProposed uint64 bytes uint64
  | BurnTransactionSignatureAdded uint64 StellarSignature
  | BurnTransactionReady uint64
  | BurnTransactionProcessed BurnTx
  | BurnTransactionExpired uint64 bytes uint64
  | RefundTransactionCreated bytes bytes uint64
  | RefundTransactionsignatureAdded bytes StellarSignature
  | RefundTransactionReady bytes
  | RefundTransactionProcessed RefundTx
  | RefundTransactionExpired bytes bytes uint64

text \<open>The errors of the pallet, a refused origin, and an error of the currency.\<close>

datatype pallet_error =
    ValidatorExists | ValidatorNotExists | TransactionValidatorExists | TransactionValidatorNotExists
  | MintTransactionExists | MintTransactionAlreadyExecuted | MintTransactionNotExists
  | BurnTransactionExists | BurnTransactionNotExists | BurnSignatureExists | EnoughBurnSignaturesPresent
  | RefundSignatureExists | BurnTransactionAlreadyExecuted | RefundTransactionNotExists
  | RefundTransactionAlreadyExecuted | EnoughRefundSignaturesPresent | NotEnoughBalanceToSwap
  | AmountIsLessThanWithdrawFee | AmountIsLessThanDepositFee | WrongParametersProvided
  | InvalidStellarPublicKey | BadOrigin | CurrencyError string

datatype 'acc origin = Root | Signed 'acc | Unsigned

text \<open>
  \<open>Currency\<close> and \<open>Burn\<close> of the runtime act on the balances \<open>'b\<close>; \<open>stellar_key\<close> is whether
  \<open>PublicKey::from_encoding\<close> accepts an address.
\<close>

record ('acc, 'b) pallet_config =
  deposit_creating :: "'acc \<Rightarrow> uint64 \<Rightarrow> 'b \<Rightarrow> 'b"
  withdraw :: "'acc \<Rightarrow> uint64 \<Rightarrow> 'b \<Rightarrow> string + 'b"
  usable_balance :: "'acc \<Rightarrow> 'b \<Rightarrow> uint64"
  on_unbalanced :: "uint64 \<Rightarrow> 'b \<Rightarrow> 'b"
  RestrictedOrigin :: "'acc origin \<Rightarrow> bool"
  RetryInterval :: uint32
  stellar_key :: "bytes \<Rightarrow> bool"

record ('acc, 'b) pallet =
  Validators :: "'acc list"
  FeeAccount :: "'acc option"
  MintTransactions :: "(bytes \<times> 'acc MintTransaction) list"
  ExecutedMintTransactions :: "(bytes \<times> 'acc MintTransaction) list"
  BurnTransactions :: "(uint64 \<times> BurnTx) list"
  ExecutedBurnTransactions :: "(uint64 \<times> BurnTx) list"
  RefundTransactions :: "(bytes \<times> RefundTx) list"
  ExecutedRefundTransactions :: "(bytes \<times> RefundTx) list"
  BurnTransactionID :: uint64
  WithdrawFee :: uint64
  DepositFee :: uint64
  block_number :: uint64
  Balances :: 'b
  EventLog :: "'acc pallet_event list"

text \<open>A call returns the new state; with an error FRAME rolls the storage back to what it was.\<close>

type_synonym ('acc, 'b) dispatch_result = "pallet_error + ('acc, 'b) pallet"

definition contains_key :: "('k \<times> 'v) list \<Rightarrow> 'k \<Rightarrow> bool" where
  "contains_key m k \<longleftrightarrow> map_of m k \<noteq> None"

text \<open>FRAME would drop the events of block 0; here they are kept.\<close>

definition deposit_event :: "'acc pallet_event \<Rightarrow> ('acc, 'b) pallet \<Rightarrow> ('acc, 'b) pallet" where
  "deposit_event e s = s\<lparr>EventLog := EventLog s @ [e]\<rparr>"

text \<open>\<open>(validators.len() / 2) + 1\<close>\<close>

definition quorum :: "('acc, 'b) pallet \<Rightarrow> nat" where
  "quorum s = length (Validators s) div 2 + 1"

text \<open>\<open>BurnTransactions::get\<close> and \<open>RefundTransactions::get\<close> give the default for a missing key.\<close>

definition default_burn :: BurnTx where
  "default_burn = \<lparr>bt_block = 0, bt_amount = 0, bt_target = [], bt_signatures = [], bt_sequence_number = 0\<rparr>"

definition default_refund :: RefundTx where
  "default_refund = \<lparr>rt_block = 0, rt_amount = 0, rt_target = [], rt_tx_hash = [], rt_signatures = [],
     rt_sequence_number = 0\<rparr>"

definition get_or :: "'v \<Rightarrow> ('k \<times> 'v) list \<Rightarrow> 'k \<Rightarrow> 'v" where
  "get_or d m k = (case map_of m k of None \<Rightarrow> d | Some v \<Rightarrow> v)"

section \<open>Validators\<close>

definition add_validator_account :: "('acc::linorder) \<Rightarrow> ('acc, 'b) pallet \<Rightarrow> ('acc, 'b) dispatch_result" where
  "add_validator_account target s =
     (case binary_search (Validators s) target of
        Found _ \<Rightarrow> Inl ValidatorExists
      | Missing index \<Rightarrow> Inr (s\<lparr>Validators := insert_at index target (Validators s)\<rparr>))"

definition remove_validator_account :: "('acc::linorder) \<Rightarrow> ('acc, 'b) pallet \<Rightarrow> ('acc, 'b) dispatch_result" where
  "remove_validator_account target s =
     (case binary_search (Validators s) target of
        Found index \<Rightarrow> Inr (s\<lparr>Validators := remove_at index (Validators s)\<rparr>)
      | Missing _ \<Rightarrow> Inl ValidatorNotExists)"

definition check_if_validator_exists :: "('acc::linorder) \<Rightarrow> ('acc, 'b) pallet \<Rightarrow> bool" where
  "check_if_validator_exists validator s =
     (case binary_search (Validators s) validator of Found _ \<Rightarrow> True | Missing _ \<Rightarrow> False)"

section \<open>Mints\<close>

definition pay_fee_account :: "('acc, 'b) pallet_config \<Rightarrow> uint64 \<Rightarrow> ('acc, 'b) pallet \<Rightarrow> ('acc, 'b) pallet" where
  "pay_fee_account C fee s =
     (case FeeAccount s of
        None \<Rightarrow> s
      | Some fee_account \<Rightarrow> s\<lparr>Balances := deposit_creating C fee_account fee (Balances s)\<rparr>)"

definition mint_tft ::
    "('acc, 'b) pallet_config \<Rightarrow> bytes \<Rightarrow> 'acc MintTransaction \<Rightarrow> ('acc, 'b) pallet \<Rightarrow> ('acc, 'b) dispatch_result" where
  "mint_tft C tx_id tx s =
     (if \<not> DepositFee s < mt_amount tx then Inl AmountIsLessThanDepositFee
      else
        (let new_amount = mt_amount tx - DepositFee s;
             s1 = s\<lparr>Balances := deposit_creating C (mt_target tx) new_amount (Balances s)\<rparr>;
             s2 = pay_fee_account C (DepositFee s) s1;
             tx' = tx\<lparr>mt_block := block_number s\<rparr>
         in Inr (deposit_event (MintCompleted tx')
              (s2\<lparr>MintTransactions := AList.delete tx_id (MintTransactions s2),
                  ExecutedMintTransactions := AList.update tx_id tx' (ExecutedMintTransactions s2)\<rparr>))))"

definition vote_stellar_mint_transaction ::
    "('acc, 'b) pallet_config \<Rightarrow> bytes \<Rightarrow> ('acc, 'b) pallet \<Rightarrow> ('acc, 'b) dispatch_result" where
  "vote_stellar_mint_transaction C tx_id s =
     (case map_of (MintTransactions s) tx_id of
        Some tx0 \<Rightarrow>
          (let tx = tx0\<lparr>mt_votes := mt_votes tx0 + 1\<rparr>;
               s1 = deposit_event (MintTransactionVoted tx_id) s;
               s2 = s1\<lparr>MintTransactions := AList.update tx_id tx (MintTransactions s1)\<rparr>
           in if quorum s2 \<le> unat (mt_votes tx) then mint_tft C tx_id tx s2 else Inr s2)
      | None \<Rightarrow> Inr s)"

definition propose_or_vote_stellar_mint_transaction ::
    "('acc::linorder, 'b) pallet_config \<Rightarrow> 'acc \<Rightarrow> bytes \<Rightarrow> 'acc \<Rightarrow> uint64 \<Rightarrow> ('acc, 'b) pallet
      \<Rightarrow> ('acc, 'b) dispatch_result" where
  "propose_or_vote_stellar_mint_transaction C validator tx_id target amount s =
     (if \<not> check_if_validator_exists validator s then Inl ValidatorNotExists
      else if contains_key (ExecutedMintTransactions s) tx_id then Inl MintTransactionAlreadyExecuted
      else if contains_key (MintTransactions s) tx_id then vote_stellar_mint_transaction C tx_id s
      else
        (let tx = \<lparr>mt_amount = amount, mt_target = target, mt_block = block_number s, mt_votes = 0\<rparr>;
             s1 = s\<lparr>MintTransactions := AList.update tx_id tx (MintTransactions s)\<rparr>;
             s2 = deposit_event (MintTransactionProposed tx_id target amount) s1
         in vote_stellar_mint_transaction C tx_id s2))"

section \<open>Withdrawals\<close>

definition burn_tft ::
    "('acc, 'b) pallet_config \<Rightarrow> 'acc \<Rightarrow> bytes \<Rightarrow> uint64 \<Rightarrow> ('acc, 'b) pallet \<Rightarrow> ('acc, 'b) dispatch_result" where
  "burn_tft C source target_stellar_address amount s =
     (if \<not> stellar_key C target_stellar_address then Inl InvalidStellarPublicKey
      else if \<not> WithdrawFee s < amount then Inl AmountIsLessThanWithdrawFee
      else if \<not> amount \<le> usable_balance C source (Balances s) then Inl NotEnoughBalanceToSwap
      else
        (case withdraw C source amount (Balances s) of
           Inl e \<Rightarrow> Inl (CurrencyError e)
         | Inr balances \<Rightarrow>
             (let s1 = s\<lparr>Balances := on_unbalanced C amount balances\<rparr>;
                  s2 = pay_fee_account C (WithdrawFee s) s1;
                  burn_id = BurnTransactionID s2 + 1;
                  burn_amount = amount - WithdrawFee s;
                  s3 = deposit_event (BurnTransactionCreated burn_id source target_stellar_address burn_amount)
                         (s2\<lparr>BurnTransactionID := burn_id\<rparr>);
                  tx = \<lparr>bt_block = block_number s3, bt_amount = burn_amount, bt_target = target_stellar_address,
                        bt_signatures = [], bt_sequence_number = 0\<rparr>
              in Inr (s3\<lparr>BurnTransactions := AList.update burn_id tx (BurnTransactions s3)\<rparr>))))"

text \<open>The two checks of a new signature: neither its key nor the signature itself is there yet.\<close>

definition signature_exists :: "StellarSignature list \<Rightarrow> bytes \<Rightarrow> bytes \<Rightarrow> bool" where
  "signature_exists sigs signature stellar_pub_key \<longleftrightarrow>
     stellar_pub_key \<in> StellarAddress ` set sigs \<or> signature \<in> Signature ` set sigs"

definition add_stellar_sig_burn_transaction ::
    "uint64 \<Rightarrow> bytes \<Rightarrow> bytes \<Rightarrow> uint64 \<Rightarrow> ('acc, 'b) pallet \<Rightarrow> ('acc, 'b) dispatch_result" where
  "add_stellar_sig_burn_transaction tx_id signature stellar_pub_key sequence_number s =
     (let tx0 = get_or default_burn (BurnTransactions s) tx_id in
      if length (bt_signatures tx0) = quorum s then Inl EnoughBurnSignaturesPresent
      else if signature_exists (bt_signatures tx0) signature stellar_pub_key then Inl BurnSignatureExists
      else
        (let sig = \<lparr>Signature = signature, StellarAddress = stellar_pub_key\<rparr>;
             tx = tx0\<lparr>bt_sequence_number := sequence_number, bt_signatures := bt_signatures tx0 @ [sig]\<rparr>;
             s1 = s\<lparr>BurnTransactions := AList.update tx_id tx (BurnTransactions s)\<rparr>;
             s2 = deposit_event (BurnTransactionSignatureAdded tx_id sig) s1
         in Inr (if quorum s2 \<le> length (bt_signatures tx) then deposit_event (BurnTransactionReady tx_id) s2
                 else s2)))"

text \<open>The rest of the function after the second \<open>contains_key\<close> is never reached.\<close>

definition propose_stellar_burn_transaction_or_add_sig ::
    "('acc::linorder) \<Rightarrow> uint64 \<Rightarrow> bytes \<Rightarrow> uint64 \<Rightarrow> bytes \<Rightarrow> bytes \<Rightarrow> uint64 \<Rightarrow> ('acc, 'b) pallet
      \<Rightarrow> ('acc, 'b) dispatch_result" where
  "propose_stellar_burn_transaction_or_add_sig validator tx_id target amount signature stellar_pub_key sequence_number s =
     (let burn_tx = get_or default_burn (BurnTransactions s) tx_id in
      if \<not> check_if_validator_exists validator s then Inl ValidatorNotExists
      else if contains_key (ExecutedBurnTransactions s) tx_id then Inl BurnTransactionAlreadyExecuted
      else if \<not> contains_key (BurnTransactions s) tx_id then Inl BurnTransactionNotExists
      else if bt_amount burn_tx \<noteq> amount then Inl WrongParametersProvided
      else if bt_target burn_tx \<noteq> target then Inl WrongParametersProvided
      else if contains_key (BurnTransactions s) tx_id
        then add_stellar_sig_burn_transaction tx_id signature stellar_pub_key sequence_number s
      else
        (let tx = burn_tx\<lparr>bt_block := block_number s, bt_sequence_number := sequence_number\<rparr>;
             s1 = s\<lparr>BurnTransactions := AList.update tx_id tx (BurnTransactions s)\<rparr>
         in case add_stellar_sig_burn_transaction tx_id signature stellar_pub_key sequence_number s1 of
              Inl e \<Rightarrow> Inl e
            | Inr s2 \<Rightarrow> Inr (deposit_event (BurnTransactionProposed tx_id target amount) s2)))"

definition set_stellar_burn_transaction_executed ::
    "('acc::linorder) \<Rightarrow> uint64 \<Rightarrow> ('acc, 'b) pallet \<Rightarrow> ('acc, 'b) dispatch_result" where
  "set_stellar_burn_transaction_executed validator tx_id s =
     (if \<not> check_if_validator_exists validator s then Inl ValidatorNotExists
      else if contains_key (ExecutedBurnTransactions s) tx_id then Inl BurnTransactionAlreadyExecuted
      else if \<not> contains_key (BurnTransactions s) tx_id then Inl BurnTransactionNotExists
      else
        (let tx = get_or default_burn (BurnTransactions s) tx_id in
         Inr (deposit_event (BurnTransactionProcessed tx)
           (s\<lparr>BurnTransactions := AList.delete tx_id (BurnTransactions s),
              ExecutedBurnTransactions := AList.update tx_id tx (ExecutedBurnTransactions s)\<rparr>))))"

section \<open>Refunds\<close>

definition add_stellar_sig_refund_transaction ::
    "bytes \<Rightarrow> bytes \<Rightarrow> bytes \<Rightarrow> uint64 \<Rightarrow> ('acc, 'b) pallet \<Rightarrow> ('acc, 'b) dispatch_result" where
  "add_stellar_sig_refund_transaction tx_hash signature stellar_pub_key sequence_number s =
     (let tx0 = get_or default_refund (RefundTransactions s) tx_hash in
      if length (rt_signatures tx0) = quorum s then Inl EnoughRefundSignaturesPresent
      else if signature_exists (rt_signatures tx0) signature stellar_pub_key then Inl RefundSignatureExists
      else
        (let sig = \<lparr>Signature = signature, StellarAddress = stellar_pub_key\<rparr>;
             tx = tx0\<lparr>rt_sequence_number := sequence_number, rt_signatures := rt_signatures tx0 @ [sig]\<rparr>;
             s1 = s\<lparr>RefundTransactions := AList.update tx_hash tx (RefundTransactions s)\<rparr>;
             s2 = deposit_event (RefundTransactionsignatureAdded tx_hash sig) s1
         in Inr (if quorum s2 \<le> length (rt_signatures tx) then deposit_event (RefundTransactionReady tx_hash) s2
                 else s2)))"

definition create_stellar_refund_transaction_or_add_sig ::
    "('acc::linorder) \<Rightarrow> bytes \<Rightarrow> bytes \<Rightarrow> uint64 \<Rightarrow> bytes \<Rightarrow> bytes \<Rightarrow> uint64 \<Rightarrow> ('acc, 'b) pallet
      \<Rightarrow> ('acc, 'b) dispatch_result" where
  "create_stellar_refund_transaction_or_add_sig validator tx_hash target amount signature stellar_pub_key sequence_number s =
     (if \<not> check_if_validator_exists validator s then Inl ValidatorNotExists
      else if contains_key (RefundTransactions s) tx_hash
        then add_stellar_sig_refund_transaction tx_hash signature stellar_pub_key sequence_number s
      else
        (let tx = \<lparr>rt_block = block_number s, rt_amount = amount, rt_target = target, rt_tx_hash = tx_hash,
                   rt_signatures = [], rt_sequence_number = sequence_number\<rparr>;
             s1 = s\<lparr>RefundTransactions := AList.update tx_hash tx (RefundTransactions s)\<rparr>
         in case add_stellar_sig_refund_transaction tx_hash signature stellar_pub_key sequence_number s1 of
              Inl e \<Rightarrow> Inl e
            | Inr s2 \<Rightarrow> Inr (deposit_event (RefundTransactionCreated tx_hash target amount) s2)))"

definition set_stellar_refund_transaction_executed ::
    "('acc::linorder) \<Rightarrow> bytes \<Rightarrow> ('acc, 'b) pallet \<Rightarrow> ('acc, 'b) dispatch_result" where
  "set_stellar_refund_transaction_executed validator tx_id s =
     (if \<not> check_if_validator_exists validator s then Inl ValidatorNotExists
      else if contains_key (ExecutedRefundTransactions s) tx_id then Inl RefundTransactionAlreadyExecuted
      else if \<not> contains_key (RefundTransactions s) tx_id then Inl RefundTransactionNotExists
      else
        (let tx = get_or default_refund (RefundTransactions s) tx_id in
         Inr (deposit_event (RefundTransactionProcessed tx)
           (s\<lparr>RefundTransactions := AList.delete tx_id (RefundTransactions s),
              ExecutedRefundTransactions := AList.update tx_id tx (ExecutedRefundTransactions s)\<rparr>))))"

end
