(* ===== verification/PalletCalls.thy ===== *)
theory PalletCalls
  imports PalletBridge
begin

text \<open>
  The outside of \<open>pallet-tft-bridge/src/lib.rs\<close>: the calls with their origin checks, the expiry of open
  transactions at the end of every block, the genesis state, and the chain as a step relation whose
  reachable states are those a daemon can meet.
\<close>

section \<open>The end of a block\<close>

text \<open>\<open>current_block_u64 - tx_block_u64 >= T::RetryInterval::get().into()\<close>, on 64 bits.\<close>

definition is_expired :: "('acc, 'b) pallet_config \<Rightarrow> uint64 \<Rightarrow> uint64 \<Rightarrow> bool" where
  "is_expired C current_block tx_block \<longleftrightarrow> ucast (RetryInterval C) \<le> current_block - tx_block"

text \<open>
  The two loops run over the entries that are there when they start. FRAME visits them in the order of
  their hashed keys; here it is the order of the list, and nothing below depends on it.
\<close>

fun expire_burns ::
    "('acc, 'b) pallet_config \<Rightarrow> uint64 \<Rightarrow> (uint64 \<times> BurnTx) list \<Rightarrow> ('acc, 'b) pallet \<Rightarrow> ('acc, 'b) pallet" where
  "expire_burns C block [] s = s"
| "expire_burns C block ((tx_id, tx) # txs) s =
     (if is_expired C block (bt_block tx) then
        (let tx' = tx\<lparr>bt_signatures := [], bt_sequence_number := 0, bt_block := block\<rparr>;
             s1 = s\<lparr>BurnTransactions := AList.update tx_id tx' (BurnTransactions s)\<rparr>
         in expire_burns C block txs
              (deposit_event (BurnTransactionExpired tx_id (bt_target tx) (bt_amount tx)) s1))
      else expire_burns C block txs s)"

fun expire_refunds ::
    "('acc, 'b) pallet_config \<Rightarrow> uint64 \<Rightarrow> (bytes \<times> RefundTx) list \<Rightarrow> ('acc, 'b) pallet \<Rightarrow> ('acc, 'b) pallet" where
  "expire_refunds C block [] s = s"
| "expire_refunds C block ((tx_id, tx) # txs) s =
     (if is_expired C block (rt_block tx) then
        (let tx' = tx\<lparr>rt_signatures := [], rt_sequence_number := 0, rt_block := block\<rparr>;
             s1 = s\<lparr>RefundTransactions := AList.update tx_id tx' (RefundTransactions s)\<rparr>
         in expire_refunds C block txs
              (deposit_event (RefundTransactionExpired tx_id (rt_target tx) (rt_amount tx)) s1))
      else expire_refunds C block txs s)"

definition on_finalize :: "('acc, 'b) pallet_config \<Rightarrow> uint64 \<Rightarrow> ('acc, 'b) pallet \<Rightarrow> ('acc, 'b) pallet" where
  "on_finalize C block s =
     (let s1 = expire_burns C block (BurnTransactions s) s
      in expire_refunds C block (RefundTransactions s1) s1)"

section \<open>The calls\<close>

datatype 'acc call =
    add_bridge_validator 'acc
  | remove_bridge_validator 'acc
  | set_fee_account 'acc
  | set_withdraw_fee uint64
  | set_deposit_fee uint64
  | swap_to_stellar bytes uint64
  | propose_or_vote_mint_transaction bytes 'acc uint64
  | propose_burn_transaction_or_add_sig uint64 bytes uint64 bytes bytes uint64
  | set_burn_transaction_executed uint64
  | create_refund_transaction_or_add_sig bytes bytes uint64 bytes bytes uint64
  | set_refund_transaction_executed bytes

text \<open>\<open>T::RestrictedOrigin::ensure_origin(origin)?\<close> and \<open>ensure_signed(origin)?\<close>, then the rest.\<close>

definition ensure_origin ::
    "('acc, 'b) pallet_config \<Rightarrow> 'acc origin \<Rightarrow> ('acc, 'b) dispatch_result \<Rightarrow> ('acc, 'b) dispatch_result" where
  "ensure_origin C origin rest = (if RestrictedOrigin C origin then rest else Inl BadOrigin)"

definition ensure_signed ::
    "'acc origin \<Rightarrow> ('acc \<Rightarrow> ('acc, 'b) dispatch_result) \<Rightarrow> ('acc, 'b) dispatch_result" where
  "ensure_signed origin rest = (case origin of Signed who \<Rightarrow> rest who | _ \<Rightarrow> Inl BadOrigin)"

fun dispatch ::
    "('acc::linorder, 'b) pallet_config \<Rightarrow> 'acc origin \<Rightarrow> 'acc call \<Rightarrow> ('acc, 'b) pallet \<Rightarrow> ('acc, 'b) dispatch_result" where
  "dispatch C origin (add_bridge_validator target) s = ensure_origin C origin (add_validator_account target s)"
| "dispatch C origin (remove_bridge_validator target) s = ensure_origin C origin (remove_validator_account target s)"
| "dispatch C origin (set_fee_account target) s = ensure_origin C origin (Inr (s\<lparr>FeeAccount := Some target\<rparr>))"
| "dispatch C origin (set_withdraw_fee amount) s = ensure_origin C origin (Inr (s\<lparr>WithdrawFee := amount\<rparr>))"
| "dispatch C origin (set_deposit_fee amount) s = ensure_origin C origin (Inr (s\<lparr>DepositFee := amount\<rparr>))"
| "dispatch C origin (swap_to_stellar target_stellar_address amount) s =
     ensure_signed origin (\<lambda>source. burn_tft C source target_stellar_address amount s)"
| "dispatch C origin (propose_or_vote_mint_transaction transaction target amount) s =
     ensure_signed origin (\<lambda>validator. propose_or_vote_stellar_mint_transaction C validator transaction target amount s)"
| "dispatch C origin (propose_burn_transaction_or_add_sig transaction_id target amount signature stellar_pub_key sequence_number) s =
     ensure_signed origin (\<lambda>validator.
       propose_stellar_burn_transaction_or_add_sig validator transaction_id target amount signature stellar_pub_key
         sequence_number s)"
| "dispatch C origin (set_burn_transaction_executed transaction_id) s =
     ensure_signed origin (\<lambda>validator. set_stellar_burn_transaction_executed validator transaction_id s)"
| "dispatch C origin (create_refund_transaction_or_add_sig tx_hash target amount signature stellar_pub_key sequence_number) s =
     ensure_signed origin (\<lambda>validator.
       create_stellar_refund_transaction_or_add_sig validator tx_hash target amount signature stellar_pub_key
         sequence_number s)"
| "dispatch C origin (set_refund_transaction_executed tx_hash) s =
     ensure_signed origin (\<lambda>validator. set_stellar_refund_transaction_executed validator tx_hash s)"

section \<open>Genesis\<close>

record 'acc GenesisConfig =
  validator_accounts :: "'acc list option"
  fee_account :: "'acc option"
  withdraw_fee :: uint64
  deposit_fee :: uint64

definition default_GenesisConfig :: "'acc GenesisConfig" where
  "default_GenesisConfig = \<lparr>validator_accounts = None, fee_account = None, withdraw_fee = 0, deposit_fee = 0\<rparr>"

text \<open>Storage is empty before \<open>build\<close>; \<open>balances\<close> is the genesis of the currency.\<close>

definition genesis_build :: "'acc GenesisConfig \<Rightarrow> 'b \<Rightarrow> ('acc, 'b) pallet" where
  "genesis_build config balances =
     \<lparr>Validators = (case validator_accounts config of None \<Rightarrow> [] | Some accounts \<Rightarrow> accounts),
      FeeAccount = fee_account config, MintTransactions = [], ExecutedMintTransactions = [],
      BurnTransactions = [], ExecutedBurnTransactions = [], RefundTransactions = [],
      ExecutedRefundTransactions = [], BurnTransactionID = 0, WithdrawFee = withdraw_fee config,
      DepositFee = deposit_fee config, block_number = 0, Balances = balances, EventLog = []\<rparr>"

section \<open>The chain as a step relation\<close>

text \<open>
  A step is a call that succeeds, a change of the balances by another module, or the end of a block: the
  hook runs, and the next block starts with an empty event log. A call that fails leaves no trace. The
  two 64-bit counters, of blocks and of withdrawals, do not come to their end.
\<close>

definition next_block :: "('acc, 'b) pallet_config \<Rightarrow> ('acc, 'b) pallet \<Rightarrow> ('acc, 'b) pallet" where
  "next_block C s =
     (let s1 = on_finalize C (block_number s) s in s1\<lparr>block_number := block_number s + 1, EventLog := []\<rparr>)"

inductive pallet_step ::
    "('acc::linorder, 'b) pallet_config \<Rightarrow> ('acc, 'b) pallet \<Rightarrow> ('acc, 'b) pallet \<Rightarrow> bool"
  for C where
  step_call: "dispatch C origin c s = Inr t \<Longrightarrow> BurnTransactionID s < - 1 \<Longrightarrow> pallet_step C s t"
| step_balances: "pallet_step C s (s\<lparr>Balances := b\<rparr>)"
| step_block: "block_number s < - 1 \<Longrightarrow> pallet_step C s (next_block C s)"

inductive pallet_steps ::
    "('acc::linorder, 'b) pallet_config \<Rightarrow> ('acc, 'b) pallet \<Rightarrow> ('acc, 'b) pallet \<Rightarrow> bool"
  for C where
  steps_refl: "pallet_steps C s s"
| steps_step: "pallet_steps C s t \<Longrightarrow> pallet_step C t u \<Longrightarrow> pallet_steps C s u"

text \<open>The states of a chain whose genesis lists its validators in order, without repetition.\<close>

definition sorted_genesis :: "('acc::linorder) GenesisConfig \<Rightarrow> bool" where
  "sorted_genesis config \<longleftrightarrow>
     (case validator_accounts config of None \<Rightarrow> True | Some accounts \<Rightarrow> sorted accounts \<and> distinct accounts)"

inductive reachable :: "('acc::linorder, 'b) pallet_config \<Rightarrow> ('acc, 'b) pallet \<Rightarrow> bool" for C where
  reach_genesis: "sorted_genesis config \<Longrightarrow> reachable C (genesis_build config balances)"
| reach_step: "reachable C s \<Longrightarrow> pallet_step C s t \<Longrightarrow> reachable C t"

inductive_cases pallet_stepE: "pallet_step C s t"

lemma reachable_steps: "pallet_steps C s t \<Longrightarrow> reachable C s \<Longrightarrow> reachable C t"
  by (induction rule: pallet_steps.induct) (auto intro: reach_step)

lemma steps_trans:
  assumes "pallet_steps C t u" and "pallet_steps C s t"
  shows "pallet_steps C s u"
  using assms by (induction rule: pallet_steps.induct) (auto intro: steps_step)

end
