(* ===== verification/PalletInvariant.thy ===== *)
theory PalletInvariant
  imports PalletCalls
begin

text \<open>
  What holds in every reachable state of the pallet: the list of validators is sorted, so the binary
  searches answer membership; nothing is open and executed at once; the signatures of an open
  transaction have distinct keys; its block is not in the future, so the subtraction of the expiry
  does not wrap; the ids of withdrawals are the ones given out so far.
\<close>

section \<open>The invariant\<close>

definition sigs_ok :: "StellarSignature list \<Rightarrow> bool" where
  "sigs_ok sigs \<longleftrightarrow> distinct (map StellarAddress sigs) \<and> distinct (map Signature sigs)"

definition burn_ok :: "uint64 \<Rightarrow> uint64 \<Rightarrow> uint64 \<Rightarrow> BurnTx \<Rightarrow> bool" where
  "burn_ok now last_id i tx \<longleftrightarrow> sigs_ok (bt_signatures tx) \<and> bt_block tx \<le> now \<and> 0 < i \<and> i \<le> last_id"

definition refund_ok :: "uint64 \<Rightarrow> bytes \<Rightarrow> RefundTx \<Rightarrow> bool" where
  "refund_ok now h tx \<longleftrightarrow> sigs_ok (rt_signatures tx) \<and> rt_block tx \<le> now \<and> rt_tx_hash tx = h"

definition map_invariant :: "('k \<Rightarrow> 'v \<Rightarrow> bool) \<Rightarrow> ('k \<times> 'v) list \<Rightarrow> bool" where
  "map_invariant P m \<longleftrightarrow> distinct (map fst m) \<and> (\<forall>k v. map_of m k = Some v \<longrightarrow> P k v)"

definition disjoint_keys :: "('k \<times> 'v) list \<Rightarrow> ('k \<times> 'w) list \<Rightarrow> bool" where
  "disjoint_keys m n \<longleftrightarrow> (\<forall>k. map_of m k = None \<or> map_of n k = None)"

definition pallet_inv :: "('acc::linorder, 'b) pallet \<Rightarrow> bool" where
  "pallet_inv s \<longleftrightarrow>
     sorted (Validators s) \<and> distinct (Validators s) \<and>
     map_invariant (\<lambda>_ tx. mt_block tx \<le> block_number s) (MintTransactions s) \<and>
     map_invariant (burn_ok (block_number s) (BurnTransactionID s)) (BurnTransactions s) \<and>
     map_invariant (\<lambda>i _. 0 < i \<and> i \<le> BurnTransactionID s) (ExecutedBurnTransactions s) \<and>
     map_invariant (refund_ok (block_number s)) (RefundTransactions s) \<and>
     disjoint_keys (MintTransactions s) (ExecutedMintTransactions s) \<and>
     disjoint_keys (BurnTransactions s) (ExecutedBurnTransactions s)"

named_theorems storage \<open>how the storage operations act on the maps\<close>

lemma map_of_update [simp]: "map_of (AList.update k v m) = (map_of m)(k \<mapsto> v)"
  by (rule update_conv')

lemma map_of_delete [simp]: "map_of (AList.delete k m) = (map_of m)(k := None)"
  by (rule delete_conv')

lemma map_invariant_Nil [simp]: "map_invariant P []"
  by (simp add: map_invariant_def)

lemma map_invariant_update [storage]: "map_invariant P m \<Longrightarrow> P k v \<Longrightarrow> map_invariant P (AList.update k v m)"
  by (simp add: map_invariant_def distinct_update)

lemma map_invariant_delete [storage]: "map_invariant P m \<Longrightarrow> map_invariant P (AList.delete k m)"
  by (simp add: map_invariant_def distinct_delete)

lemma map_invariant_mono: "map_invariant P m \<Longrightarrow> (\<And>k v. P k v \<Longrightarrow> Q k v) \<Longrightarrow> map_invariant Q m"
  by (auto simp: map_invariant_def)

lemma map_invariantD: "map_invariant P m \<Longrightarrow> map_of m k = Some v \<Longrightarrow> P k v"
  by (simp add: map_invariant_def)

lemma disjoint_keysD: "disjoint_keys m n \<Longrightarrow> map_of m k = Some v \<Longrightarrow> map_of n k = None"
  by (auto simp: disjoint_keys_def dest: spec [of _ k])

lemma disjoint_keys_storage [storage]:
  "disjoint_keys m n \<Longrightarrow> map_of n k = None \<Longrightarrow> disjoint_keys (AList.update k v m) n"
  "disjoint_keys m n \<Longrightarrow> disjoint_keys (AList.delete k m) n"
  "disjoint_keys m n \<Longrightarrow> disjoint_keys (AList.delete k m) (AList.update k w n)"
  "disjoint_keys [] n"
  by (simp_all add: disjoint_keys_def)

lemma contains_key_iff [simp]: "contains_key m k \<longleftrightarrow> (\<exists>v. map_of m k = Some v)"
  by (auto simp: contains_key_def)

lemma get_or_Some [simp]: "map_of m k = Some v \<Longrightarrow> get_or d m k = v"
  by (simp add: get_or_def)

lemma deposit_event_simps [simp]:
  "Validators (deposit_event e s) = Validators s" "FeeAccount (deposit_event e s) = FeeAccount s"
  "MintTransactions (deposit_event e s) = MintTransactions s"
  "ExecutedMintTransactions (deposit_event e s) = ExecutedMintTransactions s"
  "BurnTransactions (deposit_event e s) = BurnTransactions s"
  "ExecutedBurnTransactions (deposit_event e s) = ExecutedBurnTransactions s"
  "RefundTransactions (deposit_event e s) = RefundTransactions s"
  "ExecutedRefundTransactions (deposit_event e s) = ExecutedRefundTransactions s"
  "BurnTransactionID (deposit_event e s) = BurnTransactionID s" "WithdrawFee (deposit_event e s) = WithdrawFee s"
  "DepositFee (deposit_event e s) = DepositFee s" "block_number (deposit_event e s) = block_number s"
  "Balances (deposit_event e s) = Balances s" "EventLog (deposit_event e s) = EventLog s @ [e]"
  "quorum (deposit_event e s) = quorum s"
  by (simp_all add: deposit_event_def quorum_def)

lemma pay_fee_account_simps [simp]:
  "Validators (pay_fee_account C n s) = Validators s" "FeeAccount (pay_fee_account C n s) = FeeAccount s"
  "MintTransactions (pay_fee_account C n s) = MintTransactions s"
  "ExecutedMintTransactions (pay_fee_account C n s) = ExecutedMintTransactions s"
  "BurnTransactions (pay_fee_account C n s) = BurnTransactions s"
  "ExecutedBurnTransactions (pay_fee_account C n s) = ExecutedBurnTransactions s"
  "RefundTransactions (pay_fee_account C n s) = RefundTransactions s"
  "ExecutedRefundTransactions (pay_fee_account C n s) = ExecutedRefundTransactions s"
  "BurnTransactionID (pay_fee_account C n s) = BurnTransactionID s" "WithdrawFee (pay_fee_account C n s) = WithdrawFee s"
  "DepositFee (pay_fee_account C n s) = DepositFee s" "block_number (pay_fee_account C n s) = block_number s"
  "EventLog (pay_fee_account C n s) = EventLog s" "quorum (pay_fee_account C n s) = quorum s"
  by (simp_all add: pay_fee_account_def quorum_def split: option.splits)

text \<open>The invariant depends only on the storage.\<close>

lemma pallet_inv_cong:
  assumes "pallet_inv s" and "Validators t = Validators s" "MintTransactions t = MintTransactions s"
    "ExecutedMintTransactions t = ExecutedMintTransactions s" "BurnTransactions t = BurnTransactions s"
    "ExecutedBurnTransactions t = ExecutedBurnTransactions s" "RefundTransactions t = RefundTransactions s"
    "BurnTransactionID t = BurnTransactionID s" "block_number t = block_number s"
  shows "pallet_inv t"
  using assms by (simp add: pallet_inv_def)

lemma sigs_ok_snoc:
  "sigs_ok sigs \<Longrightarrow> \<not> signature_exists sigs signature key \<Longrightarrow>
     sigs_ok (sigs @ [\<lparr>Signature = signature, StellarAddress = key\<rparr>])"
  by (auto simp: sigs_ok_def signature_exists_def)

lemma sigs_ok_Nil [simp]: "sigs_ok []"
  by (simp add: sigs_ok_def)

section \<open>Every operation preserves it\<close>

lemma pallet_inv_validators: "pallet_inv s \<Longrightarrow> sorted xs \<Longrightarrow> distinct xs \<Longrightarrow> pallet_inv (s\<lparr>Validators := xs\<rparr>)"
  by (simp add: pallet_inv_def)

lemma pallet_inv_sorted: "pallet_inv s \<Longrightarrow> sorted (Validators s) \<and> distinct (Validators s)"
  by (simp add: pallet_inv_def)

lemma add_validator_inv: "pallet_inv s \<Longrightarrow> add_validator_account a s = Inr t \<Longrightarrow> pallet_inv t"
  using insert_found_place [of "Validators s" a] pallet_inv_sorted [of s]
  by (auto simp: add_validator_account_def intro: pallet_inv_validators split: search_result.splits)

lemma remove_validator_inv: "pallet_inv s \<Longrightarrow> remove_validator_account a s = Inr t \<Longrightarrow> pallet_inv t"
  using remove_found_place [of "Validators s" a] pallet_inv_sorted [of s]
  by (auto simp: remove_validator_account_def intro: pallet_inv_validators split: search_result.splits)

lemma check_if_validator_exists_iff:
  "pallet_inv s \<Longrightarrow> check_if_validator_exists a s \<longleftrightarrow> a \<in> set (Validators s)"
  using binary_search_Found [of "Validators s" a] pallet_inv_sorted [of s]
  by (auto simp: check_if_validator_exists_def split: search_result.splits)

text \<open>Mints.\<close>

lemma mint_tft_storage:
  assumes "mint_tft C h tx s = Inr t"
  shows "DepositFee s < mt_amount tx"
    "Validators t = Validators s" "MintTransactions t = AList.delete h (MintTransactions s)"
    "ExecutedMintTransactions t = AList.update h (tx\<lparr>mt_block := block_number s\<rparr>) (ExecutedMintTransactions s)"
    "BurnTransactions t = BurnTransactions s" "ExecutedBurnTransactions t = ExecutedBurnTransactions s"
    "RefundTransactions t = RefundTransactions s" "ExecutedRefundTransactions t = ExecutedRefundTransactions s"
    "BurnTransactionID t = BurnTransactionID s" "block_number t = block_number s"
    "EventLog t = EventLog s @ [MintCompleted (tx\<lparr>mt_block := block_number s\<rparr>)]"
  using assms by (auto simp: mint_tft_def Let_def split: if_splits)

lemma mint_tft_inv:
  assumes "pallet_inv s" and "mint_tft C h tx s = Inr t"
  shows "pallet_inv t"
  using assms(1) unfolding pallet_inv_def mint_tft_storage [OF assms(2)]
  by (auto simp: storage)

lemma vote_inv:
  assumes inv: "pallet_inv s" and "vote_stellar_mint_transaction C h s = Inr t"
  shows "pallet_inv t"
proof (cases "map_of (MintTransactions s) h")
  case None
  with assms show ?thesis by (simp add: vote_stellar_mint_transaction_def)
next
  case (Some tx)
  let ?tx = "tx\<lparr>mt_votes := mt_votes tx + 1\<rparr>"
  let ?s = "(deposit_event (MintTransactionVoted h) s)\<lparr>MintTransactions := AList.update h ?tx (MintTransactions s)\<rparr>"
  have "mt_block tx \<le> block_number s" using inv Some map_invariantD unfolding pallet_inv_def by fastforce
  moreover have "map_of (ExecutedMintTransactions s) h = None"
    using inv Some disjoint_keysD unfolding pallet_inv_def by fast
  ultimately have "pallet_inv ?s"
    using inv unfolding pallet_inv_def by (auto simp: storage)
  with assms(2) Some mint_tft_inv [of ?s] show ?thesis
    by (auto simp: vote_stellar_mint_transaction_def Let_def split: if_splits)
qed

lemma propose_mint_inv:
  assumes inv: "pallet_inv s" and "propose_or_vote_stellar_mint_transaction C v h a n s = Inr t"
  shows "pallet_inv t"
proof -
  let ?tx = "\<lparr>mt_amount = n, mt_target = a, mt_block = block_number s, mt_votes = 0\<rparr>"
  let ?s = "deposit_event (MintTransactionProposed h a n) (s\<lparr>MintTransactions := AList.update h ?tx (MintTransactions s)\<rparr>)"
  have "map_of (ExecutedMintTransactions s) h = None \<Longrightarrow> pallet_inv ?s"
    using inv unfolding pallet_inv_def
    by (auto simp: storage)
  with assms vote_inv [of ?s] vote_inv [OF inv] show ?thesis
    by (auto simp: propose_or_vote_stellar_mint_transaction_def Let_def split: if_splits)
qed

text \<open>Withdrawals.\<close>

lemma burn_tft_Inr:
  assumes "burn_tft C a target n s = Inr t"
  shows "\<exists>b. withdraw C a n (Balances s) = Inr b" "WithdrawFee s < n" "n \<le> usable_balance C a (Balances s)"
    "stellar_key C target" "Validators t = Validators s" "MintTransactions t = MintTransactions s"
    "ExecutedMintTransactions t = ExecutedMintTransactions s"
    "BurnTransactions t = AList.update (BurnTransactionID s + 1)
       \<lparr>bt_block = block_number s, bt_amount = n - WithdrawFee s, bt_target = target, bt_signatures = [],
        bt_sequence_number = 0\<rparr> (BurnTransactions s)"
    "ExecutedBurnTransactions t = ExecutedBurnTransactions s" "RefundTransactions t = RefundTransactions s"
    "ExecutedRefundTransactions t = ExecutedRefundTransactions s" "BurnTransactionID t = BurnTransactionID s + 1"
    "block_number t = block_number s"
    "EventLog t = EventLog s @ [BurnTransactionCreated (BurnTransactionID s + 1) a target (n - WithdrawFee s)]"
  using assms by (auto simp: burn_tft_def Let_def split: if_splits sum.splits)

lemma next_id: "i < - 1 \<Longrightarrow> (j :: uint64) \<le> i \<Longrightarrow> j \<le> i + 1 \<and> j \<noteq> i + 1 \<and> 0 < i + 1"
  by unat_arith

lemma burn_tft_inv:
  assumes inv: "pallet_inv s" and run: "burn_tft C a target n s = Inr t" and "BurnTransactionID s < - 1"
  shows "pallet_inv t"
proof -
  note ids = next_id [OF assms(3)]
  have "map_invariant (burn_ok (block_number s) (BurnTransactionID s + 1)) (BurnTransactions s)"
    using inv ids by (auto simp: pallet_inv_def burn_ok_def elim!: map_invariant_mono)
  moreover have "map_invariant (\<lambda>i _. 0 < i \<and> i \<le> BurnTransactionID s + 1) (ExecutedBurnTransactions s)"
    using inv ids by (auto simp: pallet_inv_def elim!: map_invariant_mono)
  moreover have "\<not> BurnTransactionID s + 1 \<le> BurnTransactionID s" using ids by force
  then have "map_of (ExecutedBurnTransactions s) (BurnTransactionID s + 1) = None"
    using inv map_invariantD unfolding pallet_inv_def by fastforce
  moreover have "0 < BurnTransactionID s + 1" using ids by blast
  ultimately show ?thesis
    using inv unfolding pallet_inv_def burn_tft_Inr [OF run]
    by (auto simp: burn_ok_def intro!: map_invariant_update disjoint_keys_storage)
qed

lemma add_burn_sig_Inr:
  assumes "add_stellar_sig_burn_transaction i signature key seqno s = Inr t"
  defines "tx \<equiv> get_or default_burn (BurnTransactions s) i"
    and "sig \<equiv> \<lparr>Signature = signature, StellarAddress = key\<rparr>"
  shows "length (bt_signatures tx) \<noteq> quorum s" "\<not> signature_exists (bt_signatures tx) signature key"
    "Validators t = Validators s" "MintTransactions t = MintTransactions s"
    "ExecutedMintTransactions t = ExecutedMintTransactions s"
    "BurnTransactions t = AList.update i (tx\<lparr>bt_sequence_number := seqno, bt_signatures := bt_signatures tx @ [sig]\<rparr>)
       (BurnTransactions s)"
    "ExecutedBurnTransactions t = ExecutedBurnTransactions s" "RefundTransactions t = RefundTransactions s"
    "ExecutedRefundTransactions t = ExecutedRefundTransactions s" "BurnTransactionID t = BurnTransactionID s"
    "block_number t = block_number s"
    "EventLog t = EventLog s @ [BurnTransactionSignatureAdded i sig] @
       (if quorum s \<le> length (bt_signatures tx) + 1 then [BurnTransactionReady i] else [])"
  using assms(1) unfolding tx_def sig_def
  by (auto simp: add_stellar_sig_burn_transaction_def Let_def quorum_def split: if_splits)

lemma propose_burn_Inr:
  assumes "propose_stellar_burn_transaction_or_add_sig v i target amount signature key seqno s = Inr t"
  shows "check_if_validator_exists v s" "map_of (ExecutedBurnTransactions s) i = None"
    "\<exists>tx. map_of (BurnTransactions s) i = Some tx \<and> bt_amount tx = amount \<and> bt_target tx = target"
    "add_stellar_sig_burn_transaction i signature key seqno s = Inr t"
  using assms by (auto simp: propose_stellar_burn_transaction_or_add_sig_def Let_def split: if_splits)

lemma propose_burn_inv:
  assumes inv: "pallet_inv s"
    and "propose_stellar_burn_transaction_or_add_sig v i target amount signature key seqno s = Inr t"
  shows "pallet_inv t"
proof -
  obtain tx where tx: "map_of (BurnTransactions s) i = Some tx" using propose_burn_Inr(3) [OF assms(2)] by blast
  note run = add_burn_sig_Inr [OF propose_burn_Inr(4) [OF assms(2)]]
  have "burn_ok (block_number s) (BurnTransactionID s) i tx"
    using inv tx map_invariantD unfolding pallet_inv_def by fast
  moreover have "map_of (ExecutedBurnTransactions s) i = None" using propose_burn_Inr(2) [OF assms(2)] .
  ultimately show ?thesis
    using inv run(2) tx unfolding pallet_inv_def run(3-12)
    by (auto simp: burn_ok_def sigs_ok_snoc intro!: map_invariant_update disjoint_keys_storage)
qed

lemma set_burn_executed_Inr:
  assumes "set_stellar_burn_transaction_executed v i s = Inr t"
  obtains tx where "check_if_validator_exists v s" "map_of (ExecutedBurnTransactions s) i = None"
    "map_of (BurnTransactions s) i = Some tx"
    "t = deposit_event (BurnTransactionProcessed tx) (s\<lparr>BurnTransactions := AList.delete i (BurnTransactions s),
       ExecutedBurnTransactions := AList.update i tx (ExecutedBurnTransactions s)\<rparr>)"
  using assms by (auto simp: set_stellar_burn_transaction_executed_def Let_def split: if_splits)

lemma set_burn_executed_inv:
  assumes inv: "pallet_inv s" and "set_stellar_burn_transaction_executed v i s = Inr t"
  shows "pallet_inv t"
  using assms(2)
proof (rule set_burn_executed_Inr)
  fix tx assume tx: "map_of (BurnTransactions s) i = Some tx" and t:
    "t = deposit_event (BurnTransactionProcessed tx) (s\<lparr>BurnTransactions := AList.delete i (BurnTransactions s),
       ExecutedBurnTransactions := AList.update i tx (ExecutedBurnTransactions s)\<rparr>)"
  have "burn_ok (block_number s) (BurnTransactionID s) i tx"
    using inv tx map_invariantD unfolding pallet_inv_def by fast
  then show ?thesis
    using inv unfolding pallet_inv_def t
    by (auto simp: burn_ok_def intro!: map_invariant_update map_invariant_delete disjoint_keys_storage)
qed

text \<open>Refunds.\<close>

lemma add_refund_sig_Inr:
  assumes "add_stellar_sig_refund_transaction h signature key seqno s = Inr t"
  defines "tx \<equiv> get_or default_refund (RefundTransactions s) h"
    and "sig \<equiv> \<lparr>Signature = signature, StellarAddress = key\<rparr>"
  shows "length (rt_signatures tx) \<noteq> quorum s" "\<not> signature_exists (rt_signatures tx) signature key"
    "Validators t = Validators s" "MintTransactions t = MintTransactions s"
    "ExecutedMintTransactions t = ExecutedMintTransactions s" "BurnTransactions t = BurnTransactions s"
    "ExecutedBurnTransactions t = ExecutedBurnTransactions s"
    "RefundTransactions t = AList.update h (tx\<lparr>rt_sequence_number := seqno, rt_signatures := rt_signatures tx @ [sig]\<rparr>)
       (RefundTransactions s)"
    "ExecutedRefundTransactions t = ExecutedRefundTransactions s" "BurnTransactionID t = BurnTransactionID s"
    "block_number t = block_number s"
    "EventLog t = EventLog s @ [RefundTransactionsignatureAdded h sig] @
       (if quorum s \<le> length (rt_signatures tx) + 1 then [RefundTransactionReady h] else [])"
  using assms(1) unfolding tx_def sig_def
  by (auto simp: add_stellar_sig_refund_transaction_def Let_def quorum_def split: if_splits)

lemma add_refund_sig_inv:
  assumes inv: "pallet_inv s" and tx: "map_of (RefundTransactions s) h = Some tx"
    and "add_stellar_sig_refund_transaction h signature key seqno s = Inr t"
  shows "pallet_inv t"
proof -
  note run = add_refund_sig_Inr [OF assms(3)]
  have "refund_ok (block_number s) h tx" using inv tx map_invariantD unfolding pallet_inv_def by fast
  then show ?thesis
    using inv run(2) tx unfolding pallet_inv_def run(3-12)
    by (auto simp: refund_ok_def sigs_ok_snoc intro!: map_invariant_update)
qed

lemma create_refund_inv:
  assumes inv: "pallet_inv s"
    and "create_stellar_refund_transaction_or_add_sig v h target amount signature key seqno s = Inr t"
  shows "pallet_inv t"
proof (cases "map_of (RefundTransactions s) h")
  case (Some tx)
  with assms(2) have "add_stellar_sig_refund_transaction h signature key seqno s = Inr t"
    by (auto simp: create_stellar_refund_transaction_or_add_sig_def split: if_splits)
  then show ?thesis by (rule add_refund_sig_inv [OF inv Some])
next
  case None
  let ?tx = "\<lparr>rt_block = block_number s, rt_amount = amount, rt_target = target, rt_tx_hash = h,
    rt_signatures = [], rt_sequence_number = seqno\<rparr>"
  let ?s = "s\<lparr>RefundTransactions := AList.update h ?tx (RefundTransactions s)\<rparr>"
  from assms(2) None obtain u where u: "add_stellar_sig_refund_transaction h signature key seqno ?s = Inr u"
    and t: "t = deposit_event (RefundTransactionCreated h target amount) u"
    by (auto simp: create_stellar_refund_transaction_or_add_sig_def Let_def split: if_splits sum.splits)
  have "pallet_inv ?s"
    using inv unfolding pallet_inv_def by (auto simp: refund_ok_def intro!: map_invariant_update)
  then have "pallet_inv u" by (rule add_refund_sig_inv [OF _ _ u]) simp
  then show ?thesis unfolding t by (rule pallet_inv_cong) simp_all
qed

lemma set_refund_executed_Inr:
  assumes "set_stellar_refund_transaction_executed v h s = Inr t"
  obtains tx where "check_if_validator_exists v s" "map_of (ExecutedRefundTransactions s) h = None"
    "map_of (RefundTransactions s) h = Some tx"
    "t = deposit_event (RefundTransactionProcessed tx) (s\<lparr>RefundTransactions := AList.delete h (RefundTransactions s),
       ExecutedRefundTransactions := AList.update h tx (ExecutedRefundTransactions s)\<rparr>)"
  using assms by (auto simp: set_stellar_refund_transaction_executed_def Let_def split: if_splits)

lemma set_refund_executed_inv:
  assumes inv: "pallet_inv s" and "set_stellar_refund_transaction_executed v h s = Inr t"
  shows "pallet_inv t"
  using assms(2)
  by (rule set_refund_executed_Inr) (use inv in \<open>auto simp: pallet_inv_def intro: map_invariant_delete\<close>)

section \<open>The expiry loops\<close>

definition expired_burn :: "('acc, 'b) pallet_config \<Rightarrow> uint64 \<Rightarrow> BurnTx \<Rightarrow> BurnTx" where
  "expired_burn C now tx =
     (if is_expired C now (bt_block tx) then tx\<lparr>bt_signatures := [], bt_sequence_number := 0, bt_block := now\<rparr> else tx)"

definition expired_refund :: "('acc, 'b) pallet_config \<Rightarrow> uint64 \<Rightarrow> RefundTx \<Rightarrow> RefundTx" where
  "expired_refund C now tx =
     (if is_expired C now (rt_block tx) then tx\<lparr>rt_signatures := [], rt_sequence_number := 0, rt_block := now\<rparr> else tx)"

lemma expire_burns_keep [simp]:
  "Validators (expire_burns C now txs s) = Validators s"
  "MintTransactions (expire_burns C now txs s) = MintTransactions s"
  "ExecutedMintTransactions (expire_burns C now txs s) = ExecutedMintTransactions s"
  "ExecutedBurnTransactions (expire_burns C now txs s) = ExecutedBurnTransactions s"
  "RefundTransactions (expire_burns C now txs s) = RefundTransactions s"
  "ExecutedRefundTransactions (expire_burns C now txs s) = ExecutedRefundTransactions s"
  "BurnTransactionID (expire_burns C now txs s) = BurnTransactionID s"
  "block_number (expire_burns C now txs s) = block_number s" "Balances (expire_burns C now txs s) = Balances s"
  by (induction txs arbitrary: s) (auto simp: Let_def)

lemma expire_refunds_keep [simp]:
  "Validators (expire_refunds C now txs s) = Validators s"
  "MintTransactions (expire_refunds C now txs s) = MintTransactions s"
  "ExecutedMintTransactions (expire_refunds C now txs s) = ExecutedMintTransactions s"
  "BurnTransactions (expire_refunds C now txs s) = BurnTransactions s"
  "ExecutedBurnTransactions (expire_refunds C now txs s) = ExecutedBurnTransactions s"
  "ExecutedRefundTransactions (expire_refunds C now txs s) = ExecutedRefundTransactions s"
  "BurnTransactionID (expire_refunds C now txs s) = BurnTransactionID s"
  "block_number (expire_refunds C now txs s) = block_number s" "Balances (expire_refunds C now txs s) = Balances s"
  by (induction txs arbitrary: s) (auto simp: Let_def)

text \<open>Each entry is treated by itself, in whatever order the loop meets them.\<close>

lemma expire_burns_map:
  assumes "distinct (map fst txs)" and "\<forall>(k, v)\<in>set txs. map_of (BurnTransactions s) k = Some v"
  shows "map_of (BurnTransactions (expire_burns C now txs s)) k =
    (if k \<in> fst ` set txs then map_option (expired_burn C now) (map_of (BurnTransactions s) k)
     else map_of (BurnTransactions s) k)"
  using assms
proof (induction txs arbitrary: s)
  case (Cons e txs)
  obtain i tx where e: "e = (i, tx)" by force
  define u where "u = (if is_expired C now (bt_block tx) then
      deposit_event (BurnTransactionExpired i (bt_target tx) (bt_amount tx))
        (s\<lparr>BurnTransactions := AList.update i (expired_burn C now tx) (BurnTransactions s)\<rparr>) else s)"
  have step: "expire_burns C now (e # txs) s = expire_burns C now txs u"
    by (simp add: e u_def expired_burn_def Let_def)
  have s_i: "map_of (BurnTransactions s) i = Some tx" using Cons.prems(2) by (auto simp: e)
  then have u: "map_of (BurnTransactions u) = (map_of (BurnTransactions s))(i \<mapsto> expired_burn C now tx)"
    by (auto simp: u_def expired_burn_def)
  have "i \<notin> fst ` set txs" using Cons.prems(1) by (auto simp: e)
  moreover have "\<forall>(k, v)\<in>set txs. map_of (BurnTransactions u) k = Some v"
    using Cons.prems(2) \<open>i \<notin> fst ` set txs\<close> unfolding u by force
  ultimately show ?case
    using Cons.IH [of u] Cons.prems(1) s_i unfolding step u by (auto simp: e)
qed simp

lemma expire_refunds_map:
  assumes "distinct (map fst txs)" and "\<forall>(k, v)\<in>set txs. map_of (RefundTransactions s) k = Some v"
  shows "map_of (RefundTransactions (expire_refunds C now txs s)) k =
    (if k \<in> fst ` set txs then map_option (expired_refund C now) (map_of (RefundTransactions s) k)
     else map_of (RefundTransactions s) k)"
  using assms
proof (induction txs arbitrary: s)
  case (Cons e txs)
  obtain i tx where e: "e = (i, tx)" by force
  define u where "u = (if is_expired C now (rt_block tx) then
      deposit_event (RefundTransactionExpired i (rt_target tx) (rt_amount tx))
        (s\<lparr>RefundTransactions := AList.update i (expired_refund C now tx) (RefundTransactions s)\<rparr>) else s)"
  have step: "expire_refunds C now (e # txs) s = expire_refunds C now txs u"
    by (simp add: e u_def expired_refund_def Let_def)
  have s_i: "map_of (RefundTransactions s) i = Some tx" using Cons.prems(2) by (auto simp: e)
  then have u: "map_of (RefundTransactions u) = (map_of (RefundTransactions s))(i \<mapsto> expired_refund C now tx)"
    by (auto simp: u_def expired_refund_def)
  have "i \<notin> fst ` set txs" using Cons.prems(1) by (auto simp: e)
  moreover have "\<forall>(k, v)\<in>set txs. map_of (RefundTransactions u) k = Some v"
    using Cons.prems(2) \<open>i \<notin> fst ` set txs\<close> unfolding u by force
  ultimately show ?case
    using Cons.IH [of u] Cons.prems(1) s_i unfolding step u by (auto simp: e)
qed simp

lemma expire_keys:
  "distinct (map fst (BurnTransactions s)) \<Longrightarrow> distinct (map fst (BurnTransactions (expire_burns C now bs s)))"
  "distinct (map fst (RefundTransactions s)) \<Longrightarrow> distinct (map fst (RefundTransactions (expire_refunds C now rs s)))"
  by (induction bs arbitrary: s, auto simp: Let_def distinct_update)
     (induction rs arbitrary: s, auto simp: Let_def distinct_update)

lemma map_of_keys: "(if k \<in> fst ` set m then map_option f (map_of m k) else map_of m k) = map_option f (map_of m k)"
  by (simp add: map_of_eq_None_iff [symmetric])

lemma on_finalize_maps:
  assumes "pallet_inv s"
  shows "map_of (BurnTransactions (on_finalize C now s)) k =
      map_option (expired_burn C now) (map_of (BurnTransactions s) k)"
    and "map_of (RefundTransactions (on_finalize C now s)) h =
      map_option (expired_refund C now) (map_of (RefundTransactions s) h)"
proof -
  let ?u = "expire_burns C now (BurnTransactions s) s"
  have d: "distinct (map fst (BurnTransactions s))" "distinct (map fst (RefundTransactions s))"
    using assms by (auto simp: pallet_inv_def map_invariant_def)
  then have b: "\<forall>(k, v)\<in>set (BurnTransactions s). map_of (BurnTransactions s) k = Some v"
    and r: "\<forall>(k, v)\<in>set (RefundTransactions s). map_of (RefundTransactions ?u) k = Some v" by auto
  from expire_burns_map [OF d(1) b, of C now k]
  show "map_of (BurnTransactions (on_finalize C now s)) k =
      map_option (expired_burn C now) (map_of (BurnTransactions s) k)"
    unfolding map_of_keys by (simp add: on_finalize_def Let_def)
  from expire_refunds_map [OF d(2) r, of C now h]
  show "map_of (RefundTransactions (on_finalize C now s)) h =
      map_option (expired_refund C now) (map_of (RefundTransactions s) h)"
    unfolding expire_burns_keep map_of_keys by (simp add: on_finalize_def Let_def)
qed

lemma on_finalize_keep [simp]:
  "Validators (on_finalize C now s) = Validators s" "MintTransactions (on_finalize C now s) = MintTransactions s"
  "ExecutedMintTransactions (on_finalize C now s) = ExecutedMintTransactions s"
  "ExecutedBurnTransactions (on_finalize C now s) = ExecutedBurnTransactions s"
  "ExecutedRefundTransactions (on_finalize C now s) = ExecutedRefundTransactions s"
  "BurnTransactionID (on_finalize C now s) = BurnTransactionID s"
  "block_number (on_finalize C now s) = block_number s" "Balances (on_finalize C now s) = Balances s"
  by (simp_all add: on_finalize_def Let_def)

lemma on_finalize_inv:
  assumes inv: "pallet_inv s"
  shows "pallet_inv (on_finalize C (block_number s) s)"
proof -
  note maps = on_finalize_maps [OF inv, of C "block_number s"]
  have "distinct (map fst (BurnTransactions (on_finalize C (block_number s) s)))"
    "distinct (map fst (RefundTransactions (on_finalize C (block_number s) s)))"
    using inv by (auto simp: on_finalize_def Let_def pallet_inv_def map_invariant_def intro!: expire_keys)
  then have "map_invariant (burn_ok (block_number s) (BurnTransactionID s)) (BurnTransactions (on_finalize C (block_number s) s))"
    "map_invariant (refund_ok (block_number s)) (RefundTransactions (on_finalize C (block_number s) s))"
    using inv unfolding pallet_inv_def map_invariant_def maps
    by (auto simp: burn_ok_def refund_ok_def expired_burn_def expired_refund_def)
  moreover have "disjoint_keys (BurnTransactions (on_finalize C (block_number s) s)) (ExecutedBurnTransactions s)"
    using inv unfolding pallet_inv_def disjoint_keys_def maps by auto
  ultimately show ?thesis using inv by (simp add: pallet_inv_def)
qed

lemma next_block_inv:
  assumes inv: "pallet_inv s" and "block_number s < - 1"
  shows "pallet_inv (next_block C s)"
proof -
  let ?t = "on_finalize C (block_number s) s"
  have le: "b \<le> block_number s \<Longrightarrow> b \<le> block_number s + 1" for b using next_id [OF assms(2)] by blast
  have "pallet_inv ?t" by (rule on_finalize_inv [OF inv])
  then show ?thesis
    unfolding next_block_def Let_def pallet_inv_def
    by (auto simp: burn_ok_def refund_ok_def elim!: map_invariant_mono intro: le)
qed

section \<open>Reachable states\<close>

lemma genesis_inv: "sorted_genesis config \<Longrightarrow> pallet_inv (genesis_build config balances)"
  by (auto simp: sorted_genesis_def genesis_build_def pallet_inv_def disjoint_keys_def split: option.splits)

lemma ensure_origin_Inr [simp]: "ensure_origin C origin rest = Inr t \<longleftrightarrow> RestrictedOrigin C origin \<and> rest = Inr t"
  by (simp add: ensure_origin_def)

lemma ensure_signed_Inr [simp]: "ensure_signed origin rest = Inr t \<longleftrightarrow> (\<exists>who. origin = Signed who \<and> rest who = Inr t)"
  by (cases origin) (simp_all add: ensure_signed_def)

lemma pallet_inv_other [simp]:
  "pallet_inv (s\<lparr>FeeAccount := x\<rparr>) = pallet_inv s" "pallet_inv (s\<lparr>WithdrawFee := n\<rparr>) = pallet_inv s"
  "pallet_inv (s\<lparr>DepositFee := n\<rparr>) = pallet_inv s" "pallet_inv (s\<lparr>Balances := b\<rparr>) = pallet_inv s"
  by (simp_all add: pallet_inv_def)

lemma dispatch_inv:
  assumes inv: "pallet_inv s" and "dispatch C origin c s = Inr t" and "BurnTransactionID s < - 1"
  shows "pallet_inv t"
  using assms(2)
proof (cases c)
  case (swap_to_stellar target n)
  with assms(2) show ?thesis by (auto intro: burn_tft_inv [OF inv _ assms(3)])
qed (auto intro: inv add_validator_inv [OF inv] remove_validator_inv [OF inv] propose_mint_inv [OF inv]
      propose_burn_inv [OF inv] set_burn_executed_inv [OF inv] create_refund_inv [OF inv] set_refund_executed_inv [OF inv])

lemma pallet_step_inv:
  assumes "pallet_step C s t" and "pallet_inv s"
  shows "pallet_inv t"
  using assms(1)
proof (cases rule: pallet_step.cases)
  case (step_call origin c)
  then show ?thesis using dispatch_inv assms(2) by blast
qed (use assms(2) next_block_inv in auto)

lemma reachable_inv: "reachable C s \<Longrightarrow> pallet_inv s"
  by (induction rule: reachable.induct) (auto intro: genesis_inv pallet_step_inv)

end
