(* ===== verification/PalletSample.thy ===== *)
theory PalletSample
  imports PalletInvariant
begin

text \<open>
  A small chain on which the theorems about the pallet are tried: accounts are numbers, the balances a
  function from accounts to amounts, three validators, a fee account, and fees of 5 units.
\<close>

definition ledger_config :: "(nat, nat \<Rightarrow> uint64) pallet_config" where
  "ledger_config =
     \<lparr>deposit_creating = (\<lambda>a n b. b(a := b a + n)),
      withdraw = (\<lambda>a n b. if n \<le> b a then Inr (b(a := b a - n)) else Inl ''InsufficientBalance''),
      usable_balance = (\<lambda>a b. b a), on_unbalanced = (\<lambda>n b. b),
      RestrictedOrigin = (\<lambda>origin. origin = Root), RetryInterval = 20, stellar_key = (\<lambda>k. k \<noteq> [])\<rparr>"

definition ledger_genesis :: "nat GenesisConfig" where
  "ledger_genesis = \<lparr>validator_accounts = Some [1, 2, 3], fee_account = Some 9, withdraw_fee = 5, deposit_fee = 5\<rparr>"

definition ledger_start :: "(nat, nat \<Rightarrow> uint64) pallet" where
  "ledger_start = genesis_build ledger_genesis (\<lambda>_. 100)"

lemma ledger_start_fields [simp]:
  "Validators ledger_start = [1, 2, 3]" "FeeAccount ledger_start = Some 9" "MintTransactions ledger_start = []"
  "ExecutedMintTransactions ledger_start = []" "BurnTransactions ledger_start = []"
  "ExecutedBurnTransactions ledger_start = []" "RefundTransactions ledger_start = []"
  "ExecutedRefundTransactions ledger_start = []" "BurnTransactionID ledger_start = 0" "WithdrawFee ledger_start = 5"
  "DepositFee ledger_start = 5" "block_number ledger_start = 0" "Balances ledger_start = (\<lambda>_. 100)"
  "EventLog ledger_start = []" "quorum ledger_start = 2"
  by (simp_all add: ledger_start_def ledger_genesis_def genesis_build_def quorum_def)

lemma ledger_config_fields [simp]:
  "deposit_creating ledger_config a n b = b(a := b a + n)"
  "withdraw ledger_config a n b = (if n \<le> b a then Inr (b(a := b a - n)) else Inl ''InsufficientBalance'')"
  "usable_balance ledger_config a b = b a" "on_unbalanced ledger_config n b = b"
  "RestrictedOrigin ledger_config origin = (origin = Root)" "RetryInterval ledger_config = 20"
  "stellar_key ledger_config k = (k \<noteq> [])"
  by (simp_all add: ledger_config_def)

lemma counter_not_full [simp]: "(0 :: uint64) < - 1" "(1 :: uint64) < - 1"
  by code_simp+

lemma ledger_reachable: "reachable ledger_config ledger_start"
  unfolding ledger_start_def by (rule reach_genesis) (simp add: sorted_genesis_def ledger_genesis_def)

lemma ledger_validator:
  "Validators s = [1, 2, 3] \<Longrightarrow> check_if_validator_exists (v :: nat) s \<longleftrightarrow> v \<in> {1, 2, 3}"
  using binary_search_Found [of "[1, 2, 3]" v]
  by (auto simp: check_if_validator_exists_def split: search_result.splits)

lemmas pallet_call_defs =
  propose_or_vote_stellar_mint_transaction_def vote_stellar_mint_transaction_def mint_tft_def pay_fee_account_def
  burn_tft_def propose_stellar_burn_transaction_or_add_sig_def add_stellar_sig_burn_transaction_def
  set_stellar_burn_transaction_executed_def create_stellar_refund_transaction_or_add_sig_def
  add_stellar_sig_refund_transaction_def set_stellar_refund_transaction_executed_def
  signature_exists_def get_or_def ensure_signed_def Let_def quorum_def

section \<open>Some states of the chain\<close>

text \<open>After a swap of 50 units, and after a first vote for a mint.\<close>

lemma ledger_swap:
  "\<exists>t. dispatch ledger_config (Signed 4) (swap_to_stellar ''GDAVE'' 50) ledger_start = Inr t \<and>
     map_of (BurnTransactions t) 1 = Some \<lparr>bt_block = 0, bt_amount = 45, bt_target = ''GDAVE'', bt_signatures = [],
       bt_sequence_number = 0\<rparr> \<and> ExecutedBurnTransactions t = [] \<and> Validators t = [1, 2, 3] \<and>
     BurnTransactionID t = 1 \<and> block_number t = 0"
  by (simp add: pallet_call_defs)

lemma ledger_vote:
  "\<exists>t. dispatch ledger_config (Signed 1) (propose_or_vote_mint_transaction ''aa'' 7 50) ledger_start = Inr t \<and>
     map_of (MintTransactions t) ''aa'' = Some \<lparr>mt_amount = 50, mt_target = 7, mt_block = 0, mt_votes = 1\<rparr> \<and>
     ExecutedMintTransactions t = [] \<and> Validators t = [1, 2, 3] \<and> FeeAccount t = Some 9 \<and> DepositFee t = 5 \<and>
     Balances t = (\<lambda>_. 100) \<and> BurnTransactionID t = 0"
  by (simp add: pallet_call_defs ledger_validator)

end
