(* ===== verification/PalletSafety.thy ===== *)
theory PalletSafety
  imports PalletSample
begin

text \<open>
  What the pallet promises the daemons: an executed transaction stays executed and is never open again
  (with refunds as the exception), a mint needs a quorum of votes and pays exactly the amount, a ready
  event comes with a quorum of signatures, and an open withdrawal keeps its amount and target until it is
  executed.
\<close>

section \<open>What one step changes\<close>

lemma vote_Inr:
  assumes "vote_stellar_mint_transaction C h s = Inr t"
  obtains (unknown) "map_of (MintTransactions s) h = None" "t = s"
  | (voted) tx where "map_of (MintTransactions s) h = Some tx" "\<not> quorum s \<le> unat (mt_votes tx + 1)"
      "t = (deposit_event (MintTransactionVoted h) s)
         \<lparr>MintTransactions := AList.update h (tx\<lparr>mt_votes := mt_votes tx + 1\<rparr>) (MintTransactions s)\<rparr>"
  | (minted) tx where "map_of (MintTransactions s) h = Some tx" "quorum s \<le> unat (mt_votes tx + 1)"
      "mint_tft C h (tx\<lparr>mt_votes := mt_votes tx + 1\<rparr>) ((deposit_event (MintTransactionVoted h) s)
         \<lparr>MintTransactions := AList.update h (tx\<lparr>mt_votes := mt_votes tx + 1\<rparr>) (MintTransactions s)\<rparr>) = Inr t"
  using assms
  by (auto simp: vote_stellar_mint_transaction_def Let_def quorum_def deposit_event_def split: option.splits if_splits)

lemma vote_storage:
  assumes "vote_stellar_mint_transaction C h s = Inr t"
  shows "BurnTransactions t = BurnTransactions s" "ExecutedBurnTransactions t = ExecutedBurnTransactions s"
    "RefundTransactions t = RefundTransactions s" "ExecutedRefundTransactions t = ExecutedRefundTransactions s"
    "Validators t = Validators s" "k \<noteq> h \<Longrightarrow> map_of (ExecutedMintTransactions t) k = map_of (ExecutedMintTransactions s) k"
    "k \<noteq> h \<Longrightarrow> map_of (MintTransactions t) k = map_of (MintTransactions s) k"
  using assms by (auto elim!: vote_Inr simp: mint_tft_storage)

lemma propose_mint_Inr:
  assumes "propose_or_vote_stellar_mint_transaction C v h a n s = Inr t"
  obtains u where "check_if_validator_exists v s" "map_of (ExecutedMintTransactions s) h = None"
    "vote_stellar_mint_transaction C h u = Inr t"
    "u = s \<or> (map_of (MintTransactions s) h = None \<and>
       u = deposit_event (MintTransactionProposed h a n) (s\<lparr>MintTransactions := AList.update h
         \<lparr>mt_amount = n, mt_target = a, mt_block = block_number s, mt_votes = 0\<rparr> (MintTransactions s)\<rparr>))"
  using assms by (auto simp: propose_or_vote_stellar_mint_transaction_def Let_def split: if_splits)

lemma create_refund_Inr:
  assumes "create_stellar_refund_transaction_or_add_sig v h target amount signature key seqno s = Inr t"
  shows "check_if_validator_exists v s" "MintTransactions t = MintTransactions s"
    "ExecutedMintTransactions t = ExecutedMintTransactions s" "BurnTransactions t = BurnTransactions s"
    "ExecutedBurnTransactions t = ExecutedBurnTransactions s"
    "ExecutedRefundTransactions t = ExecutedRefundTransactions s" "Validators t = Validators s"
  using assms
  by (auto simp: create_stellar_refund_transaction_or_add_sig_def Let_def add_refund_sig_Inr
      split: if_splits sum.splits)

lemma add_validator_Inr:
  "add_validator_account a s = Inr t \<Longrightarrow> \<exists>xs. t = s\<lparr>Validators := xs\<rparr>"
  "remove_validator_account a s = Inr t \<Longrightarrow> \<exists>xs. t = s\<lparr>Validators := xs\<rparr>"
  by (auto simp: add_validator_account_def remove_validator_account_def split: search_result.splits)

section \<open>Executed transactions\<close>

definition keeps_entries :: "('k \<times> 'v) list \<Rightarrow> ('k \<times> 'v) list \<Rightarrow> bool" where
  "keeps_entries m n \<longleftrightarrow> (\<forall>k v. map_of m k = Some v \<longrightarrow> map_of n k = Some v)"

lemma keeps_entries_refl [simp]: "keeps_entries m m"
  by (simp add: keeps_entries_def)

lemma keeps_entries_update [simp]: "map_of m k = None \<Longrightarrow> keeps_entries m (AList.update k v m)"
  by (auto simp: keeps_entries_def)

lemma keeps_entries_trans: "keeps_entries m n \<Longrightarrow> keeps_entries n p \<Longrightarrow> keeps_entries m p"
  by (simp add: keeps_entries_def)

lemma propose_mint_executed:
  assumes "propose_or_vote_stellar_mint_transaction C v h a n s = Inr t"
  shows "keeps_entries (ExecutedMintTransactions s) (ExecutedMintTransactions t)"
    "ExecutedBurnTransactions t = ExecutedBurnTransactions s" "BurnTransactions t = BurnTransactions s"
    "ExecutedRefundTransactions t = ExecutedRefundTransactions s"
proof -
  obtain u where none: "map_of (ExecutedMintTransactions s) h = None"
    and vote: "vote_stellar_mint_transaction C h u = Inr t"
    and same: "ExecutedMintTransactions u = ExecutedMintTransactions s"
      "ExecutedBurnTransactions u = ExecutedBurnTransactions s" "BurnTransactions u = BurnTransactions s"
      "ExecutedRefundTransactions u = ExecutedRefundTransactions s"
    using assms by (rule propose_mint_Inr) auto
  show "keeps_entries (ExecutedMintTransactions s) (ExecutedMintTransactions t)"
    unfolding keeps_entries_def
  proof (intro allI impI)
    fix k m assume "map_of (ExecutedMintTransactions s) k = Some m"
    moreover from this none have "k \<noteq> h" by auto
    ultimately show "map_of (ExecutedMintTransactions t) k = Some m"
      using vote_storage(6) [OF vote] same(1) by simp
  qed
  show "ExecutedBurnTransactions t = ExecutedBurnTransactions s" "BurnTransactions t = BurnTransactions s"
    "ExecutedRefundTransactions t = ExecutedRefundTransactions s"
    using vote_storage [OF vote] same by simp_all
qed

lemma dispatch_executed:
  assumes "dispatch C origin c s = Inr t"
  shows "keeps_entries (ExecutedMintTransactions s) (ExecutedMintTransactions t) \<and>
    keeps_entries (ExecutedBurnTransactions s) (ExecutedBurnTransactions t) \<and>
    keeps_entries (ExecutedRefundTransactions s) (ExecutedRefundTransactions t)"
proof (cases c)
  case (swap_to_stellar target n)
  with assms show ?thesis by (auto dest: burn_tft_Inr)
next
  case (propose_or_vote_mint_transaction h a n)
  with assms show ?thesis by (auto dest: propose_mint_executed)
next
  case (propose_burn_transaction_or_add_sig i target n sig key seqno)
  with assms show ?thesis by (auto dest!: propose_burn_Inr(4) simp: add_burn_sig_Inr)
next
  case (create_refund_transaction_or_add_sig h target n sig key seqno)
  with assms show ?thesis by (auto simp: create_refund_Inr)
qed (use assms in \<open>auto dest!: add_validator_Inr elim!: set_burn_executed_Inr set_refund_executed_Inr\<close>)

lemma step_executed:
  assumes "pallet_step C s t"
  shows "keeps_entries (ExecutedMintTransactions s) (ExecutedMintTransactions t) \<and>
    keeps_entries (ExecutedBurnTransactions s) (ExecutedBurnTransactions t) \<and>
    keeps_entries (ExecutedRefundTransactions s) (ExecutedRefundTransactions t)"
  using assms
  by (cases rule: pallet_step.cases) (auto dest: dispatch_executed simp: next_block_def Let_def)

lemma steps_executed:
  assumes "pallet_steps C s t"
  shows "keeps_entries (ExecutedMintTransactions s) (ExecutedMintTransactions t) \<and>
    keeps_entries (ExecutedBurnTransactions s) (ExecutedBurnTransactions t) \<and>
    keeps_entries (ExecutedRefundTransactions s) (ExecutedRefundTransactions t)"
  using assms by (induction rule: pallet_steps.induct) (auto dest: step_executed intro: keeps_entries_trans)

text \<open>
  C9: What is executed stays executed, and for ever with the same record: a mint or a withdrawal that was
  executed once is never open again, whatever calls follow, so it can never be minted or paid for a
  second time; the record of an executed refund stays too.
\<close>

theorem executed_is_final:
  assumes "reachable C s" and "pallet_steps C s t"
  shows "(map_of (ExecutedMintTransactions s) h = Some m \<longrightarrow>
      map_of (ExecutedMintTransactions t) h = Some m \<and> map_of (MintTransactions t) h = None) \<and>
    (map_of (ExecutedBurnTransactions s) i = Some b \<longrightarrow>
      map_of (ExecutedBurnTransactions t) i = Some b \<and> map_of (BurnTransactions t) i = None) \<and>
    (map_of (ExecutedRefundTransactions s) r = Some f \<longrightarrow> map_of (ExecutedRefundTransactions t) r = Some f)"
proof -
  have "pallet_inv t" using reachable_inv reachable_steps [OF assms(2,1)] .
  then have "disjoint_keys (MintTransactions t) (ExecutedMintTransactions t)"
    "disjoint_keys (BurnTransactions t) (ExecutedBurnTransactions t)" by (simp_all add: pallet_inv_def)
  then show ?thesis
    using steps_executed [OF assms(2)] unfolding keeps_entries_def disjoint_keys_def by (metis option.distinct(1))
qed

theorem executed_is_final_witness:
  "\<exists>s m. reachable ledger_config s \<and> map_of (ExecutedMintTransactions s) ''aa'' = Some m \<and> mt_amount m = 50 \<and>
     map_of (MintTransactions s) ''aa'' = None"
proof -
  obtain s where s: "dispatch ledger_config (Signed 1) (propose_or_vote_mint_transaction ''aa'' 7 50) ledger_start = Inr s"
      "map_of (MintTransactions s) ''aa'' = Some \<lparr>mt_amount = 50, mt_target = 7, mt_block = 0, mt_votes = 1\<rparr>"
      "ExecutedMintTransactions s = []" "Validators s = [1, 2, 3]" "DepositFee s = 5" "BurnTransactionID s = 0"
    using ledger_vote by blast
  then have "\<exists>t. dispatch ledger_config (Signed 2) (propose_or_vote_mint_transaction ''aa'' 7 50) s = Inr t \<and>
      (\<exists>m. map_of (ExecutedMintTransactions t) ''aa'' = Some m \<and> mt_amount m = 50)"
    by (simp add: pallet_call_defs ledger_validator)
  then obtain t m where t: "dispatch ledger_config (Signed 2) (propose_or_vote_mint_transaction ''aa'' 7 50) s = Inr t"
    and m: "map_of (ExecutedMintTransactions t) ''aa'' = Some m" "mt_amount m = 50" by blast
  have "reachable ledger_config s" by (rule reach_step [OF ledger_reachable step_call [OF s(1)]]) simp
  then have "reachable ledger_config t" by (rule reach_step [OF _ step_call [OF t]]) (simp add: s(6))
  from executed_is_final [OF this steps_refl, of "''aa''" m] this m show ?thesis by blast
qed

section \<open>Mints\<close>

definition fee_paid :: "('acc, 'b) pallet_config \<Rightarrow> ('acc, 'b) pallet \<Rightarrow> uint64 \<Rightarrow> 'b \<Rightarrow> 'b" where
  "fee_paid C s fee b = (case FeeAccount s of None \<Rightarrow> b | Some a \<Rightarrow> deposit_creating C a fee b)"

lemma Balances_pay_fee_account [simp]: "Balances (pay_fee_account C n s) = fee_paid C s n (Balances s)"
  by (simp add: pay_fee_account_def fee_paid_def split: option.splits)

lemma fee_paid_cong: "FeeAccount s = FeeAccount t \<Longrightarrow> fee_paid C s n b = fee_paid C t n b"
  by (simp add: fee_paid_def)

lemma mint_tft_Balances:
  assumes "mint_tft C h tx s = Inr t"
  shows "Balances t = fee_paid C s (DepositFee s)
    (deposit_creating C (mt_target tx) (mt_amount tx - DepositFee s) (Balances s))" "FeeAccount t = FeeAccount s"
  using assms by (auto simp: mint_tft_def Let_def fee_paid_def split: if_splits option.splits)

text \<open>The record of the mint that a call is about: the open one, or the one that the call proposes.\<close>

definition proposed_mint :: "('acc, 'b) pallet \<Rightarrow> bytes \<Rightarrow> 'acc \<Rightarrow> uint64 \<Rightarrow> 'acc MintTransaction" where
  "proposed_mint s h a n =
     (case map_of (MintTransactions s) h of
        Some tx \<Rightarrow> tx
      | None \<Rightarrow> \<lparr>mt_amount = n, mt_target = a, mt_block = block_number s, mt_votes = 0\<rparr>)"

text \<open>
  C8: A transaction is minted only by the call of a validator that brings its votes to a majority of the
  validators. It then pays the amount of the first proposal, above the deposit fee, to the target of
  the first proposal: the amount less the fee to the target, the fee to the fee account, and nothing
  else moves.
\<close>

theorem mint_pays_exactly:
  assumes "dispatch C origin c s = Inr t" and "pallet_inv s"
    and "map_of (ExecutedMintTransactions s) h = None" and "map_of (ExecutedMintTransactions t) h = Some m"
  shows "\<exists>v a n. origin = Signed v \<and> v \<in> set (Validators s) \<and> c = propose_or_vote_mint_transaction h a n \<and>
    (let tx = proposed_mint s h a n in
     quorum s \<le> unat (mt_votes tx + 1) \<and> DepositFee s < mt_amount tx \<and>
     m = tx\<lparr>mt_votes := mt_votes tx + 1, mt_block := block_number s\<rparr> \<and>
     Balances t = fee_paid C s (DepositFee s)
       (deposit_creating C (mt_target tx) (mt_amount tx - DepositFee s) (Balances s)))"
proof (cases c)
  case (propose_or_vote_mint_transaction h' a n)
  then obtain v where origin: "origin = Signed v"
    and p: "propose_or_vote_stellar_mint_transaction C v h' a n s = Inr t" using assms(1) by auto
  from p obtain u where v: "check_if_validator_exists v s"
    and vote: "vote_stellar_mint_transaction C h' u = Inr t"
    and u: "u = s \<or> (map_of (MintTransactions s) h' = None \<and>
       u = deposit_event (MintTransactionProposed h' a n) (s\<lparr>MintTransactions := AList.update h'
         \<lparr>mt_amount = n, mt_target = a, mt_block = block_number s, mt_votes = 0\<rparr> (MintTransactions s)\<rparr>))"
    by (rule propose_mint_Inr)
  have same: "ExecutedMintTransactions u = ExecutedMintTransactions s" "block_number u = block_number s"
    "DepositFee u = DepositFee s" "FeeAccount u = FeeAccount s" "Balances u = Balances s" "quorum u = quorum s"
    using u by (auto simp: quorum_def)
  have h: "h' = h" using vote_storage(6) [OF vote, of h] assms(3,4) same(1) by (cases "h = h'") auto
  from vote show ?thesis
  proof (cases rule: vote_Inr)
    case (minted tx)
    let ?tx = "tx\<lparr>mt_votes := mt_votes tx + 1\<rparr>"
    have tx: "proposed_mint s h a n = tx" using minted(1) u h by (auto simp: proposed_mint_def)
    note mint = mint_tft_storage [OF minted(3)] mint_tft_Balances [OF minted(3)]
    have "m = ?tx\<lparr>mt_block := block_number s\<rparr>" using mint(4) assms(4) h same(2) by simp
    moreover have "Balances t = fee_paid C s (DepositFee s)
       (deposit_creating C (mt_target tx) (mt_amount tx - DepositFee s) (Balances s))"
      using mint(12) same by (simp add: fee_paid_def)
    ultimately show ?thesis
      using minted(2) mint(1) same v check_if_validator_exists_iff [OF assms(2)]
      by (auto simp: origin propose_or_vote_mint_transaction h tx Let_def)
  qed (use assms(3,4) same h in auto)
next
  case (swap_to_stellar target n)
  with assms(1,3,4) show ?thesis by (auto simp: burn_tft_Inr)
next
  case (propose_burn_transaction_or_add_sig i target n sig key seqno)
  with assms(1,3,4) show ?thesis by (auto dest!: propose_burn_Inr(4) simp: add_burn_sig_Inr)
next
  case (create_refund_transaction_or_add_sig g target n sig key seqno)
  with assms(1,3,4) show ?thesis by (auto simp: create_refund_Inr)
qed (use assms(1,3,4) in \<open>auto dest!: add_validator_Inr elim!: set_burn_executed_Inr set_refund_executed_Inr\<close>)

theorem mint_pays_exactly_witness:
  "\<exists>s t m. dispatch ledger_config (Signed 2) (propose_or_vote_mint_transaction ''aa'' 8 60) s = Inr t \<and>
     map_of (ExecutedMintTransactions t) ''aa'' = Some m \<and> Balances t 7 = 145 \<and> Balances t 9 = 105"
proof -
  obtain s where s: "dispatch ledger_config (Signed 1) (propose_or_vote_mint_transaction ''aa'' 7 50) ledger_start = Inr s"
      "map_of (MintTransactions s) ''aa'' = Some \<lparr>mt_amount = 50, mt_target = 7, mt_block = 0, mt_votes = 1\<rparr>"
      "ExecutedMintTransactions s = []" "Validators s = [1, 2, 3]" "FeeAccount s = Some 9" "DepositFee s = 5"
      "Balances s = (\<lambda>_. 100)"
    using ledger_vote by blast
  then have "\<exists>t. dispatch ledger_config (Signed 2) (propose_or_vote_mint_transaction ''aa'' 8 60) s = Inr t \<and>
      (\<exists>m. map_of (ExecutedMintTransactions t) ''aa'' = Some m)"
    by (simp add: pallet_call_defs ledger_validator)
  then obtain t m where t: "dispatch ledger_config (Signed 2) (propose_or_vote_mint_transaction ''aa'' 8 60) s = Inr t"
    and m: "map_of (ExecutedMintTransactions t) ''aa'' = Some m" by blast
  have "pallet_inv s"
    using dispatch_inv [OF reachable_inv [OF ledger_reachable] s(1)] by simp
  from mint_pays_exactly [OF t this _ m] s(2-7) have "Balances t = (\<lambda>_. 100)(7 := 145, 9 := 105)"
    by (auto simp: proposed_mint_def fee_paid_def Let_def)
  with t m show ?thesis by (intro exI [of _ s] exI [of _ t] exI [of _ m]) simp
qed

section \<open>A quorum of calls\<close>

lemma ensure_signed_Signed [simp]: "ensure_signed (Signed v) rest = rest v"
  by (simp add: ensure_signed_def)

fun run_calls ::
    "('acc::linorder, 'b) pallet_config \<Rightarrow> ('acc \<times> 'acc call) list \<Rightarrow> ('acc, 'b) pallet \<Rightarrow> ('acc, 'b) dispatch_result" where
  "run_calls C [] s = Inr s"
| "run_calls C ((v, c) # calls) s =
     (case dispatch C (Signed v) c s of Inl e \<Rightarrow> Inl e | Inr t \<Rightarrow> run_calls C calls t)"

text \<open>The votes of some validators for a transaction, each with the target and the amount it saw.\<close>

definition vote_calls :: "bytes \<Rightarrow> ('acc \<times> 'acc \<times> uint64) list \<Rightarrow> ('acc \<times> 'acc call) list" where
  "vote_calls h votes = map (\<lambda>(v, a, n). (v, propose_or_vote_mint_transaction h a n)) votes"

lemma vote_pending:
  assumes "map_of (MintTransactions s) h = Some tx" and "unat (mt_votes tx) + 1 < quorum s" and "quorum s < 2 ^ 32"
  shows "\<exists>t. vote_stellar_mint_transaction C h s = Inr t \<and>
    map_of (MintTransactions t) h = Some (tx\<lparr>mt_votes := mt_votes tx + 1\<rparr>) \<and>
    ExecutedMintTransactions t = ExecutedMintTransactions s \<and> Validators t = Validators s \<and>
    FeeAccount t = FeeAccount s \<and> DepositFee t = DepositFee s \<and> Balances t = Balances s \<and>
    unat (mt_votes tx + 1) = unat (mt_votes tx) + 1"
proof -
  have "unat (mt_votes tx + 1) = unat (mt_votes tx) + 1"
    using assms(2,3) by (simp add: unat_word_ariths)
  with assms(1,2) show ?thesis
    by (simp add: vote_stellar_mint_transaction_def Let_def quorum_def)
qed

text \<open>What a completed mint left: compared with the state \<open>s\<close> in which the vote began.\<close>

definition minted_as ::
    "('acc, 'b) pallet_config \<Rightarrow> ('acc, 'b) pallet \<Rightarrow> bytes \<Rightarrow> 'acc \<Rightarrow> uint64 \<Rightarrow> ('acc, 'b) pallet \<Rightarrow> bool" where
  "minted_as C s h a n t \<longleftrightarrow>
     (\<exists>m. map_of (ExecutedMintTransactions t) h = Some m \<and> mt_target m = a \<and> mt_amount m = n \<and>
        unat (mt_votes m) = quorum s) \<and>
     map_of (MintTransactions t) h = None \<and>
     Balances t = fee_paid C s (DepositFee s) (deposit_creating C a (n - DepositFee s) (Balances s))"

lemma vote_last:
  assumes "map_of (MintTransactions s) h = Some tx" and "unat (mt_votes tx) + 1 = quorum s" and "quorum s < 2 ^ 32"
    and "DepositFee s < mt_amount tx"
  shows "\<exists>t. vote_stellar_mint_transaction C h s = Inr t \<and> minted_as C s h (mt_target tx) (mt_amount tx) t"
proof -
  have "unat (mt_votes tx + 1) = unat (mt_votes tx) + 1"
    using assms(2,3) by (simp add: unat_word_ariths)
  with assms show ?thesis
    by (simp add: vote_stellar_mint_transaction_def mint_tft_def Let_def quorum_def fee_paid_def minted_as_def)
qed

lemma votes_complete:
  assumes "map_of (MintTransactions s) h = Some tx" and "map_of (ExecutedMintTransactions s) h = None"
    and "unat (mt_votes tx) + length votes = quorum s" and "votes \<noteq> []" and "quorum s < 2 ^ 32"
    and "DepositFee s < mt_amount tx" and "\<forall>(v, a, n)\<in>set votes. check_if_validator_exists v s"
  shows "\<exists>t. run_calls C (vote_calls h votes) s = Inr t \<and> minted_as C s h (mt_target tx) (mt_amount tx) t"
  using assms
proof (induction votes arbitrary: s tx)
  case (Cons x votes)
  obtain v a n where x: "x = (v, a, n)" by (cases x)
  have call: "dispatch C (Signed v) (propose_or_vote_mint_transaction h a n) s = vote_stellar_mint_transaction C h s"
    using Cons.prems(1,2,7) x by (simp add: propose_or_vote_stellar_mint_transaction_def)
  show ?case
  proof (cases "votes = []")
    case True
    with vote_last [OF Cons.prems(1) _ Cons.prems(5,6), of C] Cons.prems(3) obtain t where
      "vote_stellar_mint_transaction C h s = Inr t" "minted_as C s h (mt_target tx) (mt_amount tx) t" by auto
    with True x call show ?thesis by (simp add: vote_calls_def)
  next
    case False
    then have "unat (mt_votes tx) + 1 < quorum s" using Cons.prems(3) by (cases votes) auto
    from vote_pending [OF Cons.prems(1) this Cons.prems(5), of C] obtain u where
      u: "vote_stellar_mint_transaction C h s = Inr u"
      "map_of (MintTransactions u) h = Some (tx\<lparr>mt_votes := mt_votes tx + 1\<rparr>)"
      "ExecutedMintTransactions u = ExecutedMintTransactions s" "Validators u = Validators s"
      "FeeAccount u = FeeAccount s" "DepositFee u = DepositFee s" "Balances u = Balances s"
      "unat (mt_votes tx + 1) = unat (mt_votes tx) + 1" by blast
    have q: "quorum u = quorum s" using u(4) by (simp add: quorum_def)
    have check: "check_if_validator_exists w u = check_if_validator_exists w s" for w
      using u(4) by (simp add: check_if_validator_exists_def)
    have "\<exists>t. run_calls C (vote_calls h votes) u = Inr t \<and> minted_as C u h (mt_target tx) (mt_amount tx) t"
      using Cons.IH [OF u(2)] Cons.prems False u q check by auto
    with call u x show ?thesis
      by (auto simp: vote_calls_def minted_as_def q fee_paid_def)
  qed
qed simp

lemma run_quorum:
  assumes "pallet_inv s" and "map_of (MintTransactions s) h = None" and "map_of (ExecutedMintTransactions s) h = None"
    and "length votes = quorum s" and "quorum s < 2 ^ 32"
    and "\<forall>(v, a, n)\<in>set votes. v \<in> set (Validators s)"
    and "hd votes = (v, a, n)" and "DepositFee s < n"
  shows "\<exists>t. run_calls C (vote_calls h votes) s = Inr t \<and> minted_as C s h a n t"
proof -
  let ?tx = "\<lparr>mt_amount = n, mt_target = a, mt_block = block_number s, mt_votes = 0\<rparr>"
  let ?u = "deposit_event (MintTransactionProposed h a n)
    (s\<lparr>MintTransactions := AList.update h ?tx (MintTransactions s)\<rparr>)"
  have u: "map_of (MintTransactions ?u) h = Some ?tx" "ExecutedMintTransactions ?u = ExecutedMintTransactions s"
    "quorum ?u = quorum s" "Validators ?u = Validators s" "FeeAccount ?u = FeeAccount s"
    "DepositFee ?u = DepositFee s" "Balances ?u = Balances s" by (simp_all add: quorum_def)
  have check: "\<forall>(v, a, n)\<in>set votes. check_if_validator_exists v ?u"
    using assms(6) check_if_validator_exists_iff [OF assms(1)] u(4)
    by (auto simp: check_if_validator_exists_def)
  obtain rest where votes: "votes = (v, a, n) # rest"
    using assms(4,7) by (cases votes) (auto simp: quorum_def)
  have "dispatch C (Signed v) (propose_or_vote_mint_transaction h a n) s = vote_stellar_mint_transaction C h ?u"
    using assms(2,3,6) votes check_if_validator_exists_iff [OF assms(1)]
    by (simp add: propose_or_vote_stellar_mint_transaction_def Let_def)
  moreover have "dispatch C (Signed v) (propose_or_vote_mint_transaction h a n) ?u = vote_stellar_mint_transaction C h ?u"
    using assms(3) u(1,2) check votes by (simp add: propose_or_vote_stellar_mint_transaction_def)
  ultimately have "run_calls C (vote_calls h votes) s = run_calls C (vote_calls h votes) ?u"
    by (simp add: votes vote_calls_def)
  moreover have "\<exists>t. run_calls C (vote_calls h votes) ?u = Inr t \<and> minted_as C ?u h a n t"
    using votes_complete [OF u(1), of votes C] assms(3,4,5,8) u votes check by auto
  ultimately show ?thesis using u by (simp add: minted_as_def fee_paid_def)
qed

text \<open>
  C19: A majority of calls mints: when validators vote for a transaction the chain has not seen, as many
  times as there are validators in a majority, the transaction is executed with the last vote, once and
  for the target and the amount that the first vote named. The votes are counted and not remembered by
  voter, so the calls may all come from one validator, and the later ones may name other targets and
  amounts.
\<close>

theorem quorum_mints:
  assumes "pallet_inv s" and "map_of (MintTransactions s) h = None" and "map_of (ExecutedMintTransactions s) h = None"
    and "length votes = quorum s" and "quorum s < 2 ^ 32"
    and "\<forall>(v, a, n)\<in>set votes. v \<in> set (Validators s)"
    and "hd votes = (v, a, n)" and "DepositFee s < n"
  shows "\<exists>t. run_calls C (vote_calls h votes) s = Inr t \<and> minted_as C s h a n t"
  using run_quorum [OF assms] .

text \<open>Both votes of the sample come from validator 1, and the second names another target and amount.\<close>

theorem quorum_mints_witness:
  "\<exists>t. run_calls ledger_config (vote_calls ''aa'' [(1, 7, 50), (1, 8, 90)]) ledger_start = Inr t \<and>
     minted_as ledger_config ledger_start ''aa'' 7 50 t"
  by (rule quorum_mints [OF reachable_inv [OF ledger_reachable]]) simp_all

section \<open>The life of a withdrawal\<close>

text \<open>What the pallet promises for one withdrawal, without its storage: it is collected for, then burned.\<close>

datatype burn_phase =
    Unknown
  | Collecting uint64 bytes "StellarSignature list"
  | Burned uint64 bytes

definition phase_of :: "('acc, 'b) pallet \<Rightarrow> uint64 \<Rightarrow> burn_phase" where
  "phase_of s i =
     (case map_of (ExecutedBurnTransactions s) i of
        Some tx \<Rightarrow> Burned (bt_amount tx) (bt_target tx)
      | None \<Rightarrow>
          (case map_of (BurnTransactions s) i of
             Some tx \<Rightarrow> Collecting (bt_amount tx) (bt_target tx) (bt_signatures tx)
           | None \<Rightarrow> Unknown))"

text \<open>\<open>q\<close> is the majority at the time of the step.\<close>

inductive phase_step :: "nat \<Rightarrow> burn_phase \<Rightarrow> burn_phase \<Rightarrow> bool" for q where
  phase_stays: "phase_step q p p"
| phase_created: "phase_step q Unknown (Collecting amount target [])"
| phase_signed: "length sigs \<noteq> q \<Longrightarrow> sigs_ok (sigs @ [sig]) \<Longrightarrow>
    phase_step q (Collecting amount target sigs) (Collecting amount target (sigs @ [sig]))"
| phase_expired: "phase_step q (Collecting amount target sigs) (Collecting amount target [])"
| phase_burned: "phase_step q (Collecting amount target sigs) (Burned amount target)"

inductive_simps phase_step_Burned [simp]: "phase_step q (Burned amount target) p"
inductive_cases phase_step_CollectingE: "phase_step q (Collecting amount target sigs) p"

lemma phase_of_cong:
  "map_of (ExecutedBurnTransactions t) i = map_of (ExecutedBurnTransactions s) i \<Longrightarrow>
   map_of (BurnTransactions t) i = map_of (BurnTransactions s) i \<Longrightarrow> phase_of t i = phase_of s i"
  by (simp add: phase_of_def cong: option.case_cong)

lemma same_phase:
  "map_of (ExecutedBurnTransactions t) i = map_of (ExecutedBurnTransactions s) i \<Longrightarrow>
   map_of (BurnTransactions t) i = map_of (BurnTransactions s) i \<Longrightarrow> phase_step q (phase_of s i) (phase_of t i)"
  using phase_of_cong [of t i s] by (simp only: phase_stays)

lemma fresh_burn_id:
  assumes "pallet_inv s" and "BurnTransactionID s < - 1"
  shows "map_of (BurnTransactions s) (BurnTransactionID s + 1) = None"
    "map_of (ExecutedBurnTransactions s) (BurnTransactionID s + 1) = None"
proof -
  have "\<not> BurnTransactionID s + 1 \<le> BurnTransactionID s" using next_id [OF assms(2)] by force
  then have out: "\<not> burn_ok (block_number s) (BurnTransactionID s) (BurnTransactionID s + 1) tx" for tx
    by (simp add: burn_ok_def)
  have b: "map_invariant (burn_ok (block_number s) (BurnTransactionID s)) (BurnTransactions s)"
    and e: "map_invariant (\<lambda>i _. 0 < i \<and> i \<le> BurnTransactionID s) (ExecutedBurnTransactions s)"
    using assms(1) by (simp_all add: pallet_inv_def)
  show "map_of (BurnTransactions s) (BurnTransactionID s + 1) = None"
    using map_invariantD [OF b] out by (metis option.exhaust)
  show "map_of (ExecutedBurnTransactions s) (BurnTransactionID s + 1) = None"
    using map_invariantD [OF e] \<open>\<not> BurnTransactionID s + 1 \<le> BurnTransactionID s\<close> by (metis option.exhaust)
qed

lemma swap_phase:
  assumes "pallet_inv s" and "BurnTransactionID s < - 1" and run: "burn_tft C a target n s = Inr t"
  shows "phase_step q (phase_of s i) (phase_of t i)"
proof (cases "i = BurnTransactionID s + 1")
  case True
  with fresh_burn_id [OF assms(1,2)] show ?thesis
    by (simp add: phase_of_def burn_tft_Inr [OF run] phase_created)
next
  case False
  then show ?thesis by (intro same_phase) (simp_all add: burn_tft_Inr [OF run])
qed

lemma sign_phase:
  assumes inv: "pallet_inv s"
    and run: "propose_stellar_burn_transaction_or_add_sig v j target amount signature key seqno s = Inr t"
  shows "phase_step (quorum s) (phase_of s i) (phase_of t i)"
proof -
  obtain tx where tx: "map_of (BurnTransactions s) j = Some tx" using propose_burn_Inr(3) [OF run] by blast
  note sig = add_burn_sig_Inr [OF propose_burn_Inr(4) [OF run]]
  show ?thesis
  proof (cases "i = j")
    case True
    have "burn_ok (block_number s) (BurnTransactionID s) j tx"
      using inv tx map_invariantD unfolding pallet_inv_def by fast
    then have "sigs_ok (bt_signatures tx @ [\<lparr>Signature = signature, StellarAddress = key\<rparr>])"
      using sig(2) tx by (simp add: burn_ok_def sigs_ok_snoc)
    with True tx sig(1) show ?thesis
      by (simp add: phase_of_def sig(6,7) propose_burn_Inr(2) [OF run] phase_signed)
  next
    case False
    then show ?thesis by (intro same_phase) (simp_all add: sig(6,7))
  qed
qed

lemma block_phase:
  assumes "pallet_inv s"
  shows "phase_step q (phase_of s i) (phase_of (next_block C s) i)"
proof -
  have "map_of (BurnTransactions (next_block C s)) i =
      map_option (expired_burn C (block_number s)) (map_of (BurnTransactions s) i)"
    "ExecutedBurnTransactions (next_block C s) = ExecutedBurnTransactions s"
    using on_finalize_maps(1) [OF assms] by (simp_all add: next_block_def Let_def)
  then show ?thesis
    by (auto simp: phase_of_def expired_burn_def intro: phase_stays phase_expired split: option.splits)
qed

lemma dispatch_phase:
  assumes inv: "pallet_inv s" and "dispatch C origin c s = Inr t" and "BurnTransactionID s < - 1"
  shows "phase_step (quorum s) (phase_of s i) (phase_of t i)"
proof (cases c)
  case (swap_to_stellar target n)
  with assms(2) show ?thesis by (auto intro: swap_phase [OF inv assms(3)])
next
  case (propose_or_vote_mint_transaction h a n)
  with assms(2) show ?thesis by (auto intro!: same_phase simp: propose_mint_executed)
next
  case (propose_burn_transaction_or_add_sig j target n sig key seqno)
  with assms(2) show ?thesis by (auto intro: sign_phase [OF inv])
next
  case (set_burn_transaction_executed j)
  with assms(2) obtain v where "set_stellar_burn_transaction_executed v j s = Inr t" by auto
  then show ?thesis
    by (rule set_burn_executed_Inr) (auto simp: phase_of_def phase_burned phase_stays split: option.splits)
next
  case (create_refund_transaction_or_add_sig g target n sig key seqno)
  with assms(2) show ?thesis by (auto intro!: same_phase simp: create_refund_Inr)
next
  case (set_refund_transaction_executed h)
  with assms(2) show ?thesis by (auto intro!: same_phase elim!: set_refund_executed_Inr)
qed (use assms(2) in \<open>auto intro!: same_phase dest!: add_validator_Inr\<close>)

lemma pallet_step_phase:
  assumes "pallet_inv s" and "pallet_step C s t"
  shows "phase_step (quorum s) (phase_of s i) (phase_of t i)"
  using assms(2)
proof (cases rule: pallet_step.cases)
  case (step_call origin c)
  then show ?thesis using dispatch_phase assms(1) by blast
qed (auto intro: same_phase block_phase assms(1))

text \<open>
  C16: The pallet implements, for every withdrawal, the state machine of collecting and burning: it is
  created once with its amount and target and no signatures; a signature is added, one at a time, only
  while their number differs from the majority, never one already there nor one of a key already there (so
  at a majority no further one is taken, but when validators were removed and more than a majority are left
  over, further ones are); expiry empties the list; execution ends the withdrawal for ever; and every
  step of the chain is one such step or leaves the withdrawal as it is.
\<close>

theorem withdrawal_lifecycle:
  assumes "reachable C s" and "pallet_step C s t"
  shows "phase_step (quorum s) (phase_of s i) (phase_of t i)"
  using pallet_step_phase [OF reachable_inv] assms .

theorem withdrawal_lifecycle_witness:
  "\<exists>t. pallet_step ledger_config ledger_start t \<and> phase_of ledger_start 1 = Unknown \<and>
     phase_of t 1 = Collecting 45 ''GDAVE'' [] \<and> phase_step 2 (phase_of ledger_start 1) (phase_of t 1)"
proof -
  obtain t where t: "dispatch ledger_config (Signed 4) (swap_to_stellar ''GDAVE'' 50) ledger_start = Inr t"
      "map_of (BurnTransactions t) 1 = Some \<lparr>bt_block = 0, bt_amount = 45, bt_target = ''GDAVE'', bt_signatures = [],
       bt_sequence_number = 0\<rparr>" "ExecutedBurnTransactions t = []"
    using ledger_swap by blast
  have step: "pallet_step ledger_config ledger_start t" by (rule step_call [OF t(1)]) simp
  from withdrawal_lifecycle [OF ledger_reachable step, of 1] step t(2,3) show ?thesis
    by (auto simp: phase_of_def)
qed

lemma phase_steps:
  assumes "pallet_steps C s t" and "reachable C s" and "phase_of s i = Collecting amount target sigs"
  shows "(\<exists>sigs'. phase_of t i = Collecting amount target sigs') \<or> phase_of t i = Burned amount target"
  using assms
proof (induction rule: pallet_steps.induct)
  case (steps_step s t u)
  have step: "phase_step (quorum t) (phase_of t i) (phase_of u i)"
    using pallet_step_phase [OF reachable_inv [OF reachable_steps]] steps_step by blast
  from steps_step.IH steps_step.prems consider (collecting) sigs' where "phase_of t i = Collecting amount target sigs'"
    | (burned) "phase_of t i = Burned amount target" by blast
  then show ?case
  proof cases
    case collecting
    with step show ?thesis by (auto elim: phase_step_CollectingE)
  next
    case burned
    with step show ?thesis by simp
  qed
qed auto

text \<open>
  The record of a withdrawal never changes under the daemons that sign it: from the moment it is open,
  its amount and its target stay what they were, until it is executed and beyond.
\<close>

theorem withdrawal_record_fixed:
  assumes "pallet_steps C s t" and "reachable C s" and "phase_of s i = Collecting amount target sigs"
  shows "(\<exists>sigs'. phase_of t i = Collecting amount target sigs') \<or> phase_of t i = Burned amount target"
  using phase_steps [OF assms] .

theorem withdrawal_record_fixed_witness:
  "\<exists>s. reachable ledger_config s \<and> phase_of s 1 = Collecting 45 ''GDAVE'' [] \<and>
     (\<exists>sigs. phase_of (next_block ledger_config s) 1 = Collecting 45 ''GDAVE'' sigs \<or>
       phase_of (next_block ledger_config s) 1 = Burned 45 ''GDAVE'')"
proof -
  obtain s where s: "dispatch ledger_config (Signed 4) (swap_to_stellar ''GDAVE'' 50) ledger_start = Inr s"
      "map_of (BurnTransactions s) 1 = Some \<lparr>bt_block = 0, bt_amount = 45, bt_target = ''GDAVE'', bt_signatures = [],
       bt_sequence_number = 0\<rparr>" "ExecutedBurnTransactions s = []" "block_number s = 0"
    using ledger_swap by blast
  have r: "reachable ledger_config s" by (rule reach_step [OF ledger_reachable step_call [OF s(1)]]) simp
  have p: "phase_of s 1 = Collecting 45 ''GDAVE'' []" using s(2,3) by (simp add: phase_of_def)
  have "block_number s < - 1" by (simp add: s(4))
  then have "pallet_steps ledger_config s (next_block ledger_config s)"
    by (rule steps_step [OF steps_refl step_block])
  from withdrawal_record_fixed [OF this r p] r p show ?thesis by blast
qed

end
