(* ===== verification/PalletEvents.thy ===== *)
theory PalletEvents
  imports PalletSafety
begin

text \<open>
  The events that drive the daemons: a ready event comes with a majority of signatures on record, an
  expiry event with an entry that was reset, and an expired withdrawal can be signed anew; and the places
  where the pallet does not keep its promise, a refund that can be opened again after it was executed,
  signatures taken beyond the majority, and a genesis whose validators are not in order. A small chain is the sample on which the hypotheses are shown to hold.
\<close>

section \<open>Ready\<close>

fun ready_event :: "'acc pallet_event \<Rightarrow> bool" where
  "ready_event (BurnTransactionReady i) = True"
| "ready_event (RefundTransactionReady h) = True"
| "ready_event _ = False"

text \<open>The events a call added, and that none of them is a ready event.\<close>

definition adds_no_ready :: "('acc, 'b) pallet \<Rightarrow> ('acc, 'b) pallet \<Rightarrow> bool" where
  "adds_no_ready s t \<longleftrightarrow> (\<exists>new. EventLog t = EventLog s @ new \<and> (\<forall>e\<in>set new. \<not> ready_event e))"

lemma adds_no_readyI: "EventLog t = EventLog s @ new \<Longrightarrow> \<forall>e\<in>set new. \<not> ready_event e \<Longrightarrow> adds_no_ready s t"
  by (auto simp: adds_no_ready_def)

lemma adds_no_readyD: "adds_no_ready s t \<Longrightarrow> EventLog t = EventLog s @ new \<Longrightarrow> e \<in> set new \<Longrightarrow> \<not> ready_event e"
  by (auto simp: adds_no_ready_def)

lemma adds_no_ready_same: "EventLog t = EventLog s \<Longrightarrow> adds_no_ready s t"
  by (rule adds_no_readyI [where new = "[]"]) simp_all

lemma vote_adds_no_ready:
  assumes "vote_stellar_mint_transaction C h s = Inr t"
  shows "adds_no_ready s t"
  using assms
proof (cases rule: vote_Inr)
  case (voted tx)
  then show ?thesis by (intro adds_no_readyI [where new = "[MintTransactionVoted h]"]) simp_all
next
  case (minted tx)
  from mint_tft_storage(11) [OF minted(3)] show ?thesis
    by (intro adds_no_readyI [where new = "[MintTransactionVoted h, MintCompleted _]"]) simp_all
qed (simp add: adds_no_ready_same)

lemma propose_mint_adds_no_ready:
  assumes "propose_or_vote_stellar_mint_transaction C v h a n s = Inr t"
  shows "adds_no_ready s t"
  using assms
proof (rule propose_mint_Inr)
  fix u assume vote: "vote_stellar_mint_transaction C h u = Inr t"
    and u: "u = s \<or> (map_of (MintTransactions s) h = None \<and>
       u = deposit_event (MintTransactionProposed h a n) (s\<lparr>MintTransactions := AList.update h
         \<lparr>mt_amount = n, mt_target = a, mt_block = block_number s, mt_votes = 0\<rparr> (MintTransactions s)\<rparr>))"
  have "adds_no_ready u t" by (rule vote_adds_no_ready [OF vote])
  with u show ?thesis by (auto simp: adds_no_ready_def)
qed

text \<open>The calls that are not about a signature add no ready event.\<close>

lemma dispatch_adds_no_ready:
  assumes "dispatch C origin c s = Inr t"
    and "\<nexists>i target n sig key seqno. c = propose_burn_transaction_or_add_sig i target n sig key seqno"
    and "\<nexists>h target n sig key seqno. c = create_refund_transaction_or_add_sig h target n sig key seqno"
  shows "adds_no_ready s t"
proof (cases c)
  case (swap_to_stellar target n)
  with assms(1) show ?thesis by (auto intro!: adds_no_readyI burn_tft_Inr(14))
next
  case (propose_or_vote_mint_transaction h a n)
  with assms(1) show ?thesis by (auto intro: propose_mint_adds_no_ready)
next
  case (set_burn_transaction_executed i)
  with assms(1) show ?thesis by (auto elim!: set_burn_executed_Inr intro!: adds_no_readyI)
next
  case (set_refund_transaction_executed h)
  with assms(1) show ?thesis by (auto elim!: set_refund_executed_Inr intro!: adds_no_readyI)
qed (use assms in \<open>auto dest!: add_validator_Inr intro!: adds_no_ready_same\<close>)

lemma burn_ready:
  assumes inv: "pallet_inv s"
    and run: "propose_stellar_burn_transaction_or_add_sig v j target amount signature key seqno s = Inr t"
    and new: "EventLog t = EventLog s @ new" and ready: "BurnTransactionReady i \<in> set new"
  shows "\<exists>tx. map_of (BurnTransactions t) i = Some tx \<and> i = j \<and> amount = bt_amount tx \<and> target = bt_target tx \<and>
    quorum t \<le> length (bt_signatures tx) \<and> sigs_ok (bt_signatures tx)"
proof -
  obtain tx where tx: "map_of (BurnTransactions s) j = Some tx" "bt_amount tx = amount" "bt_target tx = target"
    using propose_burn_Inr(3) [OF run] by blast
  note sig = add_burn_sig_Inr [OF propose_burn_Inr(4) [OF run]]
  from sig(12) new ready have ij: "i = j" and q: "quorum s \<le> length (bt_signatures tx) + 1"
    using tx(1) by (auto split: if_splits)
  have "quorum t = quorum s" using sig(3) by (simp add: quorum_def)
  moreover have "burn_ok (block_number t) (BurnTransactionID t) j (get_or default_burn (BurnTransactions t) j)"
    using propose_burn_inv [OF inv run] sig(6) map_invariantD unfolding pallet_inv_def by (fastforce simp: get_or_def)
  ultimately show ?thesis using ij q sig(6) tx by (simp add: burn_ok_def get_or_def)
qed

text \<open>The two ways of a refund call: a signature for an open refund, or a new refund with its first signature.\<close>

lemma create_refund_sig:
  fixes s t :: "('acc::linorder, 'b) pallet"
  assumes "create_stellar_refund_transaction_or_add_sig v j target amount signature key seqno s = Inr t"
  shows "\<exists>(u :: ('acc, 'b) pallet) w. add_stellar_sig_refund_transaction j signature key seqno u = Inr w \<and> Validators u = Validators s \<and>
    Balances u = Balances s \<and> EventLog u = EventLog s \<and> RefundTransactions t = RefundTransactions w \<and> Validators t = Validators w \<and>
    (EventLog t = EventLog w \<or> EventLog t = EventLog w @ [RefundTransactionCreated j target amount])"
proof (cases "map_of (RefundTransactions s) j")
  case (Some tx)
  with assms have "add_stellar_sig_refund_transaction j signature key seqno s = Inr t"
    by (auto simp: create_stellar_refund_transaction_or_add_sig_def split: if_splits)
  then show ?thesis by (intro exI [of _ s] exI [of _ t]) simp
next
  case None
  let ?u = "s\<lparr>RefundTransactions := AList.update j \<lparr>rt_block = block_number s, rt_amount = amount,
    rt_target = target, rt_tx_hash = j, rt_signatures = [], rt_sequence_number = seqno\<rparr> (RefundTransactions s)\<rparr>"
  from assms None obtain w where "add_stellar_sig_refund_transaction j signature key seqno ?u = Inr w"
    "t = deposit_event (RefundTransactionCreated j target amount) w"
    by (auto simp: create_stellar_refund_transaction_or_add_sig_def Let_def split: if_splits sum.splits)
  then show ?thesis by (intro exI [of _ ?u] exI [of _ w]) simp
qed

lemma refund_ready:
  assumes inv: "pallet_inv s"
    and run: "create_stellar_refund_transaction_or_add_sig v j target amount signature key seqno s = Inr t"
    and new: "EventLog t = EventLog s @ new" and ready: "RefundTransactionReady h \<in> set new"
  shows "\<exists>tx. map_of (RefundTransactions t) h = Some tx \<and> h = j \<and>
    quorum t \<le> length (rt_signatures tx) \<and> sigs_ok (rt_signatures tx)"
proof -
  obtain u w where sig: "add_stellar_sig_refund_transaction j signature key seqno u = Inr w"
    and u: "Validators u = Validators s" "Balances u = Balances s" "EventLog u = EventLog s" and t: "RefundTransactions t = RefundTransactions w"
    "Validators t = Validators w" "EventLog t = EventLog w \<or> EventLog t = EventLog w @ [RefundTransactionCreated j target amount]"
    using create_refund_sig [OF run] by blast
  note sig = add_refund_sig_Inr [OF sig]
  let ?tx = "get_or default_refund (RefundTransactions u) j"
  have hj: "h = j" and q: "quorum u \<le> length (rt_signatures ?tx) + 1"
    using sig(12) u(3) t(3) new ready by (auto split: if_splits)
  have "quorum t = quorum u" using sig(3) t(2) by (simp add: quorum_def)
  moreover have "refund_ok (block_number t) j (get_or default_refund (RefundTransactions t) j)"
    using create_refund_inv [OF inv run] sig(8) t(1) map_invariantD unfolding pallet_inv_def by (fastforce simp: get_or_def)
  ultimately show ?thesis using hj q sig(8) t(1) by (simp add: refund_ok_def get_or_def)
qed

text \<open>
  C17: When the chain says that a withdrawal or a refund is ready, a call of a validator has just completed
  it: the record in storage holds at least a majority of signatures, all with different keys, and for
  a withdrawal the call was for exactly the recorded amount and target.
\<close>

theorem ready_has_quorum:
  assumes "pallet_inv s" and "dispatch C origin c s = Inr t" and "EventLog t = EventLog s @ new"
  shows "(BurnTransactionReady i \<in> set new \<longrightarrow>
      (\<exists>v signature key seqno tx. origin = Signed v \<and> v \<in> set (Validators s) \<and>
         map_of (BurnTransactions t) i = Some tx \<and>
         c = propose_burn_transaction_or_add_sig i (bt_target tx) (bt_amount tx) signature key seqno \<and>
         quorum t \<le> length (bt_signatures tx) \<and> sigs_ok (bt_signatures tx))) \<and>
    (RefundTransactionReady h \<in> set new \<longrightarrow>
      (\<exists>v target amount signature key seqno tx. origin = Signed v \<and> v \<in> set (Validators s) \<and>
         map_of (RefundTransactions t) h = Some tx \<and>
         c = create_refund_transaction_or_add_sig h target amount signature key seqno \<and>
         quorum t \<le> length (rt_signatures tx) \<and> sigs_ok (rt_signatures tx)))"
proof (cases c)
  case (propose_burn_transaction_or_add_sig j target n signature key seqno)
  then obtain v where v: "origin = Signed v"
    and run: "propose_stellar_burn_transaction_or_add_sig v j target n signature key seqno s = Inr t"
    using assms(2) by auto
  have "RefundTransactionReady h \<notin> set new"
    using add_burn_sig_Inr(12) [OF propose_burn_Inr(4) [OF run]] assms(3) by (auto split: if_splits)
  moreover have "v \<in> set (Validators s)"
    using propose_burn_Inr(1) [OF run] check_if_validator_exists_iff [OF assms(1)] by blast
  ultimately show ?thesis
    using burn_ready [OF assms(1) run assms(3)] by (auto simp: v propose_burn_transaction_or_add_sig)
next
  case (create_refund_transaction_or_add_sig j target n signature key seqno)
  then obtain v where v: "origin = Signed v"
    and run: "create_stellar_refund_transaction_or_add_sig v j target n signature key seqno s = Inr t"
    using assms(2) by auto
  obtain u w where sig: "add_stellar_sig_refund_transaction j signature key seqno u = Inr w"
    and u: "Balances u = Balances s" "EventLog u = EventLog s" "EventLog t = EventLog w \<or> EventLog t = EventLog w @ [RefundTransactionCreated j target n]"
    using create_refund_sig [OF run] by blast
  have "BurnTransactionReady i \<notin> set new"
    using add_refund_sig_Inr(12) [OF sig] u assms(3) by (auto split: if_splits)
  moreover have "v \<in> set (Validators s)"
    using create_refund_Inr(1) [OF run] check_if_validator_exists_iff [OF assms(1)] by blast
  ultimately show ?thesis
    using refund_ready [OF assms(1) run assms(3)] by (auto simp: v create_refund_transaction_or_add_sig)
qed (use dispatch_adds_no_ready [OF assms(2)] adds_no_readyD [OF _ assms(3)] in fastforce)+

text \<open>Two of three validators sign the withdrawal of the sample.\<close>

theorem ready_has_quorum_witness:
  "\<exists>s t tx. dispatch ledger_config (Signed 2) (propose_burn_transaction_or_add_sig 1 ''GDAVE'' 45 ''s2'' ''k2'' 8) s = Inr t \<and>
     map_of (BurnTransactions t) 1 = Some tx \<and> quorum t \<le> length (bt_signatures tx)"
proof -
  obtain u where u: "dispatch ledger_config (Signed 4) (swap_to_stellar ''GDAVE'' 50) ledger_start = Inr u"
      "map_of (BurnTransactions u) 1 = Some \<lparr>bt_block = 0, bt_amount = 45, bt_target = ''GDAVE'', bt_signatures = [],
       bt_sequence_number = 0\<rparr>" "ExecutedBurnTransactions u = []" "Validators u = [1, 2, 3]" "BurnTransactionID u = 1"
    using ledger_swap by blast
  have "pallet_inv u" using dispatch_inv [OF reachable_inv [OF ledger_reachable] u(1)] by simp
  have "\<exists>s. dispatch ledger_config (Signed 1) (propose_burn_transaction_or_add_sig 1 ''GDAVE'' 45 ''s1'' ''k1'' 8) u = Inr s \<and>
      map_of (BurnTransactions s) 1 = Some \<lparr>bt_block = 0, bt_amount = 45, bt_target = ''GDAVE'',
        bt_signatures = [\<lparr>Signature = ''s1'', StellarAddress = ''k1''\<rparr>], bt_sequence_number = 8\<rparr> \<and>
      ExecutedBurnTransactions s = [] \<and> Validators s = [1, 2, 3]"
    using u(2-4) by (simp add: pallet_call_defs ledger_validator)
  then obtain s where s: "dispatch ledger_config (Signed 1) (propose_burn_transaction_or_add_sig 1 ''GDAVE'' 45 ''s1'' ''k1'' 8) u = Inr s"
      "map_of (BurnTransactions s) 1 = Some \<lparr>bt_block = 0, bt_amount = 45, bt_target = ''GDAVE'',
        bt_signatures = [\<lparr>Signature = ''s1'', StellarAddress = ''k1''\<rparr>], bt_sequence_number = 8\<rparr>"
      "ExecutedBurnTransactions s = []" "Validators s = [1, 2, 3]" by blast
  have inv: "pallet_inv s" using dispatch_inv [OF \<open>pallet_inv u\<close> s(1)] u(5) by simp
  have "\<exists>t new. dispatch ledger_config (Signed 2) (propose_burn_transaction_or_add_sig 1 ''GDAVE'' 45 ''s2'' ''k2'' 8) s = Inr t \<and>
      EventLog t = EventLog s @ new \<and> BurnTransactionReady 1 \<in> set new"
    using s(2-4) by (simp add: pallet_call_defs ledger_validator)
  then obtain t new where t: "dispatch ledger_config (Signed 2) (propose_burn_transaction_or_add_sig 1 ''GDAVE'' 45 ''s2'' ''k2'' 8) s = Inr t"
    "EventLog t = EventLog s @ new" "BurnTransactionReady 1 \<in> set new" by blast
  from ready_has_quorum [OF inv t(1,2), of 1] t(1,3) show ?thesis by blast
qed

section \<open>Expiry\<close>

lemma expire_burns_events:
  "EventLog (expire_burns C now txs s) = EventLog s @
     map (\<lambda>(i, tx). BurnTransactionExpired i (bt_target tx) (bt_amount tx)) (filter (\<lambda>(i, tx). is_expired C now (bt_block tx)) txs)"
  by (induction txs arbitrary: s) (auto simp: Let_def)

lemma expire_refunds_events:
  "EventLog (expire_refunds C now txs s) = EventLog s @
     map (\<lambda>(i, tx). RefundTransactionExpired i (rt_target tx) (rt_amount tx)) (filter (\<lambda>(i, tx). is_expired C now (rt_block tx)) txs)"
  by (induction txs arbitrary: s) (auto simp: Let_def)

lemma unat_interval: "unat (ucast (x :: uint32) :: uint64) = unat x"
proof -
  have "unat x < 2 ^ 64" using unsigned_less [of x, where ?'a = nat] by simp
  then show ?thesis by (simp add: unsigned_ucast_eq take_bit_nat_eq_self)
qed

text \<open>The age of an entry counts without wrapping, since its block is not in the future.\<close>

lemma is_expired_age:
  assumes "b \<le> now"
  shows "is_expired C now b \<longleftrightarrow> unat (RetryInterval C) \<le> unat now - unat b"
proof -
  have "unat (now - b) = unat now - unat b" using assms by (rule unat_sub)
  then show ?thesis by (simp add: is_expired_def word_le_nat_alt unat_interval)
qed

definition due :: "('acc, 'b) pallet_config \<Rightarrow> ('acc, 'b) pallet \<Rightarrow> uint64 \<Rightarrow> bool" where
  "due C s b \<longleftrightarrow> unat (RetryInterval C) \<le> unat (block_number s) - unat b"

lemma is_expired_due:
  assumes "pallet_inv s"
  shows "map_of (BurnTransactions s) i = Some b \<Longrightarrow> is_expired C (block_number s) (bt_block b) = due C s (bt_block b)"
    and "map_of (RefundTransactions s) h = Some r \<Longrightarrow> is_expired C (block_number s) (rt_block r) = due C s (rt_block r)"
  using assms map_invariantD is_expired_age unfolding pallet_inv_def burn_ok_def refund_ok_def due_def by fast+

text \<open>
  C20: At the end of a block exactly the open withdrawals and refunds that are as old as the retry interval
  start again: their signatures and sequence number are dropped, their age starts anew, and an expiry
  event with the recorded target and amount tells the daemons to sign again; all others stay as they
  are. The age never wraps.
\<close>

theorem expiry_restarts_due:
  assumes "pallet_inv s"
  shows "map_of (BurnTransactions (next_block C s)) i = map_option (\<lambda>tx. if due C s (bt_block tx)
      then tx\<lparr>bt_signatures := [], bt_sequence_number := 0, bt_block := block_number s\<rparr> else tx) (map_of (BurnTransactions s) i) \<and>
    map_of (RefundTransactions (next_block C s)) h = map_option (\<lambda>tx. if due C s (rt_block tx)
      then tx\<lparr>rt_signatures := [], rt_sequence_number := 0, rt_block := block_number s\<rparr> else tx) (map_of (RefundTransactions s) h) \<and>
    (\<exists>new. EventLog (on_finalize C (block_number s) s) = EventLog s @ new \<and>
       (BurnTransactionExpired i target amount \<in> set new \<longleftrightarrow>
          (\<exists>tx. map_of (BurnTransactions s) i = Some tx \<and> due C s (bt_block tx) \<and> target = bt_target tx \<and> amount = bt_amount tx)) \<and>
       (RefundTransactionExpired h target amount \<in> set new \<longleftrightarrow>
          (\<exists>tx. map_of (RefundTransactions s) h = Some tx \<and> due C s (rt_block tx) \<and> target = rt_target tx \<and> amount = rt_amount tx)))"
proof (intro conjI)
  note due = is_expired_due [OF assms]
  show "map_of (BurnTransactions (next_block C s)) i = map_option (\<lambda>tx. if due C s (bt_block tx)
      then tx\<lparr>bt_signatures := [], bt_sequence_number := 0, bt_block := block_number s\<rparr> else tx) (map_of (BurnTransactions s) i)"
    using on_finalize_maps(1) [OF assms] due(1) [of i]
    by (cases "map_of (BurnTransactions s) i") (simp_all add: next_block_def Let_def expired_burn_def)
  show "map_of (RefundTransactions (next_block C s)) h = map_option (\<lambda>tx. if due C s (rt_block tx)
      then tx\<lparr>rt_signatures := [], rt_sequence_number := 0, rt_block := block_number s\<rparr> else tx) (map_of (RefundTransactions s) h)"
    using on_finalize_maps(2) [OF assms] due(2) [of h]
    by (cases "map_of (RefundTransactions s) h") (simp_all add: next_block_def Let_def expired_refund_def)
  have d: "distinct (map fst (BurnTransactions s))" "distinct (map fst (RefundTransactions s))"
    using assms by (simp_all add: pallet_inv_def map_invariant_def)
  have "EventLog (on_finalize C (block_number s) s) = EventLog s @
      map (\<lambda>(i, tx). BurnTransactionExpired i (bt_target tx) (bt_amount tx))
        (filter (\<lambda>(i, tx). is_expired C (block_number s) (bt_block tx)) (BurnTransactions s)) @
      map (\<lambda>(i, tx). RefundTransactionExpired i (rt_target tx) (rt_amount tx))
        (filter (\<lambda>(i, tx). is_expired C (block_number s) (rt_block tx)) (RefundTransactions s))"
    by (simp add: on_finalize_def Let_def expire_burns_events expire_refunds_events)
  moreover have "(i, tx) \<in> set (BurnTransactions s) \<longleftrightarrow> map_of (BurnTransactions s) i = Some tx"
    "(h, r) \<in> set (RefundTransactions s) \<longleftrightarrow> map_of (RefundTransactions s) h = Some r" for tx r
    using d by simp_all
  ultimately show "\<exists>new. EventLog (on_finalize C (block_number s) s) = EventLog s @ new \<and>
       (BurnTransactionExpired i target amount \<in> set new \<longleftrightarrow>
          (\<exists>tx. map_of (BurnTransactions s) i = Some tx \<and> due C s (bt_block tx) \<and> target = bt_target tx \<and> amount = bt_amount tx)) \<and>
       (RefundTransactionExpired h target amount \<in> set new \<longleftrightarrow>
          (\<exists>tx. map_of (RefundTransactions s) h = Some tx \<and> due C s (rt_block tx) \<and> target = rt_target tx \<and> amount = rt_amount tx))"
    using due by (auto simp: image_iff)
qed

text \<open>With an interval of no blocks the withdrawal of the sample is due at once.\<close>

theorem expiry_restarts_due_witness:
  "\<exists>s. map_of (BurnTransactions (next_block (ledger_config\<lparr>RetryInterval := 0\<rparr>) s)) 1 =
       Some \<lparr>bt_block = 0, bt_amount = 45, bt_target = ''GDAVE'', bt_signatures = [], bt_sequence_number = 0\<rparr> \<and>
     BurnTransactionExpired 1 ''GDAVE'' 45 \<in> set (EventLog (on_finalize (ledger_config\<lparr>RetryInterval := 0\<rparr>) (block_number s) s))"
proof -
  let ?C = "ledger_config\<lparr>RetryInterval := 0\<rparr>"
  obtain s where s: "dispatch ledger_config (Signed 4) (swap_to_stellar ''GDAVE'' 50) ledger_start = Inr s"
      "map_of (BurnTransactions s) 1 = Some \<lparr>bt_block = 0, bt_amount = 45, bt_target = ''GDAVE'', bt_signatures = [],
       bt_sequence_number = 0\<rparr>" "block_number s = 0"
    using ledger_swap by blast
  have inv: "pallet_inv s" using dispatch_inv [OF reachable_inv [OF ledger_reachable] s(1)] by simp
  from expiry_restarts_due [OF inv, of ?C 1 "''aa''" "''GDAVE''" 45] s(2,3) show ?thesis
    by (intro exI [of _ s]) (auto simp: due_def)
qed

section \<open>Signing anew\<close>

text \<open>
  A signature for an open withdrawal, with the recorded amount and target, of a new key and itself new, is
  accepted unless the number of signatures is exactly a majority; the call says ready when there is a
  majority with it.
\<close>

lemma signature_accepted:
  assumes "check_if_validator_exists v s" and "map_of (ExecutedBurnTransactions s) i = None"
    and "map_of (BurnTransactions s) i = Some tx" and "length (bt_signatures tx) \<noteq> quorum s"
    and "\<not> signature_exists (bt_signatures tx) signature key"
  shows "\<exists>t. dispatch C (Signed v) (propose_burn_transaction_or_add_sig i (bt_target tx) (bt_amount tx) signature key seqno) s = Inr t \<and>
    map_of (BurnTransactions t) i = Some (tx\<lparr>bt_sequence_number := seqno,
      bt_signatures := bt_signatures tx @ [\<lparr>Signature = signature, StellarAddress = key\<rparr>]\<rparr>) \<and>
    ExecutedBurnTransactions t = ExecutedBurnTransactions s \<and> Validators t = Validators s \<and>
    (\<exists>new. EventLog t = EventLog s @ new \<and> (BurnTransactionReady i \<in> set new \<longleftrightarrow> quorum s \<le> Suc (length (bt_signatures tx))))"
  using assms
  by (simp add: propose_stellar_burn_transaction_or_add_sig_def add_stellar_sig_burn_transaction_def Let_def quorum_def
      get_or_def contains_key_def)

text \<open>
  So with more signatures than a majority, which removed validators leave behind, further signatures are
  taken, each with another ready event.
\<close>

theorem signed_beyond_majority:
  assumes "check_if_validator_exists v s" and "map_of (ExecutedBurnTransactions s) i = None"
    and "map_of (BurnTransactions s) i = Some tx" and "quorum s < length (bt_signatures tx)"
    and "\<not> signature_exists (bt_signatures tx) signature key"
  shows "\<exists>t new. dispatch C (Signed v) (propose_burn_transaction_or_add_sig i (bt_target tx) (bt_amount tx) signature key seqno) s = Inr t \<and>
    EventLog t = EventLog s @ new \<and> BurnTransactionReady i \<in> set new"
  using signature_accepted [OF assms(1-3) _ assms(5), of C seqno] assms(4) by fastforce

definition sign_calls ::
    "uint64 \<Rightarrow> bytes \<Rightarrow> uint64 \<Rightarrow> uint64 \<Rightarrow> ('acc \<times> bytes \<times> bytes) list \<Rightarrow> ('acc \<times> 'acc call) list" where
  "sign_calls i target amount seqno signers =
     map (\<lambda>(v, signature, key). (v, propose_burn_transaction_or_add_sig i target amount signature key seqno)) signers"

definition signatures_of :: "('acc \<times> bytes \<times> bytes) list \<Rightarrow> StellarSignature list" where
  "signatures_of signers = map (\<lambda>(v, signature, key). \<lparr>Signature = signature, StellarAddress = key\<rparr>) signers"

lemma signers_complete:
  assumes "map_of (BurnTransactions s) i = Some tx" and "map_of (ExecutedBurnTransactions s) i = None"
    and "length (bt_signatures tx) + length signers = quorum s" and "signers \<noteq> []"
    and "sigs_ok (bt_signatures tx @ signatures_of signers)" and "\<forall>(v, _)\<in>set signers. check_if_validator_exists v s"
  shows "\<exists>t. run_calls C (sign_calls i (bt_target tx) (bt_amount tx) seqno signers) s = Inr t \<and>
    map_of (BurnTransactions t) i = Some (tx\<lparr>bt_sequence_number := seqno, bt_signatures := bt_signatures tx @ signatures_of signers\<rparr>) \<and>
    (\<exists>new. EventLog t = EventLog s @ new \<and> BurnTransactionReady i \<in> set new)"
  using assms
proof (induction signers arbitrary: s tx)
  case (Cons x signers)
  obtain v signature key where x: "x = (v, signature, key)" by (cases x)
  let ?tx = "tx\<lparr>bt_sequence_number := seqno, bt_signatures := bt_signatures tx @ [\<lparr>Signature = signature, StellarAddress = key\<rparr>]\<rparr>"
  have "check_if_validator_exists v s" using Cons.prems(6) x by simp
  moreover have "length (bt_signatures tx) \<noteq> quorum s" using Cons.prems(3) by simp
  moreover have "\<not> signature_exists (bt_signatures tx) signature key"
    using Cons.prems(5) x by (auto simp: sigs_ok_def signatures_of_def signature_exists_def)
  ultimately obtain u new where
    call: "dispatch C (Signed v) (propose_burn_transaction_or_add_sig i (bt_target tx) (bt_amount tx) signature key seqno) s = Inr u"
    and u: "map_of (BurnTransactions u) i = Some ?tx" "ExecutedBurnTransactions u = ExecutedBurnTransactions s"
      "Validators u = Validators s" "EventLog u = EventLog s @ new"
      "BurnTransactionReady i \<in> set new \<longleftrightarrow> quorum s \<le> Suc (length (bt_signatures tx))"
    using signature_accepted [OF _ Cons.prems(2,1), of v signature key C seqno] by blast
  show ?case
  proof (cases "signers = []")
    case True
    with call u Cons.prems(3) x show ?thesis by (simp add: sign_calls_def signatures_of_def)
  next
    case False
    have "quorum u = quorum s" "\<And>w. check_if_validator_exists w u = check_if_validator_exists w s"
      using u(3) by (simp_all add: quorum_def check_if_validator_exists_def)
    then have "\<exists>t. run_calls C (sign_calls i (bt_target ?tx) (bt_amount ?tx) seqno signers) u = Inr t \<and>
        map_of (BurnTransactions t) i = Some (?tx\<lparr>bt_sequence_number := seqno, bt_signatures := bt_signatures ?tx @ signatures_of signers\<rparr>) \<and>
        (\<exists>new. EventLog t = EventLog u @ new \<and> BurnTransactionReady i \<in> set new)"
      using Cons.prems u False x by (intro Cons.IH) (simp_all add: signatures_of_def)
    with call x u(4) show ?thesis by (auto simp: sign_calls_def signatures_of_def)
  qed
qed simp

text \<open>
  C11: No open withdrawal is stuck, and none is safe from being paid again: when one is as old as the retry
  interval at the end of a block, then any validators, as many as a majority, with keys and signatures of
  their own, complete it again in the next one under any sequence number, whatever was signed before. Every
  call of theirs is accepted, the record keeps its amount and target and holds exactly the new signatures,
  and the last call emits the ready event on which the daemons pay. The pallet knows nothing of payments on
  Stellar, so this holds also when the withdrawal was paid already and only the report did not get through.
\<close>

theorem expired_withdrawal_is_signed_again:
  assumes "pallet_inv s" and "map_of (BurnTransactions s) i = Some tx" and "due C s (bt_block tx)"
    and "length signers = quorum s" and "\<forall>(v, _)\<in>set signers. v \<in> set (Validators s)" and "sigs_ok (signatures_of signers)"
  shows "\<exists>t. run_calls C (sign_calls i (bt_target tx) (bt_amount tx) seqno signers) (next_block C s) = Inr t \<and>
    map_of (BurnTransactions t) i = Some (tx\<lparr>bt_block := block_number s, bt_sequence_number := seqno,
      bt_signatures := signatures_of signers\<rparr>) \<and>
    (\<exists>new. EventLog t = EventLog (next_block C s) @ new \<and> BurnTransactionReady i \<in> set new)"
proof -
  let ?s = "next_block C s" and ?tx = "expired_burn C (block_number s) tx"
  have tx: "?tx = tx\<lparr>bt_block := block_number s, bt_sequence_number := 0, bt_signatures := []\<rparr>"
    using is_expired_due(1) [OF assms(1,2)] assms(3) by (simp add: expired_burn_def)
  have keep: "Validators ?s = Validators s" "ExecutedBurnTransactions ?s = ExecutedBurnTransactions s"
    by (simp_all add: next_block_def Let_def)
  have "map_of (BurnTransactions ?s) i = Some ?tx"
    using on_finalize_maps(1) [OF assms(1)] assms(2) by (simp add: next_block_def Let_def)
  moreover have "map_of (ExecutedBurnTransactions ?s) i = None"
    using assms(1,2) disjoint_keysD unfolding keep by (fastforce simp: pallet_inv_def)
  moreover have "length (bt_signatures ?tx) + length signers = quorum ?s"
    using assms(4) keep by (simp add: tx quorum_def)
  moreover have "signers \<noteq> []" using assms(4) by (auto simp: quorum_def)
  moreover have "sigs_ok (bt_signatures ?tx @ signatures_of signers)" using assms(6) by (simp add: tx)
  moreover have "\<forall>(v, _)\<in>set signers. check_if_validator_exists v ?s"
    using assms(5) check_if_validator_exists_iff [OF assms(1)] keep(1) by (auto simp: check_if_validator_exists_def)
  ultimately have "\<exists>t. run_calls C (sign_calls i (bt_target ?tx) (bt_amount ?tx) seqno signers) ?s = Inr t \<and>
      map_of (BurnTransactions t) i = Some (?tx\<lparr>bt_sequence_number := seqno, bt_signatures := bt_signatures ?tx @ signatures_of signers\<rparr>) \<and>
      (\<exists>new. EventLog t = EventLog ?s @ new \<and> BurnTransactionReady i \<in> set new)"
    by (rule signers_complete)
  then show ?thesis by (simp add: tx)
qed

text \<open>The withdrawal of the sample, at once due, is signed by the validators 2 and 3.\<close>

theorem expired_withdrawal_is_signed_again_witness:
  "\<exists>s t. dispatch ledger_config (Signed 4) (swap_to_stellar ''GDAVE'' 50) ledger_start = Inr s \<and>
     run_calls (ledger_config\<lparr>RetryInterval := 0\<rparr>)
       (sign_calls 1 ''GDAVE'' 45 43 [(2, ''s2'', ''k2''), (3, ''s3'', ''k3'')]) (next_block (ledger_config\<lparr>RetryInterval := 0\<rparr>) s) = Inr t \<and>
     BurnTransactionReady 1 \<in> set (EventLog t)"
proof -
  obtain s where s: "dispatch ledger_config (Signed 4) (swap_to_stellar ''GDAVE'' 50) ledger_start = Inr s"
      "map_of (BurnTransactions s) 1 = Some \<lparr>bt_block = 0, bt_amount = 45, bt_target = ''GDAVE'', bt_signatures = [],
       bt_sequence_number = 0\<rparr>" "Validators s = [1, 2, 3]"
    using ledger_swap by blast
  have inv: "pallet_inv s" using dispatch_inv [OF reachable_inv [OF ledger_reachable] s(1)] by simp
  from expired_withdrawal_is_signed_again [OF inv s(2), of "ledger_config\<lparr>RetryInterval := 0\<rparr>"
      "[(2, ''s2'', ''k2''), (3, ''s3'', ''k3'')]" 43] s(1,3) show ?thesis
    by (auto simp: due_def quorum_def sigs_ok_def signatures_of_def)
qed

section \<open>Validators\<close>

text \<open>
  C21: On a chain whose genesis lists its validators in order, the three binary searches of the pallet
  answer membership: a call is accepted exactly from the listed validators, adding refuses exactly a
  listed account and inserts any other, removing refuses exactly an account that is not listed.
\<close>

theorem validators_are_a_set:
  assumes "reachable C s" and "RestrictedOrigin C origin"
  shows "(check_if_validator_exists a s \<longleftrightarrow> a \<in> set (Validators s)) \<and>
    (if a \<in> set (Validators s) then dispatch C origin (add_bridge_validator a) s = Inl ValidatorExists
     else \<exists>t. dispatch C origin (add_bridge_validator a) s = Inr t \<and> set (Validators t) = insert a (set (Validators s))) \<and>
    (if a \<in> set (Validators s)
     then \<exists>t. dispatch C origin (remove_bridge_validator a) s = Inr t \<and> set (Validators t) = set (Validators s) - {a}
     else dispatch C origin (remove_bridge_validator a) s = Inl ValidatorNotExists)"
proof -
  have inv: "pallet_inv s" using assms(1) by (rule reachable_inv)
  then have so: "sorted (Validators s)" "distinct (Validators s)" using pallet_inv_sorted by auto
  show ?thesis
  proof (cases "binary_search (Validators s) a")
    case (Found i)
    with binary_search_Found [OF so(1), of a] have "a \<in> set (Validators s)" by auto
    with Found check_if_validator_exists_iff [OF inv, of a] remove_found_place(3) [OF so Found] assms(2) show ?thesis
      by (simp add: ensure_origin_def add_validator_account_def remove_validator_account_def)
  next
    case (Missing i)
    with insert_found_place [OF so(1) Missing] check_if_validator_exists_iff [OF inv, of a] assms(2) show ?thesis
      by (simp add: ensure_origin_def add_validator_account_def remove_validator_account_def)
  qed
qed

theorem validators_are_a_set_witness:
  "check_if_validator_exists 2 ledger_start \<and> \<not> check_if_validator_exists 5 ledger_start \<and>
   dispatch ledger_config Root (add_bridge_validator 2) ledger_start = Inl ValidatorExists"
  using validators_are_a_set [OF ledger_reachable, of Root 2] validators_are_a_set [OF ledger_reachable, of Root 5]
  by simp

section \<open>Where the promises end\<close>

text \<open>
  A refund can be opened again after it was executed: the call that creates it does not look at the
  executed refunds. The new record collects signatures for another payment of the same deposit, and it
  can never be closed, since marking it executed is refused for ever.
\<close>

theorem executed_refund_reopens:
  assumes "pallet_inv s" and "v \<in> set (Validators s)"
    and "map_of (ExecutedRefundTransactions s) h = Some f" and "map_of (RefundTransactions s) h = None"
  shows "\<exists>t tx. dispatch C (Signed v) (create_refund_transaction_or_add_sig h target amount signature key seqno) s = Inr t \<and>
    map_of (RefundTransactions t) h = Some tx \<and>
    rt_signatures tx = [\<lparr>Signature = signature, StellarAddress = key\<rparr>] \<and>
    (\<forall>u w. pallet_steps C t u \<longrightarrow> (\<exists>e. dispatch C (Signed w) (set_refund_transaction_executed h) u = Inl e))"
proof -
  have check: "check_if_validator_exists v s" using assms(1,2) check_if_validator_exists_iff by blast
  then have "\<exists>t tx. dispatch C (Signed v) (create_refund_transaction_or_add_sig h target amount signature key seqno) s = Inr t \<and>
      map_of (RefundTransactions t) h = Some tx \<and>
      rt_signatures tx = [\<lparr>Signature = signature, StellarAddress = key\<rparr>] \<and>
      map_of (ExecutedRefundTransactions t) h = Some f"
    using assms(3,4)
    by (cases "length (Validators s) div 2 = 0")
       (simp_all add: create_stellar_refund_transaction_or_add_sig_def add_stellar_sig_refund_transaction_def
        get_or_def signature_exists_def quorum_def Let_def)
  then obtain t tx where t: "dispatch C (Signed v) (create_refund_transaction_or_add_sig h target amount signature key seqno) s = Inr t"
      "map_of (RefundTransactions t) h = Some tx"
      "rt_signatures tx = [\<lparr>Signature = signature, StellarAddress = key\<rparr>]"
      "map_of (ExecutedRefundTransactions t) h = Some f" by blast
  have "\<exists>e. dispatch C (Signed w) (set_refund_transaction_executed h) u = Inl e" if "pallet_steps C t u" for u w
    using steps_executed [OF that] t(4)
    by (simp add: keeps_entries_def set_stellar_refund_transaction_executed_def)
  with t show ?thesis by blast
qed

theorem executed_refund_reopens_witness:
  "\<exists>s f t tx. map_of (ExecutedRefundTransactions s) ''ab'' = Some f \<and>
     dispatch ledger_config (Signed 1) (create_refund_transaction_or_add_sig ''ab'' ''GEVE'' 70 ''s'' ''k'' 9) s = Inr t \<and>
     map_of (RefundTransactions t) ''ab'' = Some tx"
proof -
  have "\<exists>u. dispatch ledger_config (Signed 1) (create_refund_transaction_or_add_sig ''ab'' ''GEVE'' 70 ''s'' ''k'' 9) ledger_start = Inr u \<and>
      (\<exists>f. map_of (RefundTransactions u) ''ab'' = Some f) \<and> ExecutedRefundTransactions u = [] \<and> Validators u = [1, 2, 3] \<and>
      BurnTransactionID u = 0"
    by (simp add: pallet_call_defs ledger_validator)
  then obtain u f where u: "dispatch ledger_config (Signed 1) (create_refund_transaction_or_add_sig ''ab'' ''GEVE'' 70 ''s'' ''k'' 9) ledger_start = Inr u"
      "map_of (RefundTransactions u) ''ab'' = Some f" "ExecutedRefundTransactions u = []" "Validators u = [1, 2, 3]"
      "BurnTransactionID u = 0" by blast
  have "pallet_inv u" using dispatch_inv [OF reachable_inv [OF ledger_reachable] u(1)] by simp
  have "\<exists>s. dispatch ledger_config (Signed 2) (set_refund_transaction_executed ''ab'') u = Inr s \<and>
      map_of (ExecutedRefundTransactions s) ''ab'' = Some f \<and> map_of (RefundTransactions s) ''ab'' = None \<and>
      Validators s = [1, 2, 3]"
    using u(2-4) by (simp add: pallet_call_defs ledger_validator)
  then obtain s where s: "dispatch ledger_config (Signed 2) (set_refund_transaction_executed ''ab'') u = Inr s"
      "map_of (ExecutedRefundTransactions s) ''ab'' = Some f" "map_of (RefundTransactions s) ''ab'' = None"
      "Validators s = [1, 2, 3]" by blast
  have "pallet_inv s" using dispatch_inv [OF \<open>pallet_inv u\<close> s(1)] u(5) by simp
  from executed_refund_reopens [OF this _ s(2,3), of 1] s(2,4) show ?thesis by fastforce
qed

text \<open>
  With a genesis that lists its validators out of order the binary search misses some of them: a listed
  validator is refused, and no call of it is ever counted.
\<close>

theorem unsorted_genesis_locks_out:
  "let s = genesis_build (default_GenesisConfig\<lparr>validator_accounts := Some [2, 1]\<rparr>) balances :: (nat, 'b) pallet
   in 2 \<in> set (Validators s) \<and> \<not> check_if_validator_exists 2 s \<and>
      dispatch C (Signed 2) (propose_or_vote_mint_transaction h a n) s = Inl ValidatorNotExists"
  by (simp add: Let_def genesis_build_def default_GenesisConfig_def check_if_validator_exists_def
      binary_search_def bisect.simps ensure_signed_def propose_or_vote_stellar_mint_transaction_def)

end
