(* ===== verification/PalletChain.thy ===== *)
theory PalletChain
  imports PalletEvents BridgeWithdraw "HOL-Library.List_Lexorder" "HOL-Library.Char_ord"
begin

text \<open>
  The daemons on the pallet: what the handlers rely on of the chain's client library, as contracts over the
  modelled pallet. The library is not part of the repository, so it stays a parameter; a library that
  answers at once shows that the contracts can be fulfilled.
\<close>

section \<open>What the handlers of payments rely on\<close>

text \<open>
  The contract of a chain with the handlers of payments: \<open>later\<close> relates the world to its possible
  futures, \<open>burned\<close> and \<open>refunded\<close> say what is executed. An answer is right at the time of the answer, a
  successful report makes it true, and it stays true.
\<close>

locale executed_ledger =
  fixes C :: "('w, 'id) chain_api"
    and burned :: "'w \<Rightarrow> uint64 \<Rightarrow> bool"
    and refunded :: "'w \<Rightarrow> string \<Rightarrow> bool"
    and later :: "'w \<Rightarrow> 'w \<Rightarrow> bool"
  assumes burned_answer: "IsBurnedAlready C i w = (Inr b, w') \<Longrightarrow> later w w' \<and> b = burned w' i"
    and refunded_answer: "IsRefundedAlready C h w = (Inr b, w') \<Longrightarrow> later w w' \<and> b = refunded w' h"
    and burned_recorded: "SetBurnTransactionExecuted C v i w = (None, w') \<Longrightarrow> burned w' i"
    and refunded_recorded: "SetRefundTransactionExecuted C v h w = (None, w') \<Longrightarrow> refunded w' h"
    and burned_stays: "later w w' \<Longrightarrow> burned w i \<Longrightarrow> burned w' i"
    and refunded_stays: "later w w' \<Longrightarrow> refunded w h \<Longrightarrow> refunded w' h"
begin

lemma burn_settled_burned: "burn_settled C v i w \<Longrightarrow> burned w i"
  unfolding burn_settled_def using burned_answer burned_recorded by blast

lemma refunded_settled_refunded: "refunded_settled C v h w \<Longrightarrow> refunded w h"
  unfolding refunded_settled_def using refunded_answer refunded_recorded by blast

lemma paid_withdrawal_burned:
  assumes "handleWithdrawReady E bridge ctx ev s = Some (Ok (), t)" and "chain E = C"
  shows "burned (world t) (wr_ID ev)"
proof -
  from assms obtain w w' where "RetrySetWithdrawExecuted C (runtime E) (br_identity bridge) ctx (wr_ID ev) w = Some (None, w')"
    and t: "world t = w'"
    by (auto simp: handleWithdrawReady_def bindM_Ok_iff worldL_Some_iff split: if_splits)
  then have "burn_settled C (br_identity bridge) (wr_ID ev) w'"
    by (auto simp: RetrySetWithdrawExecuted_def intro: burned_call.nil_settled)
  with t show ?thesis using burn_settled_burned by blast
qed

text \<open>
  A burned withdrawal is refused, or the query fails: the query is all that happens, and nothing is built,
  signed or sent.
\<close>

lemma burned_withdrawal_refused:
  assumes "burned (world u) (wr_ID ev)" and "chain E = C"
    and "handleWithdrawReady E bridge ctx ev u = Some (r, v)"
  shows "v = u\<lparr>world := snd (IsBurnedAlready C (wr_ID ev) (world u))\<rparr> \<and>
    (r = Err ErrTransactionAlreadyBurned \<or> (\<exists>e. fst (IsBurnedAlready C (wr_ID ev) (world u)) = Inl e \<and> r = Err e))"
proof -
  obtain q w where q: "IsBurnedAlready C (wr_ID ev) (world u) = (q, w)" by force
  show ?thesis
  proof (cases q)
    case (Inl e)
    with q assms show ?thesis by (simp add: handleWithdrawReady_def bindM_def worldM_eq)
  next
    case (Inr b)
    then have b using q assms(1) burned_answer burned_stays by blast
    with Inr q assms show ?thesis by (simp add: handleWithdrawReady_def bindM_def worldM_eq failM_def)
  qed
qed

lemma refunded_refund_refused:
  assumes "refunded (world u) (rr_Hash ev)" and "chain E = C"
    and "handleRefundReady E bridge ctx ev u = Some (r, v)"
  shows "v = u\<lparr>world := snd (IsRefundedAlready C (rr_Hash ev) (world u))\<rparr> \<and>
    (r = Err ErrTransactionAlreadyRefunded \<or> (\<exists>e. fst (IsRefundedAlready C (rr_Hash ev) (world u)) = Inl e \<and> r = Err e))"
proof -
  obtain q w where q: "IsRefundedAlready C (rr_Hash ev) (world u) = (q, w)" by force
  show ?thesis
  proof (cases q)
    case (Inl e)
    with q assms show ?thesis by (simp add: handleRefundReady_def bindM_def worldM_eq)
  next
    case (Inr b)
    then have b using q assms(1) refunded_answer refunded_stays by blast
    with Inr q assms show ?thesis by (simp add: handleRefundReady_def bindM_def worldM_eq failM_def)
  qed
qed

end

section \<open>The chain's client library, on the pallet\<close>

text \<open>The world of the daemons contains the pallet.\<close>

record ('b, 'r) chain_world =
  cw_pallet :: "(AccountID, 'b) pallet"
  cw_rest :: 'r

text \<open>What the library decodes from the entries of the pallet's storage.\<close>

definition burn_view :: "BurnTx \<Rightarrow> BurnTransaction" where
  "burn_view tx = \<lparr>burn_Target = bt_target tx, burn_Amount = bt_amount tx, burn_Signatures = bt_signatures tx,
     burn_SequenceNumber = bt_sequence_number tx\<rparr>"

definition refund_view :: "RefundTx \<Rightarrow> RefundTransaction" where
  "refund_view tx = \<lparr>refund_Target = rt_target tx, refund_Amount = rt_amount tx, refund_TxHash = rt_tx_hash tx,
     refund_Signatures = rt_signatures tx, refund_SequenceNumber = rt_sequence_number tx\<rparr>"

definition chain_later ::
    "(AccountID, 'b) pallet_config \<Rightarrow> ('b, 'r) chain_world \<Rightarrow> ('b, 'r) chain_world \<Rightarrow> bool" where
  "chain_later P w w' \<longleftrightarrow> pallet_steps P (cw_pallet w) (cw_pallet w')"

text \<open>The call is in a block: other calls and blocks may come before it and after it.\<close>

definition included ::
    "(AccountID, 'b) pallet_config \<Rightarrow> AccountID \<Rightarrow> AccountID call \<Rightarrow> ('b, 'r) chain_world \<Rightarrow> ('b, 'r) chain_world \<Rightarrow> bool" where
  "included P who c w w' \<longleftrightarrow>
     (\<exists>s t. pallet_steps P (cw_pallet w) s \<and> dispatch P (Signed who) c s = Inr t \<and> pallet_steps P t (cw_pallet w'))"

text \<open>
  What the library documents of the operations that concern payments: a query, when it answers, reads the
  storage at the time of the answer, and a call that is reported without an error was included.
\<close>

locale pallet_service =
  fixes P :: "(AccountID, 'b) pallet_config" and C :: "(('b, 'r) chain_world, AccountID) chain_api"
  assumes burned_read: "IsBurnedAlready C i w = (Inr b, w') \<Longrightarrow>
      chain_later P w w' \<and> b = contains_key (ExecutedBurnTransactions (cw_pallet w')) i"
    and refunded_read: "IsRefundedAlready C h w = (Inr b, w') \<Longrightarrow>
      chain_later P w w' \<and> b = contains_key (ExecutedRefundTransactions (cw_pallet w')) h"
    and burn_read: "GetBurnTransaction C i w = (Inr br, w') \<Longrightarrow>
      chain_later P w w' \<and> (\<exists>tx. map_of (BurnTransactions (cw_pallet w')) i = Some tx \<and> br = burn_view tx)"
    and refund_read: "GetRefundTransaction C h w = (Inr rr, w') \<Longrightarrow>
      chain_later P w w' \<and> (\<exists>tx. map_of (RefundTransactions (cw_pallet w')) h = Some tx \<and> rr = refund_view tx)"
    and burned_included: "SetBurnTransactionExecuted C who i w = (None, w') \<Longrightarrow>
      included P who (set_burn_transaction_executed i) w w'"
    and refunded_included: "SetRefundTransactionExecuted C who h w = (None, w') \<Longrightarrow>
      included P who (set_refund_transaction_executed h) w w'"

lemma executed_stays:
  "chain_later P w w' \<Longrightarrow> contains_key (ExecutedBurnTransactions (cw_pallet w)) i \<Longrightarrow>
     contains_key (ExecutedBurnTransactions (cw_pallet w')) i"
  "chain_later P w w' \<Longrightarrow> contains_key (ExecutedRefundTransactions (cw_pallet w)) h \<Longrightarrow>
     contains_key (ExecutedRefundTransactions (cw_pallet w')) h"
  by (auto simp: chain_later_def keeps_entries_def dest!: steps_executed)

lemma included_executed:
  "included P who (set_burn_transaction_executed i) w w' \<Longrightarrow> contains_key (ExecutedBurnTransactions (cw_pallet w')) i"
  "included P who (set_refund_transaction_executed h) w w' \<Longrightarrow> contains_key (ExecutedRefundTransactions (cw_pallet w')) h"
proof -
  assume "included P who (set_burn_transaction_executed i) w w'"
  then obtain s t where "set_stellar_burn_transaction_executed who i s = Inr t" and later: "pallet_steps P t (cw_pallet w')"
    by (auto simp: included_def)
  then have "contains_key (ExecutedBurnTransactions t) i" by (elim set_burn_executed_Inr) simp
  with steps_executed [OF later] show "contains_key (ExecutedBurnTransactions (cw_pallet w')) i"
    by (auto simp: keeps_entries_def)
next
  assume "included P who (set_refund_transaction_executed h) w w'"
  then obtain s t where "set_stellar_refund_transaction_executed who h s = Inr t" and later: "pallet_steps P t (cw_pallet w')"
    by (auto simp: included_def)
  then have "contains_key (ExecutedRefundTransactions t) h" by (elim set_refund_executed_Inr) simp
  with steps_executed [OF later] show "contains_key (ExecutedRefundTransactions (cw_pallet w')) h"
    by (auto simp: keeps_entries_def)
qed

text \<open>So the pallet's record of what is executed fulfils the contract.\<close>

sublocale pallet_service \<subseteq> ledger: executed_ledger C
    "\<lambda>w. contains_key (ExecutedBurnTransactions (cw_pallet w))"
    "\<lambda>w. contains_key (ExecutedRefundTransactions (cw_pallet w))" "chain_later P"
  by unfold_locales
    (fact burned_read, fact refunded_read, rule included_executed(1), erule burned_included,
     rule included_executed(2), erule refunded_included, erule (1) executed_stays(1), erule (1) executed_stays(2))

text \<open>A chain that is not disturbed answers, and includes a vote at once when the pallet accepts it.\<close>

locale voting_service =
  fixes P :: "(AccountID, 'b) pallet_config" and C :: "(('b, 'r) chain_world, AccountID) chain_api"
  assumes minted_read: "\<exists>w'. IsMintedAlready C h w =
      (if contains_key (ExecutedMintTransactions (cw_pallet w)) h then (True, None)
       else (False, Some ErrMintTransactionNotFound), w') \<and> cw_pallet w' = cw_pallet w"
    and vote_included: "dispatch P (Signed who) (propose_or_vote_mint_transaction h a (of_int n)) (cw_pallet w) = Inr s \<Longrightarrow>
      \<exists>w'. ProposeOrVoteMintTransaction C who h a n w = (None, w') \<and> cw_pallet w' = s"

section \<open>A client library that answers at once\<close>

text \<open>An extrinsic of the account \<open>who\<close>: an error leaves the chain as it was.\<close>

definition submit ::
    "(AccountID, 'b) pallet_config \<Rightarrow> AccountID \<Rightarrow> AccountID call \<Rightarrow> ('b, 'r) chain_world
      \<Rightarrow> error option \<times> ('b, 'r) chain_world" where
  "submit P who c w =
     (case dispatch P (Signed who) c (cw_pallet w) of
        Inl _ \<Rightarrow> (Some (LibraryError ''the extrinsic failed''), w)
      | Inr s \<Rightarrow> (None, w\<lparr>cw_pallet := s\<rparr>))"

definition storage_entry :: "('v \<Rightarrow> 'a) \<Rightarrow> ('k \<times> 'v) list \<Rightarrow> 'k \<Rightarrow> error + 'a" where
  "storage_entry f m k = (case map_of m k of None \<Rightarrow> Inl (LibraryError ''no such entry'') | Some v \<Rightarrow> Inr (f v))"

text \<open>
  The simplest library that fulfils both contracts: every operation that concerns the pallet acts on it at
  once; the others (twins, farms, nodes, addresses, blocks) are those of \<open>base\<close>.
\<close>

definition pallet_chain ::
    "(AccountID, 'b) pallet_config \<Rightarrow> (('b, 'r) chain_world, AccountID) chain_api
      \<Rightarrow> (('b, 'r) chain_world, AccountID) chain_api" where
  "pallet_chain P base = base
     \<lparr>IsMintedAlready := (\<lambda>h w. (if contains_key (ExecutedMintTransactions (cw_pallet w)) h then (True, None)
        else (False, Some ErrMintTransactionNotFound), w)),
      IsBurnedAlready := (\<lambda>i w. (Inr (contains_key (ExecutedBurnTransactions (cw_pallet w)) i), w)),
      IsRefundedAlready := (\<lambda>h w. (Inr (contains_key (ExecutedRefundTransactions (cw_pallet w)) h), w)),
      ProposeOrVoteMintTransaction := (\<lambda>who h a n. submit P who (propose_or_vote_mint_transaction h a (of_int n))),
      SetBurnTransactionExecuted := (\<lambda>who i. submit P who (set_burn_transaction_executed i)),
      ProposeBurnTransactionOrAddSig := (\<lambda>who i target n sig key seqno.
        submit P who (propose_burn_transaction_or_add_sig i target (of_int n) sig key seqno)),
      CreateRefundTransactionOrAddSig := (\<lambda>who h target n sig key seqno.
        submit P who (create_refund_transaction_or_add_sig h target n sig key seqno)),
      SetRefundTransactionExecuted := (\<lambda>who h. submit P who (set_refund_transaction_executed h)),
      GetBurnTransaction := (\<lambda>i w. (storage_entry burn_view (BurnTransactions (cw_pallet w)) i, w)),
      GetRefundTransaction := (\<lambda>h w. (storage_entry refund_view (RefundTransactions (cw_pallet w)) h, w)),
      IsValidator := (\<lambda>who w. (Inr (who \<in> set (Validators (cw_pallet w))), w)),
      GetDepositFee := (\<lambda>w. (Inr (DepositFee (cw_pallet w)), w))\<rparr>"

lemma pallet_chain_fields [simp]:
  "IsMintedAlready (pallet_chain P base) h w = (if contains_key (ExecutedMintTransactions (cw_pallet w)) h then (True, None)
     else (False, Some ErrMintTransactionNotFound), w)"
  "IsBurnedAlready (pallet_chain P base) i w = (Inr (contains_key (ExecutedBurnTransactions (cw_pallet w)) i), w)"
  "IsRefundedAlready (pallet_chain P base) h w = (Inr (contains_key (ExecutedRefundTransactions (cw_pallet w)) h), w)"
  "ProposeOrVoteMintTransaction (pallet_chain P base) who h a n w = submit P who (propose_or_vote_mint_transaction h a (of_int n)) w"
  "SetBurnTransactionExecuted (pallet_chain P base) who i w = submit P who (set_burn_transaction_executed i) w"
  "SetRefundTransactionExecuted (pallet_chain P base) who h w = submit P who (set_refund_transaction_executed h) w"
  "GetBurnTransaction (pallet_chain P base) i w = (storage_entry burn_view (BurnTransactions (cw_pallet w)) i, w)"
  "GetRefundTransaction (pallet_chain P base) h w = (storage_entry refund_view (RefundTransactions (cw_pallet w)) h, w)"
  "FromAddress (pallet_chain P base) = FromAddress base"
  by (simp_all add: pallet_chain_def)

lemma submit_included:
  assumes "submit P who c w = (None, w')"
  shows "included P who c w w'"
proof -
  from assms have "dispatch P (Signed who) c (cw_pallet w) = Inr (cw_pallet w')"
    by (auto simp: submit_def split: sum.splits)
  then show ?thesis unfolding included_def using steps_refl by blast
qed

interpretation pallet_payments: pallet_service P "pallet_chain P base"
  for P :: "(AccountID, 'b) pallet_config" and base :: "(('b, 'r) chain_world, AccountID) chain_api"
proof
  show "SetBurnTransactionExecuted (pallet_chain P base) who i w = (None, w') \<Longrightarrow>
      included P who (set_burn_transaction_executed i) w w'" for who i and w w' :: "('b, 'r) chain_world"
    using submit_included by simp
  show "SetRefundTransactionExecuted (pallet_chain P base) who h w = (None, w') \<Longrightarrow>
      included P who (set_refund_transaction_executed h) w w'" for who h and w w' :: "('b, 'r) chain_world"
    using submit_included by simp
qed (auto simp: chain_later_def storage_entry_def intro: steps_refl split: option.splits)

interpretation pallet_votes: voting_service P "pallet_chain P base"
  for P :: "(AccountID, 'b) pallet_config" and base :: "(('b, 'r) chain_world, AccountID) chain_api"
  by unfold_locales (auto simp: submit_def simp del: dispatch.simps)

end
