(* ===== verification/SharedWorld.thy ===== *)
theory SharedWorld
  imports PalletChain
begin

text \<open>
  A concrete world in which several daemons share the pallet: the sample network and chain of
  \<open>SampleChain\<close> as they are, beside a pallet with the three validators alice, bob and carol. The
  witnesses of \<open>BridgeChain\<close> run in it; nothing in the model depends on it.
\<close>

section \<open>Operations on the part of the world outside the pallet\<close>

definition on_rest :: "('r \<Rightarrow> 'a \<times> 'r) \<Rightarrow> ('b, 'r) chain_world \<Rightarrow> 'a \<times> ('b, 'r) chain_world" where
  "on_rest f w = (let (a, r) = f (cw_rest w) in (a, w\<lparr>cw_rest := r\<rparr>))"

definition rest_chain :: "('r, 'id) chain_api \<Rightarrow> (('b, 'r) chain_world, 'id) chain_api" where
  "rest_chain C =
     \<lparr>IsMintedAlready = (\<lambda>a. on_rest (IsMintedAlready C a)),
      IsBurnedAlready = (\<lambda>a. on_rest (IsBurnedAlready C a)),
      IsRefundedAlready = (\<lambda>a. on_rest (IsRefundedAlready C a)),
      ProposeOrVoteMintTransaction = (\<lambda>a b c d. on_rest (ProposeOrVoteMintTransaction C a b c d)),
      SetBurnTransactionExecuted = (\<lambda>a b. on_rest (SetBurnTransactionExecuted C a b)),
      ProposeBurnTransactionOrAddSig = (\<lambda>a b c d e f g. on_rest (ProposeBurnTransactionOrAddSig C a b c d e f g)),
      CreateRefundTransactionOrAddSig = (\<lambda>a b c d e f g. on_rest (CreateRefundTransactionOrAddSig C a b c d e f g)),
      SetRefundTransactionExecuted = (\<lambda>a b. on_rest (SetRefundTransactionExecuted C a b)),
      GetBurnTransaction = (\<lambda>a. on_rest (GetBurnTransaction C a)),
      GetRefundTransaction = (\<lambda>a. on_rest (GetRefundTransaction C a)),
      GetTwinAccount = (\<lambda>a. on_rest (GetTwinAccount C a)),
      GetFarmTwinID = (\<lambda>a. on_rest (GetFarmTwinID C a)),
      GetNodeTwinID = (\<lambda>a. on_rest (GetNodeTwinID C a)),
      GetEntityAccount = (\<lambda>a. on_rest (GetEntityAccount C a)),
      GetDepositFee = on_rest (GetDepositFee C),
      GetEventsForBlock = (\<lambda>a. on_rest (GetEventsForBlock C a)),
      ManagerSubstrate = (\<lambda>a. on_rest (ManagerSubstrate C a)),
      IsValidator = (\<lambda>a. on_rest (IsValidator C a)),
      NewIdentityFromSr25519Phrase = NewIdentityFromSr25519Phrase C,
      AccountString = AccountString C,
      FromAddress = FromAddress C\<rparr>"

definition rest_stellar :: "('r, 'tx, 'kp) stellar_api \<Rightarrow> (('b, 'r) chain_world, 'tx, 'kp) stellar_api" where
  "rest_stellar S =
     \<lparr>ParseFull = ParseFull S,
      Address = Address S,
      AccountDetail = (\<lambda>a b. on_rest (AccountDetail S a b)),
      HzTransactions = (\<lambda>a b c. on_rest (HzTransactions S a b c)),
      HzEffects = (\<lambda>a b. on_rest (HzEffects S a b)),
      HzOperations = (\<lambda>a b. on_rest (HzOperations S a b)),
      SubmitTransaction = (\<lambda>a b. on_rest (SubmitTransaction S a b)),
      NewTransaction = NewTransaction S,
      SignTx = SignTx S,
      AddSignatureBase64 = AddSignatureBase64 S,
      TxSignatures = TxSignatures S,
      TxSequenceNumber = TxSequenceNumber S,
      MinBaseFee = MinBaseFee S,
      TestNetworkPassphrase = TestNetworkPassphrase S,
      PublicNetworkPassphrase = PublicNetworkPassphrase S,
      amount_ParseInt64 = amount_ParseInt64 S\<rparr>"

definition rest_runtime :: "'r go_runtime \<Rightarrow> ('b, 'r) chain_world go_runtime" where
  "rest_runtime R =
     \<lparr>select_wait = on_rest (select_wait R),
      map_start = on_rest (map_start R),
      read_fault = on_rest (read_fault R),
      write_fault = on_rest (write_fault R)\<rparr>"

section \<open>The shared world\<close>

definition shared_config :: "uint32 \<Rightarrow> (AccountID, AccountID \<Rightarrow> uint64) pallet_config" where
  "shared_config interval =
     \<lparr>deposit_creating = (\<lambda>a n b. b(a := b a + n)),
      withdraw = (\<lambda>a n b. if n \<le> b a then Inr (b(a := b a - n)) else Inl ''InsufficientBalance''),
      usable_balance = (\<lambda>a b. b a), on_unbalanced = (\<lambda>n b. b),
      RestrictedOrigin = (\<lambda>origin. origin = Root), RetryInterval = interval, stellar_key = (\<lambda>k. k \<noteq> [])\<rparr>"

definition shared_genesis :: "AccountID GenesisConfig" where
  "shared_genesis = \<lparr>validator_accounts = Some [''alice'', ''bob'', ''carol''], fee_account = Some ''fees'',
     withdraw_fee = 10000000, deposit_fee = 10000000\<rparr>"

type_synonym shared = "(AccountID \<Rightarrow> uint64, sample) chain_world"

definition shared_pallet :: "(AccountID, AccountID \<Rightarrow> uint64) pallet" where
  "shared_pallet = genesis_build shared_genesis (\<lambda>_. 100000000)"

definition shared_env :: "uint32 \<Rightarrow> (shared, sample_tx, string, AccountID) env" where
  "shared_env interval = \<lparr>chain = pallet_chain (shared_config interval) (rest_chain sample_chain),
     stellar = rest_stellar sample_stellar, runtime = rest_runtime sample_runtime\<rparr>"

text \<open>A daemon with the sample wallet, after the payments \<open>txs\<close> were submitted.\<close>

definition shared_state :: "(AccountID, AccountID \<Rightarrow> uint64) pallet \<Rightarrow> sample_tx list \<Rightarrow> (shared, string) state" where
  "shared_state s txs = \<lparr>wallet = sample_wallet, disk = None,
     world = \<lparr>cw_pallet = s, cw_rest = (sample_net fresh_chain)\<lparr>sw_submitted := txs\<rparr>\<rparr>\<rparr>"

lemma shared_env_fields [simp]:
  "chain (shared_env k) = pallet_chain (shared_config k) (rest_chain sample_chain)" "stellar (shared_env k) = rest_stellar sample_stellar"
  "runtime (shared_env k) = rest_runtime sample_runtime"
  by (simp_all add: shared_env_def)

lemma shared_services: "pallet_service (shared_config k) (chain (shared_env k))" "voting_service (shared_config k) (chain (shared_env k))"
  using pallet_payments.pallet_service_axioms pallet_votes.voting_service_axioms by simp_all

lemma shared_state_fields [simp]:
  "wallet (shared_state s txs) = sample_wallet" "disk (shared_state s txs) = None"
  "cw_pallet (world (shared_state s txs)) = s" "sw_submitted (cw_rest (world (shared_state s txs))) = txs"
  by (simp_all add: shared_state_def)

lemma shared_config_fields [simp]:
  "deposit_creating (shared_config k) a n b = b(a := b a + n)"
  "withdraw (shared_config k) a n b = (if n \<le> b a then Inr (b(a := b a - n)) else Inl ''InsufficientBalance'')"
  "usable_balance (shared_config k) a b = b a" "on_unbalanced (shared_config k) n b = b"
  "RestrictedOrigin (shared_config k) origin = (origin = Root)" "RetryInterval (shared_config k) = k"
  "stellar_key (shared_config k) key = (key \<noteq> [])"
  by (simp_all add: shared_config_def)

lemma shared_pallet_fields [simp]:
  "Validators shared_pallet = [''alice'', ''bob'', ''carol'']" "FeeAccount shared_pallet = Some ''fees''"
  "MintTransactions shared_pallet = []" "ExecutedMintTransactions shared_pallet = []"
  "BurnTransactions shared_pallet = []" "ExecutedBurnTransactions shared_pallet = []"
  "RefundTransactions shared_pallet = []" "ExecutedRefundTransactions shared_pallet = []"
  "BurnTransactionID shared_pallet = 0" "WithdrawFee shared_pallet = 10000000" "DepositFee shared_pallet = 10000000"
  "block_number shared_pallet = 0" "Balances shared_pallet = (\<lambda>_. 100000000)"
  "EventLog shared_pallet = []" "quorum shared_pallet = 2"
  by (simp_all add: shared_pallet_def shared_genesis_def genesis_build_def quorum_def)

lemma shared_reachable: "reachable (shared_config k) shared_pallet"
proof -
  have "sorted_genesis shared_genesis"
    by (simp add: sorted_genesis_def shared_genesis_def)
  then show ?thesis unfolding shared_pallet_def by (rule reach_genesis)
qed

lemma shared_validator:
  assumes "Validators s = [''alice'', ''bob'', ''carol'']"
  shows "check_if_validator_exists v s \<longleftrightarrow> v \<in> {''alice'', ''bob'', ''carol''}"
proof -
  have "sorted [''alice'', ''bob'', ''carol'']" by code_simp
  then show ?thesis using assms binary_search_Found [of "[''alice'', ''bob'', ''carol'']" v]
    by (auto simp: check_if_validator_exists_def split: search_result.splits)
qed

text \<open>A withdrawal that dave opens, and the signatures that alice and bob add to it.\<close>

lemma sign_burn_call:
  assumes "check_if_validator_exists who s" and "ExecutedBurnTransactions s = []" and "BurnTransactions s = [(i, tx)]"
    and "length (bt_signatures tx) \<noteq> quorum s" and "\<not> signature_exists (bt_signatures tx) sig key"
  shows "\<exists>t. dispatch C (Signed who) (propose_burn_transaction_or_add_sig i (bt_target tx) (bt_amount tx) sig key seqno) s = Inr t \<and>
     BurnTransactions t = [(i, tx\<lparr>bt_sequence_number := seqno, bt_signatures := bt_signatures tx @
       [\<lparr>Signature = sig, StellarAddress = key\<rparr>]\<rparr>)] \<and>
     ExecutedBurnTransactions t = [] \<and> Validators t = Validators s \<and> BurnTransactionID t = BurnTransactionID s \<and>
     block_number t = block_number s"
  using assms
  by (simp add: propose_stellar_burn_transaction_or_add_sig_def add_stellar_sig_burn_transaction_def Let_def quorum_def)

text \<open>Two validators sign an open withdrawal that nobody signed yet, and it has its majority.\<close>

lemma two_sign:
  assumes r: "reachable C s" and v: "v \<in> set (Validators s)" "w \<in> set (Validators s)" and q: "quorum s = 2"
    and b: "ExecutedBurnTransactions s = []" "BurnTransactions s = [(i, tx)]" "bt_signatures tx = []"
    and id: "BurnTransactionID s < - 1" and "a \<noteq> c" and "key \<noteq> key'"
  shows "\<exists>t. pallet_steps C s t \<and> BurnTransactions t = [(i, tx\<lparr>bt_sequence_number := seqno, bt_signatures :=
       [\<lparr>Signature = a, StellarAddress = key\<rparr>, \<lparr>Signature = c, StellarAddress = key'\<rparr>]\<rparr>)] \<and>
     ExecutedBurnTransactions t = [] \<and> Validators t = Validators s \<and> BurnTransactionID t = BurnTransactionID s \<and>
     block_number t = block_number s"
proof -
  have "check_if_validator_exists v s" "length (bt_signatures tx) \<noteq> quorum s" "\<not> signature_exists (bt_signatures tx) a key"
    using v check_if_validator_exists_iff [OF reachable_inv [OF r]] q b(3) by (simp_all add: signature_exists_def)
  from sign_burn_call [OF this(1) b(1,2) this(2,3), of C seqno] obtain u where
    u: "dispatch C (Signed v) (propose_burn_transaction_or_add_sig i (bt_target tx) (bt_amount tx) a key seqno) s = Inr u"
    "BurnTransactions u = [(i, tx\<lparr>bt_sequence_number := seqno, bt_signatures := [\<lparr>Signature = a, StellarAddress = key\<rparr>]\<rparr>)]"
    "ExecutedBurnTransactions u = []" "Validators u = Validators s" "BurnTransactionID u = BurnTransactionID s"
    "block_number u = block_number s" using b(3) by auto
  let ?tx = "tx\<lparr>bt_sequence_number := seqno, bt_signatures := [\<lparr>Signature = a, StellarAddress = key\<rparr>]\<rparr>"
  note step = step_call [OF u(1) id]
  have "check_if_validator_exists w u" "length (bt_signatures ?tx) \<noteq> quorum u" "\<not> signature_exists (bt_signatures ?tx) c key'"
    using v u(4) check_if_validator_exists_iff [OF reachable_inv [OF reach_step [OF r step]]] q assms(9,10)
    by (simp_all add: signature_exists_def quorum_def)
  from sign_burn_call [OF this(1) u(3,2) this(2,3), of C seqno] obtain t where
    t: "dispatch C (Signed w) (propose_burn_transaction_or_add_sig i (bt_target tx) (bt_amount tx) c key' seqno) u = Inr t"
    "BurnTransactions t = [(i, tx\<lparr>bt_sequence_number := seqno, bt_signatures :=
       [\<lparr>Signature = a, StellarAddress = key\<rparr>, \<lparr>Signature = c, StellarAddress = key'\<rparr>]\<rparr>)]"
    "ExecutedBurnTransactions t = []" "Validators t = Validators s" "BurnTransactionID t = BurnTransactionID s"
    "block_number t = block_number s" using u by auto
  have "pallet_steps C s t"
    by (rule steps_step [OF steps_step [OF steps_refl step] step_call [OF t(1)]]) (simp add: u(5) id)
  with t show ?thesis by blast
qed

definition shared_open_burn :: BurnTx where
  "shared_open_burn = \<lparr>bt_block = 0, bt_amount = 50000000, bt_target = ''GUSER'', bt_signatures = [], bt_sequence_number = 0\<rparr>"

lemma shared_opened:
  "\<exists>s. dispatch (shared_config k) (Signed ''dave'') (swap_to_stellar ''GUSER'' 60000000) shared_pallet = Inr s \<and>
     reachable (shared_config k) s \<and> BurnTransactions s = [(1, shared_open_burn)] \<and> ExecutedBurnTransactions s = [] \<and>
     Validators s = [''alice'', ''bob'', ''carol''] \<and> BurnTransactionID s = 1 \<and> block_number s = 0"
proof -
  have "\<exists>s. dispatch (shared_config k) (Signed ''dave'') (swap_to_stellar ''GUSER'' 60000000) shared_pallet = Inr s \<and>
     BurnTransactions s = [(1, shared_open_burn)] \<and> ExecutedBurnTransactions s = [] \<and>
     Validators s = [''alice'', ''bob'', ''carol''] \<and> BurnTransactionID s = 1 \<and> block_number s = 0"
    by (simp add: pallet_call_defs shared_open_burn_def)
  moreover have "BurnTransactionID shared_pallet < - 1" by simp
  ultimately show ?thesis using reach_step [OF shared_reachable step_call] by meson
qed

lemma shared_signed:
  "\<exists>s t. dispatch (shared_config k) (Signed ''dave'') (swap_to_stellar ''GUSER'' 60000000) shared_pallet = Inr s \<and>
     reachable (shared_config k) s \<and> pallet_steps (shared_config k) s t \<and>
     BurnTransactions t = [(1, shared_open_burn\<lparr>bt_sequence_number := 42, bt_signatures := sample_signatures\<rparr>)] \<and>
     ExecutedBurnTransactions t = [] \<and> Validators t = [''alice'', ''bob'', ''carol''] \<and> BurnTransactionID t = 1 \<and>
     block_number t = 0"
proof -
  obtain s where s: "dispatch (shared_config k) (Signed ''dave'') (swap_to_stellar ''GUSER'' 60000000) shared_pallet = Inr s"
    "reachable (shared_config k) s" "BurnTransactions s = [(1, shared_open_burn)]" "ExecutedBurnTransactions s = []"
    "Validators s = [''alice'', ''bob'', ''carol'']" "BurnTransactionID s = 1" "block_number s = 0"
    using shared_opened by blast
  have "''alice'' \<in> set (Validators s)" "''bob'' \<in> set (Validators s)" "quorum s = 2" "bt_signatures shared_open_burn = []"
    "BurnTransactionID s < - 1" by (simp_all add: s(5,6) shared_open_burn_def quorum_def)
  moreover have "base64_EncodeToString ''alice'' \<noteq> base64_EncodeToString ''bob''" by simp
  ultimately show ?thesis
    using two_sign [OF s(2) _ _ _ s(4,3), of "''alice''" "''bob''" "base64_EncodeToString ''alice''"
        "base64_EncodeToString ''bob''" "''GALICE''" "''GBOB''" 42] s
    unfolding sample_signatures_def by fastforce
qed

section \<open>A payment of the sample withdrawal\<close>

text \<open>The submitted transaction pays 5 TFT to the user, under the given sequence number.\<close>

definition pays_user :: "int64 \<Rightarrow> sample_tx \<Rightarrow> bool" where
  "pays_user seqno tx \<longleftrightarrow> SourceSequence (fst tx) = seqno \<and>
     map (\<lambda>oper. (Destination oper, Amount oper)) (Operations (fst tx)) = [(''GUSER'', ''5.0000000'')]"

lemma five_tft: "rat_FloatString 50000000 stellarPrecision stellarPrecisionDigits = ''5.0000000''"
proof -
  have "show_nat 5 = ''5''" and "pad_zeros 7 (show_nat 0) = ''0000000''" by code_simp+
  then have "fixed_point 7 50000000 = ''5.0000000''" by (simp add: fixed_point_def)
  then show ?thesis
    using rat_FloatString_pow10 [of 7 50000000] by (simp add: stellarPrecision_def stellarPrecisionDigits_def)
qed

lemma shared_submitted:
  assumes "sigs \<noteq> []" and "seqno \<noteq> 0"
  shows "\<exists>tx. CreatePaymentWithSignaturesAndSubmit (rest_stellar sample_stellar) ''GUSER'' 50000000 [] sigs seqno
      (shared_state s txs)
      = Some (Ok (), (shared_state s (txs @ [tx]))\<lparr>wallet := sample_wallet\<lparr>wal_sequenceNumber := seqno\<rparr>\<rparr>) \<and>
    pays_user seqno tx"
proof -
  obtain sig sigs' where "sigs = sig # sigs'" using assms(1) by (cases sigs) auto
  then show ?thesis using assms(2)
    by (simp add: wallet_eval shared_state_def rest_stellar_def on_rest_def five_tft pays_user_def)
qed

text \<open>
  The daemon of a validator, on the ready event of the withdrawal, pays it and reports it.
\<close>

lemma shared_paid:
  assumes b: "BurnTransactions s = [(1, tx)]" "bt_amount tx = 50000000" "bt_target tx = ''GUSER''" "bt_signatures tx \<noteq> []"
      "bt_sequence_number tx \<noteq> 0" and e: "ExecutedBurnTransactions s = []" and v: "check_if_validator_exists who s"
  shows "\<exists>t p. handleWithdrawReady (shared_env k) (sample_bridge\<lparr>br_identity := who\<rparr>) DaemonContext \<lparr>wr_ID = 1\<rparr>
      (shared_state s txs) = Some (Ok (), t) \<and>
    sw_submitted (cw_rest (world t)) = txs @ [p] \<and> pays_user (bt_sequence_number tx) p"
proof -
  obtain p where p: "CreatePaymentWithSignaturesAndSubmit (rest_stellar sample_stellar) ''GUSER'' 50000000 []
      (bt_signatures tx) (bt_sequence_number tx) (shared_state s txs)
      = Some (Ok (), (shared_state s (txs @ [p]))\<lparr>wallet := sample_wallet\<lparr>wal_sequenceNumber := bt_sequence_number tx\<rparr>\<rparr>)"
    "pays_user (bt_sequence_number tx) p" using shared_submitted [OF b(4,5), of s txs] by (elim exE conjE) (rule that)
  obtain u where u: "dispatch (shared_config k) (Signed who) (set_burn_transaction_executed 1) s = Inr u"
    using b e v by (simp add: set_stellar_burn_transaction_executed_def Let_def)
  have "RetrySetWithdrawExecuted (pallet_chain (shared_config k) (rest_chain sample_chain)) (rest_runtime sample_runtime) who
      DaemonContext 1 (world (shared_state s (txs @ [p])))
      = Some (None, (world (shared_state s (txs @ [p])))\<lparr>cw_pallet := u\<rparr>)"
    using u by (simp add: RetrySetWithdrawExecuted_def retry_def submit_def del: dispatch.simps)
  with b e p(1) have "handleWithdrawReady (shared_env k) (sample_bridge\<lparr>br_identity := who\<rparr>) DaemonContext \<lparr>wr_ID = 1\<rparr>
      (shared_state s txs) = Some (Ok (), (shared_state s (txs @ [p]))\<lparr>wallet := sample_wallet\<lparr>wal_sequenceNumber :=
        bt_sequence_number tx\<rparr>, world := (world (shared_state s (txs @ [p])))\<lparr>cw_pallet := u\<rparr>\<rparr>)"
    by (simp add: handleWithdrawReady_def worldM_eq bindM_def storage_entry_def burn_view_def worldL_def)
  with p(2) show ?thesis by (intro exI conjI) (assumption, simp_all)
qed

text \<open>The same for a refund to carol.\<close>

definition shared_signed_refund :: RefundTx where
  "shared_signed_refund = \<lparr>rt_block = 0, rt_amount = 50000000, rt_target = ''GCAROL'', rt_tx_hash = ''00ff'',
     rt_signatures = sample_signatures, rt_sequence_number = 42\<rparr>"

lemma shared_refund_sign:
  assumes "a \<noteq> b"
  shows "\<exists>s t. dispatch (shared_config 20) (Signed ''alice'')
       (create_refund_transaction_or_add_sig ''00ff'' ''GCAROL'' 50000000 a ''GALICE'' 42) shared_pallet = Inr s \<and>
     dispatch (shared_config 20) (Signed ''bob'')
       (create_refund_transaction_or_add_sig ''00ff'' ''GCAROL'' 50000000 b ''GBOB'' 42) s = Inr t \<and>
     RefundTransactions t = [(''00ff'', \<lparr>rt_block = 0, rt_amount = 50000000, rt_target = ''GCAROL'', rt_tx_hash = ''00ff'',
       rt_signatures = [\<lparr>Signature = a, StellarAddress = ''GALICE''\<rparr>, \<lparr>Signature = b, StellarAddress = ''GBOB''\<rparr>],
       rt_sequence_number = 42\<rparr>)] \<and>
     Validators t = [''alice'', ''bob'', ''carol''] \<and> ExecutedRefundTransactions t = [] \<and> BurnTransactionID s = 0"
  using assms by (simp add: pallet_call_defs shared_validator)

lemma shared_refund:
  "\<exists>t. reachable (shared_config 20) t \<and> RefundTransactions t = [(''00ff'', shared_signed_refund)] \<and>
     Validators t = [''alice'', ''bob'', ''carol''] \<and> ExecutedRefundTransactions t = []"
proof -
  have "base64_EncodeToString ''alice'' \<noteq> base64_EncodeToString ''bob''" by simp
  from shared_refund_sign [OF this] obtain s t where
    s: "dispatch (shared_config 20) (Signed ''alice'') (create_refund_transaction_or_add_sig ''00ff'' ''GCAROL'' 50000000
       (base64_EncodeToString ''alice'') ''GALICE'' 42) shared_pallet = Inr s" "BurnTransactionID s = 0"
    and t: "dispatch (shared_config 20) (Signed ''bob'') (create_refund_transaction_or_add_sig ''00ff'' ''GCAROL'' 50000000
       (base64_EncodeToString ''bob'') ''GBOB'' 42) s = Inr t"
      "RefundTransactions t = [(''00ff'', shared_signed_refund)]"
      "Validators t = [''alice'', ''bob'', ''carol'']" "ExecutedRefundTransactions t = []"
    unfolding shared_signed_refund_def sample_signatures_def by blast
  have "reachable (shared_config 20) s" by (rule reach_step [OF shared_reachable step_call [OF s(1)]]) simp
  then have "reachable (shared_config 20) t" by (rule reach_step [OF _ step_call [OF t(1)]]) (simp add: s(2))
  with t show ?thesis by blast
qed

lemma shared_refund_submitted:
  "\<exists>tx. CreateRefundPaymentWithSignaturesAndSubmit (rest_stellar sample_stellar) ''GCAROL'' 50000000 ''00ff''
     sample_signatures 42 (shared_state s [])
       = Some (Ok (), (shared_state s [tx])\<lparr>wallet := sample_wallet\<lparr>wal_sequenceNumber := 42\<rparr>\<rparr>)"
  by (simp add: wallet_eval with_return_memo_def sample_decode sample_signatures_def shared_state_def rest_stellar_def
      on_rest_def del: hex_DecodeString.simps)

lemma shared_refund_paid:
  assumes "RefundTransactions s = [(''00ff'', shared_signed_refund)]" and "ExecutedRefundTransactions s = []"
    and "Validators s = [''alice'', ''bob'', ''carol'']"
  shows "\<exists>t. handleRefundReady (shared_env 20) sample_bridge DaemonContext \<lparr>rr_Hash = ''00ff''\<rparr> (shared_state s []) = Some (Ok (), t)"
proof -
  obtain tx where paid: "CreateRefundPaymentWithSignaturesAndSubmit (rest_stellar sample_stellar) ''GCAROL'' 50000000
      ''00ff'' sample_signatures 42 (shared_state s [])
      = Some (Ok (), (shared_state s [tx])\<lparr>wallet := sample_wallet\<lparr>wal_sequenceNumber := 42\<rparr>\<rparr>)"
    using shared_refund_submitted [of s] by (elim exE) (rule that)
  have "\<exists>v. dispatch (shared_config 20) (Signed ''alice'') (set_refund_transaction_executed ''00ff'') s = Inr v"
    using assms by (simp add: pallet_call_defs shared_validator)
  then obtain w where "RetrySetRefundTransactionExecutedTx (pallet_chain (shared_config 20) (rest_chain sample_chain))
      (rest_runtime sample_runtime) ''alice'' DaemonContext ''00ff'' (world (shared_state s [tx])) = Some (None, w)"
    by (auto simp: RetrySetRefundTransactionExecutedTx_def retry_def submit_def simp del: dispatch.simps)
  then show ?thesis using assms
    by (simp add: handleRefundReady_def worldM_eq bindM_def storage_entry_def refund_view_def shared_signed_refund_def paid
        worldL_def sample_bridge_def)
qed

section \<open>The sample withdrawal, paid\<close>

lemma alice_bridge: "sample_bridge\<lparr>br_identity := ''alice''\<rparr> = sample_bridge"
  by (simp add: sample_bridge_def)

lemma sample_signatures_ne: "sample_signatures \<noteq> []"
  by (simp add: sample_signatures_def)

lemma shared_payment:
  "\<exists>s t v. dispatch (shared_config 20) (Signed ''dave'') (swap_to_stellar ''GUSER'' 60000000) shared_pallet = Inr s \<and>
     pallet_steps (shared_config 20) s t \<and>
     BurnTransactions t = [(1, shared_open_burn\<lparr>bt_sequence_number := 42, bt_signatures := sample_signatures\<rparr>)] \<and>
     handleWithdrawReady (shared_env 20) sample_bridge DaemonContext \<lparr>wr_ID = 1\<rparr> (shared_state t []) = Some (Ok (), v)"
proof -
  obtain s t where s: "dispatch (shared_config 20) (Signed ''dave'') (swap_to_stellar ''GUSER'' 60000000) shared_pallet = Inr s"
    and t: "pallet_steps (shared_config 20) s t"
      "BurnTransactions t = [(1, shared_open_burn\<lparr>bt_sequence_number := 42, bt_signatures := sample_signatures\<rparr>)]"
      "ExecutedBurnTransactions t = []" "Validators t = [''alice'', ''bob'', ''carol'']"
    using shared_signed [of 20] by (elim exE conjE) (rule that)
  have "check_if_validator_exists ''alice'' t" by (simp add: shared_validator [OF t(4)])
  from shared_paid [OF t(2) _ _ _ _ t(3) this, of 20 "[]"] s t(1,2) show ?thesis
    unfolding alice_bridge by (auto simp: shared_open_burn_def sample_signatures_ne)
qed

end
