(* ===== verification/BridgeChain.thy ===== *)
theory BridgeChain
  imports SharedWorld
begin

text \<open>
  What the two halves of the bridge achieve together, the daemons and the pallet: a payment that one daemon
  reported is refused by every daemon from then on, a withdrawal pays what was burned for it, and a
  majority of daemons that handle the same deposit mint it.
\<close>

section \<open>Handlers on a chain that serves the pallet\<close>

context pallet_service
begin

lemma withdrawal_refused_after_payment:
  assumes "chain E = C" and "contains_key (ExecutedBurnTransactions (cw_pallet (world u))) (wr_ID ev)"
    and "handleWithdrawReady E bridge ctx ev u = Some (r, v)"
  shows "v = u\<lparr>world := snd (IsBurnedAlready C (wr_ID ev) (world u))\<rparr> \<and>
    (r = Err ErrTransactionAlreadyBurned \<or> (\<exists>e. fst (IsBurnedAlready C (wr_ID ev) (world u)) = Inl e \<and> r = Err e))"
  using ledger.burned_withdrawal_refused [OF assms(2,1,3)] .

lemma refund_refused_after_payment:
  assumes "chain E = C" and "contains_key (ExecutedRefundTransactions (cw_pallet (world u))) (rr_Hash ev)"
    and "handleRefundReady E bridge ctx ev u = Some (r, v)"
  shows "v = u\<lparr>world := snd (IsRefundedAlready C (rr_Hash ev) (world u))\<rparr> \<and>
    (r = Err ErrTransactionAlreadyRefunded \<or> (\<exists>e. fst (IsRefundedAlready C (rr_Hash ev) (world u)) = Inl e \<and> r = Err e))"
  using ledger.refunded_refund_refused [OF assms(2,1,3)] .

lemma paid_withdrawal_recorded:
  assumes "chain E = C" and "handleWithdrawReady E bridge ctx ev s = Some (Ok (), t)"
  shows "contains_key (ExecutedBurnTransactions (cw_pallet (world t))) (wr_ID ev)"
  using ledger.paid_withdrawal_burned [OF assms(2,1)] .

text \<open>The pallet keeps a refund under its own hash, which is the one that a daemon reports.\<close>

lemma paid_refund_recorded:
  assumes "chain E = C" and "reachable P (cw_pallet (world s))" and "handleRefundReady E bridge ctx ev s = Some (Ok (), t)"
  shows "contains_key (ExecutedRefundTransactions (cw_pallet (world t))) (rr_Hash ev)"
proof -
  from assms(1,3) obtain rr w1 w2 w w' where q: "IsRefundedAlready C (rr_Hash ev) (world s) = (Inr False, w1)"
    and g: "GetRefundTransaction C (rr_Hash ev) w1 = (Inr rr, w2)"
    and set: "RetrySetRefundTransactionExecutedTx C (runtime E) (br_identity bridge) ctx (refund_TxHash rr) w = Some (None, w')"
    and t: "world t = w'"
    by (auto simp: handleRefundReady_def bindM_Ok_iff worldM_Ok_iff worldL_Some_iff split: if_splits)
  from refund_read [OF g] obtain tx where tx: "map_of (RefundTransactions (cw_pallet w2)) (rr_Hash ev) = Some tx"
    "rr = refund_view tx" by blast
  have "pallet_steps P (cw_pallet (world s)) (cw_pallet w2)"
    using refunded_read [OF q] refund_read [OF g] steps_trans by (fastforce simp: chain_later_def)
  then have "rt_tx_hash tx = rr_Hash ev"
    using reachable_inv [OF reachable_steps [OF _ assms(2)]] tx(1) map_invariantD by (fastforce simp: pallet_inv_def refund_ok_def)
  moreover have "refunded_settled C (br_identity bridge) (refund_TxHash rr) w'"
    using set by (auto simp: RetrySetRefundTransactionExecutedTx_def intro: refunded_call.nil_settled)
  ultimately show ?thesis using ledger.refunded_settled_refunded t tx(2) by (fastforce simp: refund_view_def)
qed

text \<open>
  A payment is for the record that is open when it is read, and the phase of the withdrawal says what that is.
\<close>

lemma payment_of_record:
  assumes "chain E = C" and run: "handleWithdrawReady E bridge ctx ev u = Some (Ok (), v)"
    and r: "reachable P s" and steps: "pallet_steps P s (cw_pallet (world u))"
    and phase: "phase_of s (wr_ID ev) = Collecting n target sigs"
  shows "\<exists>tx w w'. chain_later P (world u) w \<and> map_of (BurnTransactions (cw_pallet w)) (wr_ID ev) = Some tx \<and>
    bt_signatures tx \<noteq> [] \<and>
    submitted_payment (stellar E) Inr (wallet u) target n (bt_signatures tx)
      (next_sequence (wal_sequenceNumber (wallet u)) (bt_sequence_number tx)) w w'"
proof -
  from assms(1) run obtain br w1 w w' where q: "IsBurnedAlready C (wr_ID ev) (world u) = (Inr False, w1)"
    and g: "GetBurnTransaction C (wr_ID ev) w1 = (Inr br, w)" and ne: "burn_Signatures br \<noteq> []"
    and paid: "CreatePaymentWithSignaturesAndSubmit (stellar E) (burn_Target br) (burn_Amount br) [] (burn_Signatures br)
      (burn_SequenceNumber br) (u\<lparr>world := w\<rparr>) = Some (Ok (), w')"
    by (auto simp: handleWithdrawReady_def bindM_Ok_iff worldM_Ok_iff split: if_splits)
  from burn_read [OF g] obtain tx where tx: "map_of (BurnTransactions (cw_pallet w)) (wr_ID ev) = Some tx" "br = burn_view tx"
    by blast
  have later: "pallet_steps P (cw_pallet (world u)) (cw_pallet w)"
    using burned_read [OF q] burn_read [OF g] steps_trans by (fastforce simp: chain_later_def)
  have "map_of (ExecutedBurnTransactions (cw_pallet w)) (wr_ID ev) = None"
    using reachable_inv [OF reachable_steps [OF steps_trans [OF later steps] r]] tx(1) disjoint_keysD by (fastforce simp: pallet_inv_def)
  then have "phase_of (cw_pallet w) (wr_ID ev) = Collecting (bt_amount tx) (bt_target tx) (bt_signatures tx)"
    using tx(1) by (simp add: phase_of_def)
  then have "bt_amount tx = n \<and> bt_target tx = target"
    using phase_steps [OF steps_trans [OF later steps] r phase] by simp
  with submit_steps [OF paid [unfolded withdraw_submit_as_steps]] tx ne later show ?thesis
    by (auto simp: burn_view_def chain_later_def)
qed

end

section \<open>Payments\<close>

text \<open>
  C2: No withdrawal is paid twice: after a daemon has reported one as paid, every daemon on the same chain
  refuses it, however many calls and blocks later: it asks the chain, and that is all it does; nothing is
  built, signed or submitted.
\<close>

theorem withdrawal_paid_once:
  assumes "pallet_service P (chain E)" and "handleWithdrawReady E bridge ctx ev s = Some (Ok (), t)"
    and "pallet_steps P (cw_pallet (world t)) (cw_pallet (world u))"
    and "pallet_service P (chain E')" and "handleWithdrawReady E' bridge' ctx' ev u = Some (r, v)"
  shows "v = u\<lparr>world := snd (IsBurnedAlready (chain E') (wr_ID ev) (world u))\<rparr> \<and>
    (r = Err ErrTransactionAlreadyBurned \<or>
     (\<exists>e. fst (IsBurnedAlready (chain E') (wr_ID ev) (world u)) = Inl e \<and> r = Err e))"
proof -
  have "contains_key (ExecutedBurnTransactions (cw_pallet (world u))) (wr_ID ev)"
    using pallet_service.paid_withdrawal_recorded [OF assms(1) refl assms(2)] steps_executed [OF assms(3)]
    by (auto simp: keeps_entries_def)
  from pallet_service.withdrawal_refused_after_payment [OF assms(4) refl this assms(5)] show ?thesis .
qed

theorem withdrawal_paid_once_witness:
  "\<exists>s t. handleWithdrawReady (shared_env 20) sample_bridge DaemonContext \<lparr>wr_ID = 1\<rparr> (shared_state s []) = Some (Ok (), t) \<and>
     handleWithdrawReady (shared_env 20) (sample_bridge\<lparr>br_identity := ''bob''\<rparr>) DaemonContext \<lparr>wr_ID = 1\<rparr>
       (t\<lparr>wallet := wallet sample_bob\<rparr>) = Some (Err ErrTransactionAlreadyBurned, t\<lparr>wallet := wallet sample_bob\<rparr>)"
proof -
  let ?ev = "\<lparr>wr_ID = 1\<rparr>" and ?bob = "sample_bridge\<lparr>br_identity := ''bob''\<rparr>"
  obtain s t where t: "handleWithdrawReady (shared_env 20) sample_bridge DaemonContext ?ev (shared_state s []) = Some (Ok (), t)"
    using shared_payment by blast
  let ?u = "t\<lparr>wallet := wallet sample_bob\<rparr>"
  have "contains_key (ExecutedBurnTransactions (cw_pallet (world t))) (wr_ID ?ev)"
    using pallet_service.paid_withdrawal_recorded [OF shared_services(1) refl t] .
  then obtain r v where run: "handleWithdrawReady (shared_env 20) ?bob DaemonContext ?ev ?u = Some (r, v)"
    by (auto simp: handleWithdrawReady_def worldM_eq bindM_def)
  have "pallet_steps (shared_config 20) (cw_pallet (world t)) (cw_pallet (world ?u))" by (simp add: steps_refl)
  from withdrawal_paid_once [OF shared_services(1) t this shared_services(1) run] t run show ?thesis by auto
qed

text \<open>
  C7: No refund is paid twice either, although the pallet lets an executed one be opened again: after a
  daemon has reported one as paid, every daemon on the same chain refuses it, and nothing is submitted.
\<close>

theorem refund_paid_once:
  assumes "pallet_service P (chain E)" and "reachable P (cw_pallet (world s))"
    and "handleRefundReady E bridge ctx ev s = Some (Ok (), t)"
    and "pallet_steps P (cw_pallet (world t)) (cw_pallet (world u))"
    and "pallet_service P (chain E')" and "handleRefundReady E' bridge' ctx' ev u = Some (r, v)"
  shows "v = u\<lparr>world := snd (IsRefundedAlready (chain E') (rr_Hash ev) (world u))\<rparr> \<and>
    (r = Err ErrTransactionAlreadyRefunded \<or>
     (\<exists>e. fst (IsRefundedAlready (chain E') (rr_Hash ev) (world u)) = Inl e \<and> r = Err e))"
proof -
  have "contains_key (ExecutedRefundTransactions (cw_pallet (world u))) (rr_Hash ev)"
    using pallet_service.paid_refund_recorded [OF assms(1) refl assms(2,3)] steps_executed [OF assms(4)]
    by (auto simp: keeps_entries_def)
  from pallet_service.refund_refused_after_payment [OF assms(5) refl this assms(6)] show ?thesis .
qed

theorem refund_paid_once_witness:
  "\<exists>s t. handleRefundReady (shared_env 20) sample_bridge DaemonContext \<lparr>rr_Hash = ''00ff''\<rparr> (shared_state s []) = Some (Ok (), t) \<and>
     handleRefundReady (shared_env 20) (sample_bridge\<lparr>br_identity := ''bob''\<rparr>) DaemonContext \<lparr>rr_Hash = ''00ff''\<rparr>
       (t\<lparr>wallet := wallet sample_bob\<rparr>) = Some (Err ErrTransactionAlreadyRefunded, t\<lparr>wallet := wallet sample_bob\<rparr>)"
proof -
  let ?ev = "\<lparr>rr_Hash = ''00ff''\<rparr>" and ?bob = "sample_bridge\<lparr>br_identity := ''bob''\<rparr>"
  obtain s where "reachable (shared_config 20) s" "RefundTransactions s = [(''00ff'', shared_signed_refund)]"
    "Validators s = [''alice'', ''bob'', ''carol'']" "ExecutedRefundTransactions s = []"
    using shared_refund by blast
  then obtain t where s: "reachable (shared_config 20) (cw_pallet (world (shared_state s [])))"
    and t: "handleRefundReady (shared_env 20) sample_bridge DaemonContext ?ev (shared_state s []) = Some (Ok (), t)"
    using shared_refund_paid by fastforce
  let ?u = "t\<lparr>wallet := wallet sample_bob\<rparr>"
  have "contains_key (ExecutedRefundTransactions (cw_pallet (world t))) (rr_Hash ?ev)"
    using pallet_service.paid_refund_recorded [OF shared_services(1) refl s t] .
  then obtain r v where run: "handleRefundReady (shared_env 20) ?bob DaemonContext ?ev ?u = Some (r, v)"
    by (auto simp: handleRefundReady_def worldM_eq bindM_def)
  have "pallet_steps (shared_config 20) (cw_pallet (world t)) (cw_pallet (world ?u))" by (simp add: steps_refl)
  from refund_paid_once [OF shared_services(1) s t this shared_services(1) run] t run show ?thesis by auto
qed

section \<open>What a withdrawal pays\<close>

lemma swap_opens:
  assumes "pallet_inv s" and "BurnTransactionID s < - 1"
    and "dispatch P (Signed who) (swap_to_stellar target n) s = Inr t"
  shows "phase_of t (BurnTransactionID s + 1) = Collecting (n - WithdrawFee s) target []"
  using fresh_burn_id [OF assms(1,2)] assms(3) by (auto simp: phase_of_def burn_tft_Inr)

text \<open>
  C1: A withdrawal pays what was burned for it: when a user gave up an amount on the chain for a Stellar
  account, a daemon that later handles the ready event submits the payment of exactly that amount, less
  the withdraw fee of that time, to exactly that account, with the signatures the chain collected,
  whatever calls, expiries, fee changes and blocks came between.
\<close>

theorem withdrawal_pays_what_was_burned:
  assumes "reachable P s" and "BurnTransactionID s < - 1"
    and "dispatch P (Signed who) (swap_to_stellar target n) s = Inr t"
    and "pallet_steps P t (cw_pallet (world u))"
    and "pallet_service P (chain E)"
    and "handleWithdrawReady E bridge ctx \<lparr>wr_ID = BurnTransactionID s + 1\<rparr> u = Some (Ok (), v)"
  shows "WithdrawFee s < n \<and>
    (\<exists>tx w w'. chain_later P (world u) w \<and>
      map_of (BurnTransactions (cw_pallet w)) (BurnTransactionID s + 1) = Some tx \<and> bt_signatures tx \<noteq> [] \<and>
      submitted_payment (stellar E) Inr (wallet u) target (n - WithdrawFee s) (bt_signatures tx)
        (next_sequence (wal_sequenceNumber (wallet u)) (bt_sequence_number tx)) w w')"
proof -
  have t: "reachable P t" using reach_step [OF assms(1) step_call [OF assms(3,2)]] .
  have "phase_of t (wr_ID \<lparr>wr_ID = BurnTransactionID s + 1\<rparr>) = Collecting (n - WithdrawFee s) target []"
    using swap_opens [OF reachable_inv [OF assms(1)] assms(2,3)] by simp
  from pallet_service.payment_of_record [OF assms(5) refl assms(6) t assms(4) this] assms(3) show ?thesis
    by (auto simp: burn_tft_def split: if_splits)
qed

theorem withdrawal_pays_what_was_burned_witness:
  "\<exists>s t v (tx :: BurnTx) (w :: shared) w'. dispatch (shared_config 20) (Signed ''dave'') (swap_to_stellar ''GUSER'' 60000000) shared_pallet = Inr s \<and>
     pallet_steps (shared_config 20) s t \<and>
     handleWithdrawReady (shared_env 20) sample_bridge DaemonContext \<lparr>wr_ID = 1\<rparr> (shared_state t []) = Some (Ok (), v) \<and>
     submitted_payment (rest_stellar sample_stellar) Inr sample_wallet ''GUSER'' 50000000 (bt_signatures tx)
       (next_sequence 41 (bt_sequence_number tx)) w w'"
proof -
  obtain s t v where s: "dispatch (shared_config 20) (Signed ''dave'') (swap_to_stellar ''GUSER'' 60000000) shared_pallet = Inr s"
    and steps: "pallet_steps (shared_config 20) s t"
    and v: "handleWithdrawReady (shared_env 20) sample_bridge DaemonContext \<lparr>wr_ID = 1\<rparr> (shared_state t []) = Some (Ok (), v)"
    using shared_payment by blast
  have steps': "pallet_steps (shared_config 20) s (cw_pallet (world (shared_state t [])))" using steps by simp
  have id: "BurnTransactionID shared_pallet < - 1" by simp
  have v': "handleWithdrawReady (shared_env 20) sample_bridge DaemonContext \<lparr>wr_ID = BurnTransactionID shared_pallet + 1\<rparr>
      (shared_state t []) = Some (Ok (), v)" using v by simp
  from withdrawal_pays_what_was_burned [OF shared_reachable id s steps' shared_services(1) v']
  obtain tx :: BurnTx and w w' :: shared where "submitted_payment (rest_stellar sample_stellar) Inr sample_wallet ''GUSER'' 50000000
      (bt_signatures tx) (next_sequence 41 (bt_sequence_number tx)) w w'"
    by (auto simp: sample_fields)
  with s steps v show ?thesis by blast
qed

section \<open>A majority of daemons\<close>

text \<open>The file operations of a daemon leave the pallet alone.\<close>

definition files_apart :: "('b, 'r) chain_world go_runtime \<Rightarrow> bool" where
  "files_apart R \<longleftrightarrow>
     (\<forall>w. cw_pallet (snd (read_fault R w)) = cw_pallet w \<and> cw_pallet (snd (write_fault R w)) = cw_pallet w)"

text \<open>The memo names an account, and looking it up leaves the pallet alone.\<close>

definition memo_resolves ::
    "(('b, 'r) chain_world, 'tx, 'kp, AccountID) env \<Rightarrow> string \<Rightarrow> AccountID \<Rightarrow> bool" where
  "memo_resolves E memo account \<longleftrightarrow>
     (\<forall>u :: (('b, 'r) chain_world, 'kp) state. \<exists>address v. getSubstrateAddressFromMemo E memo u = Some (Ok address, v) \<and>
        FromAddress (chain E) address = Inr account \<and> cw_pallet (world v) = cw_pallet (world u))"

lemma save_leaves_pallet:
  assumes "files_apart R"
  shows "\<exists>r t. SaveStellarCursor R c u = Some (r, t) \<and> cw_pallet (world t) = cw_pallet (world u)"
proof -
  have files: "read_fault R w = (e, w') \<Longrightarrow> cw_pallet w' = cw_pallet w"
    "write_fault R w = (f, w') \<Longrightarrow> cw_pallet w' = cw_pallet w" for w w' e f
    using assms unfolding files_apart_def by (metis snd_conv)+
  have "keeps (\<lambda>s. cw_pallet (world s)) (SaveStellarCursor R c)"
    by (auto simp: keeps_def SaveStellarCursor_def bindM_Some_iff GetHeight_eq Save_def os_WriteFile_def worldP_def prog_defs
        split: prod.splits option.splits sum.splits dest!: files)
  moreover obtain r t where "SaveStellarCursor R c u = Some (r, t)"
    using persistency_returns(4) by (rule returnsE)
  ultimately show ?thesis using keepsD by fastforce
qed

text \<open>A daemon whose vote the pallet accepts has voted, whatever becomes of its cursor file.\<close>

lemma mint_votes:
  assumes E: "voting_service P (chain E)" and "files_apart (runtime E)" and "memo_resolves E (Memo tx) account"
    and "mint_allowed bridge [(a, n)] tx n"
    and vote: "dispatch P (Signed (br_identity bridge)) (propose_or_vote_mint_transaction (Hash tx) account (of_int n))
      (cw_pallet (world s)) = Inr p"
  shows "\<exists>r t. mint E bridge ctx [(a, n)] tx s = Some (r, t) \<and> cw_pallet (world t) = p"
proof -
  have fresh: "\<not> contains_key (ExecutedMintTransactions (cw_pallet (world s))) (Hash tx)"
    using vote by (auto simp: propose_or_vote_stellar_mint_transaction_def split: if_splits)
  obtain w where w: "IsMintedAlready (chain E) (Hash tx) (world s) = ((False, Some ErrMintTransactionNotFound), w)"
      "cw_pallet w = cw_pallet (world s)"
    using voting_service.minted_read [OF E, of "Hash tx" "world s"] fresh by auto
  then have first: "mint E bridge ctx [(a, n)] tx s = mint_single E bridge ctx a n tx (s\<lparr>world := w\<rparr>)"
    by (simp add: mint_def minted_already_def bindM_def worldP_def returnM_def)
  obtain address v where v: "getSubstrateAddressFromMemo E (Memo tx) (s\<lparr>world := w\<rparr>) = Some (Ok address, v)"
      "FromAddress (chain E) address = Inr account" "cw_pallet (world v) = cw_pallet w"
    using assms(3) unfolding memo_resolves_def by fastforce
  have "dispatch P (Signed (br_identity bridge)) (propose_or_vote_mint_transaction (Hash tx) account (of_int n))
      (cw_pallet (world v)) = Inr p" using vote v(3) w(2) by simp
  from voting_service.vote_included [OF E this] obtain x where
    x: "ProposeOrVoteMintTransaction (chain E) (br_identity bridge) (Hash tx) account n (world v) = (None, x)" "cw_pallet x = p"
    by blast
  then have "RetryProposeMintOrVote (chain E) (runtime E) (br_identity bridge) ctx (Hash tx) account n (world v) = Some (None, x)"
    by (simp add: RetryProposeMintOrVote_def retry_def)
  moreover obtain r t where "SaveStellarCursor (runtime E) (PagingToken tx) (v\<lparr>world := x\<rparr>) = Some (r, t)"
      "cw_pallet (world t) = p"
    using save_leaves_pallet [OF assms(2), of "PagingToken tx" "v\<lparr>world := x\<rparr>"] x(2) by auto
  ultimately show ?thesis
    using assms(4) v by (simp add: first mint_single_def mint_allowed_def tryM_def bindM_def worldL_def)
qed

text \<open>Some daemons handle the same deposit one after the other, each with its own bridge, wallet and file.\<close>

fun daemons_mint ::
    "('w, 'tx, 'kp, 'id) env \<Rightarrow> go_context \<Rightarrow> senders \<Rightarrow> hz_transaction
      \<Rightarrow> ('id Bridge \<times> 'kp StellarWallet \<times> bytes option) list \<Rightarrow> 'w \<Rightarrow> 'w option" where
  "daemons_mint E ctx senders tx [] w = Some w"
| "daemons_mint E ctx senders tx ((bridge, wal, f) # ds) w =
     (case mint E bridge ctx senders tx \<lparr>wallet = wal, disk = f, world = w\<rparr> of
        None \<Rightarrow> None
      | Some (_, t) \<Rightarrow> daemons_mint E ctx senders tx ds (world t))"

lemma daemons_vote:
  assumes "voting_service P (chain E)" and "files_apart (runtime E)" and "memo_resolves E (Memo tx) account"
    and "\<forall>(bridge, _)\<in>set ds. mint_allowed bridge [(a, n)] tx n"
    and "run_calls P (vote_calls (Hash tx) (map (\<lambda>(bridge, _). (br_identity bridge, account, of_int n)) ds)) (cw_pallet w) = Inr p"
  shows "\<exists>w'. daemons_mint E ctx [(a, n)] tx ds w = Some w' \<and> cw_pallet w' = p"
  using assms(4,5)
proof (induction ds arbitrary: w)
  case Nil
  then show ?case by (simp add: vote_calls_def)
next
  case (Cons d ds)
  obtain bridge wal f where d: "d = (bridge, wal, f)" by (cases d)
  let ?s = "\<lparr>wallet = wal, disk = f, world = w\<rparr>"
  from Cons.prems obtain q where
    q: "dispatch P (Signed (br_identity bridge)) (propose_or_vote_mint_transaction (Hash tx) account (of_int n))
      (cw_pallet (world ?s)) = Inr q"
    and rest: "run_calls P (vote_calls (Hash tx) (map (\<lambda>(bridge, _). (br_identity bridge, account, of_int n)) ds)) q = Inr p"
    by (auto simp: d vote_calls_def simp del: dispatch.simps split: sum.splits)
  have "mint_allowed bridge [(a, n)] tx n" using Cons.prems(1) d by simp
  from mint_votes [OF assms(1-3) this q] obtain r t where
    "mint E bridge ctx [(a, n)] tx ?s = Some (r, t)" "cw_pallet (world t) = q" by blast
  with Cons.IH [of "world t"] Cons.prems(1) rest d show ?case by simp
qed

text \<open>
  C4: The bridge mints: when daemons of validators, as many as a majority, handle the same deposit one after
  the other on a chain that includes their votes, a deposit whose memo names an account and which is above the fee, then the deposit is
  minted when the last of them has voted: once, the whole amount less the deposit fee to that account,
  and the fee to the fee account, whatever happens to the daemons' cursor files.
\<close>

theorem majority_of_daemons_mints:
  assumes "voting_service P (chain E)" and "files_apart (runtime E)" and "memo_resolves E (Memo tx) account"
    and "\<forall>(bridge, _)\<in>set ds. mint_allowed bridge [(a, n)] tx n \<and> br_identity bridge \<in> set (Validators (cw_pallet w))"
    and "length ds = quorum (cw_pallet w)" and "quorum (cw_pallet w) < 2 ^ 32"
    and "reachable P (cw_pallet w)" and "DepositFee (cw_pallet w) < of_int n"
    and "map_of (MintTransactions (cw_pallet w)) (Hash tx) = None"
    and "map_of (ExecutedMintTransactions (cw_pallet w)) (Hash tx) = None"
  shows "\<exists>w'. daemons_mint E ctx [(a, n)] tx ds w = Some w' \<and>
    minted_as P (cw_pallet w) (Hash tx) account (of_int n) (cw_pallet w')"
proof -
  let ?votes = "map (\<lambda>(bridge, _). (br_identity bridge, account, of_int n)) ds :: (AccountID \<times> AccountID \<times> uint64) list"
  obtain d ds' where "ds = d # ds'" using assms(5) by (cases ds) (auto simp: quorum_def)
  then have hd: "hd ?votes = (br_identity (fst d), account, of_int n)" by (simp split: prod.splits)
  have "\<forall>(v, a, n)\<in>set ?votes. v \<in> set (Validators (cw_pallet w))" using assms(4) by auto
  from run_quorum [OF reachable_inv [OF assms(7)] assms(9,10) _ assms(6) this hd assms(8), of P] assms(5)
  obtain p where p: "run_calls P (vote_calls (Hash tx) ?votes) (cw_pallet w) = Inr p"
    and m: "minted_as P (cw_pallet w) (Hash tx) account (of_int n) p" by auto
  have "\<forall>(bridge, _)\<in>set ds. mint_allowed bridge [(a, n)] tx n" using assms(4) by auto
  from daemons_vote [OF assms(1-3) this p] m show ?thesis by blast
qed

text \<open>Alice's and bob's daemons and a deposit of 5 TFT for twin 1, which is dave's.\<close>

definition shared_deposit :: hz_transaction where
  "shared_deposit = \<lparr>Hash = ''00ff'', Successful = True, Memo = ''twin_1'', MemoType = ''text'', PagingToken = ''77''\<rparr>"

lemma shared_memo: "memo_resolves (shared_env 20) (Memo shared_deposit) ''dave''"
proof -
  have "split_on (CHR ''_'') ''twin_1'' = [''twin'', ''1'']" and "Atoi ''1'' = Inr 1" by code_simp+
  then show ?thesis
    by (simp add: memo_resolves_def shared_deposit_def getSubstrateAddressFromMemo_def twin_address_def worldM_eq bindM_def
        pallet_chain_def rest_chain_def on_rest_def sample_chain_fields sample_twin_def)
qed

theorem majority_of_daemons_mints_witness:
  "\<exists>w'. daemons_mint (shared_env 20) DaemonContext [(''GUSER'', 50000000)] shared_deposit
       [(sample_bridge, sample_wallet, None), (sample_bridge\<lparr>br_identity := ''bob''\<rparr>, sample_wallet, Some ''broken'')]
       (world (shared_state shared_pallet [])) = Some w' \<and>
     Balances (cw_pallet w') = (\<lambda>_. 100000000)(''dave'' := 140000000, ''fees'' := 110000000)"
proof -
  let ?ds = "[(sample_bridge, sample_wallet, None), (sample_bridge\<lparr>br_identity := ''bob''\<rparr>, sample_wallet, Some ''broken'')]"
  let ?w = "world (shared_state shared_pallet [])"
  have apart: "files_apart (runtime (shared_env 20))"
    by (simp add: files_apart_def rest_runtime_def on_rest_def sample_runtime_def)
  have ds: "\<forall>(bridge, _)\<in>set ?ds. mint_allowed bridge [(''GUSER'', 50000000)] shared_deposit 50000000 \<and>
      br_identity bridge \<in> set (Validators (cw_pallet ?w))"
    by (simp add: mint_allowed_def shared_deposit_def sample_bridge_def)
  have r: "reachable (shared_config 20) (cw_pallet ?w)" by (simp add: shared_reachable)
  have "\<exists>w'. daemons_mint (shared_env 20) DaemonContext [(''GUSER'', 50000000)] shared_deposit ?ds ?w = Some w' \<and>
      minted_as (shared_config 20) (cw_pallet ?w) (Hash shared_deposit) ''dave'' (of_int 50000000) (cw_pallet w')"
    by (rule majority_of_daemons_mints [OF shared_services(2) apart shared_memo ds _ _ r]) simp_all
  then show ?thesis by (auto simp: minted_as_def fee_paid_def)
qed

end
