(* ===== verification/Spec2Isabelle.thy ===== *)
theory Spec2Isabelle
  imports DaemonMain BridgeTools BridgeChain
begin

text \<open>
  A verification of the TFT bridge between Stellar and TF Chain: the Go daemon under
  \<open>src/tfchain_bridge\<close> that every validator of the bridge runs, and the runtime module of the chain under
  \<open>src/pallet-tft-bridge\<close> (Rust) on which the daemons agree.

  \<^bold>\<open>The program.\<close> A deposit is a payment of TFT to the bridge's Stellar account, with a memo that names
  a twin, a farm, a node or an entity. The daemon follows the account's transactions
  (\<open>pkg/stellar/stellar.go\<close>), turns each into mint events, and for each event votes on the chain for
  minting the deposit or signs its refund (\<open>pkg/bridge/mint.go\<close>, \<open>refund.go\<close>). A withdrawal is an event
  of the chain: the daemon signs the payment to its target, or gives the tokens back on the chain when
  the target has no trustline (\<open>pkg/bridge/withdraw.go\<close>). When the chain has collected the signatures of
  a payment it emits a ready event, and a daemon submits the payment to Stellar and reports it executed.
  Every extrinsic goes through a retry loop (\<open>pkg/substrate/client.go\<close>); the events of the chain come
  from its finalized blocks (\<open>pkg/substrate/events.go\<close>). The cursor into the Stellar history is kept in
  a JSON file (\<open>pkg/persistency.go\<close>). \<open>pkg/bridge/bridge.go\<close> starts it all and runs the loop that takes
  messages from the two subscriptions; \<open>main.go\<close> is the process. The pallet (\<open>src/lib.rs\<close>) counts the votes
  for a mint and mints at a majority, burns what a user withdraws, collects the signatures of withdrawals
  and refunds and emits the ready event at a majority, lets open ones expire at the end of a block so
  that they are signed anew, and records what is executed.

  \<^bold>\<open>The model.\<close> A Go function is a program \<open>'s \<Rightarrow> ('a outcome \<times> 's) option\<close> (theory \<open>BridgePrelude\<close>): \<open>Ok\<close> or
  \<open>Err\<close> for the two ways a Go function returns, \<open>Crash\<close> for a panic or \<open>log.Fatal\<close>, and no answer for a
  call that never returns. The state of the daemon (theory \<open>BridgeEnv\<close>) is the wallet, of which only the
  sequence number changes, the contents of the persistency file, and the outside world, a type
  parameter. Whatever is called outside this repository is a field of a record of parameters: the
  client library of the chain (\<open>chain_api\<close>), Horizon with \<open>txnbuild\<close> and \<open>keypair\<close> (\<open>stellar_api\<close>), and
  the choices of the Go runtime and the operating system (\<open>go_runtime\<close>: which arm of a \<open>select\<close> is
  taken, where the iteration of a map starts, whether a file operation fails). Nothing is assumed of
  them in the definitions; a theorem that needs a documented behaviour of theirs names it
  (\<open>txnbuild_laws\<close>, \<open>horizon_names_accounts\<close>, \<open>pages_of\<close>, \<open>reliable_disk\<close>). Machine integers are words
  of Go's width, so every conversion wraps as it does in Go; strings are lists of bytes.

  \<^bold>\<open>The theories.\<close>
  \<^item> \<open>BridgePrelude\<close>: programs, and a calculus of what they keep, preserve, when they return and when they
    cannot crash, with a rule for each combinator.
  \<^item> \<open>BridgeEnv\<close>: configuration (\<open>pkg/config.go\<close>), the event types, the parameters, the daemon's state.
  \<^item> \<open>GoStrings\<close>, \<open>GoCodec\<close>, \<open>GoFloat\<close>, \<open>GoJson\<close>: the standard library functions that the code uses
    (\<open>strings.Split\<close>, \<open>strconv\<close>, \<open>hex\<close>, \<open>base64\<close>, \<open>big.Rat\<close>, \<open>encoding/json\<close>), with their laws.
  \<^item> \<open>Persistency\<close>: \<open>pkg/persistency.go\<close>; the interface \<open>cursor_store\<close> that the handlers rely on.
  \<^item> \<open>SubstrateClient\<close>: \<open>pkg/substrate\<close>; the interfaces \<open>retried_call\<close> and \<open>uncancelled_call\<close>, interpreted
    for each of the five retried extrinsics. \<open>accepted_from\<close> and \<open>found_from\<close> are the two good ends of
    a retry loop, tied to the world in which it began: an attempt accepted, or the call found done.
  \<^item> \<open>StellarWallet\<close> and \<open>StellarStream\<close>: the two halves of \<open>pkg/stellar/stellar.go\<close>. The streaming
    goroutine is a state machine (\<open>stream_next\<close> is a move by itself, \<open>stream_receive\<close> the hand-over).
  \<^item> \<open>BridgeRefund\<close>, \<open>BridgeMint\<close>, \<open>BridgeWithdraw\<close>: the handlers, one theory per file of \<open>pkg/bridge\<close>.
  \<^item> \<open>BridgeMain\<close>: start-up and main loop; the interface \<open>event_loop\<close>; the daemon, its goroutine, the
    chain's messages and the outside world together as the step relation \<open>bridge_run\<close>. It carries the
    history of the run: for each transaction that the goroutine handed over, the state in which it was read,
    the message, and the states of the daemon before and after the loop handled it (\<open>delivery\<close>). The
    guarantees speak of this history, and so of what was done in the run: every event of every delivery was
    gone past, in order, and the file's cursor stays behind whatever was not. The theory also says
    which messages a stopped daemon still gets through and which hold it up.
  \<^item> \<open>DaemonMain\<close>: \<open>main.go\<close>. \<open>BridgeTools\<close>: the key generator and the event parser.
  \<^item> \<open>SampleWorld\<close>, \<open>SampleChain\<close>: a small executable network and chain, on which the theorems'
    hypotheses are shown to hold together.

  \<^bold>\<open>The pallet.\<close> Its storage is a record, a storage map an association list, a call a function into
  \<open>pallet_error + pallet\<close>; a failed call leaves no trace, as FRAME rolls it back. The currency of the
  runtime, the origin of the restricted calls, the retry interval and the decoding of Stellar keys are a
  record of parameters (\<open>pallet_config\<close>).
  \<^item> \<open>PalletSearch\<close>: the binary search of Rust's slices, correct on sorted lists.
  \<^item> \<open>PalletBridge\<close>, \<open>PalletCalls\<close>: the storage, the internal functions, the calls with their origin
    checks, the hook at the end of a block, the genesis; the chain as the step relation \<open>pallet_step\<close>.
    The counters of blocks and of withdrawals are 64 bits wide and do not come to their end.
  \<^item> \<open>PalletInvariant\<close>: \<open>pallet_inv\<close> (validators sorted and distinct, signatures of distinct keys, no
    withdrawal or mint both open and executed, ids handed out in order), kept by every step.
  \<^item> \<open>PalletSafety\<close>: what is executed is final, what a mint pays, a majority of votes mints, and the
    refinement of the storage to the state machine \<open>phase_step\<close> of one withdrawal.
  \<^item> \<open>PalletEvents\<close>: what a ready event promises, what expires and how it is signed anew, paid already or not,
    the validators as a set.
  \<^item> \<open>PalletChain\<close>: what the handlers rely on of the chain's client library, as contracts over the pallet. The
    library stays a parameter: \<open>pallet_service\<close> says that its answers are read from the pallet's storage and
    that its reports are included among the calls of others, \<open>voting_service\<close> that an undisturbed chain
    includes a vote, and \<open>executed_ledger\<close> is what follows for payments. \<open>pallet_chain\<close> fulfils them.
  \<^item> \<open>BridgeChain\<close>: daemons and pallet together. A reported payment is never made again and pays what was
    burned for it, and a majority of daemons that handle a deposit mint it. \<open>PalletSample\<close> and \<open>SharedWorld\<close> are the concrete chains of the
    witnesses.

  \<^bold>\<open>Loops.\<close> The retry loop may never end, so it is a \<open>partial_function\<close> whose value is then \<open>None\<close>; \<open>retry_upto\<close> is
  the same loop with a bound on its rounds, and equals it whenever it answers. A loop returns when its
  call is accepted or found done, or at the first \<open>select\<close> after its context is cancelled; so every handler
  of a stopped daemon returns (\<open>stopped_daemon_returns\<close>), except that the refunds of \<open>mint\<close> run with the background
  context and a refund that the chain goes on refusing never returns (\<open>refused_refund_is_not_stopped\<close>). All other
  loops are structural. The main loop runs on the list of messages that arrive, of any length.

  \<^bold>\<open>Not modelled.\<close> Logging; the Helm chart and the container image; the 15 second time-out that
  \<open>main\<close> creates, which no called function uses; the \<open>log.Fatal\<close> of the two goroutines started by \<open>Start\<close>
  (a stopped goroutine is a state of \<open>stream\<close>, and what then becomes of the process is a race with the
  main loop); of the pallet, its weights, the encoding of its storage and the other pallets of the runtime. Three small
  simplifications: FRAME drops the events of block 0, the model's \<open>EventLog\<close> keeps them; the counter of
  withdrawals is taken to be below its maximum when \<open>pallet_step\<close> runs a call; and the variable \<open>err\<close> of \<open>Start\<close>,
  which one of its goroutines shares and overwrites just before its \<open>log.Fatal\<close>, is nil throughout the loop.
  Two daemons that submit the same payment at the same moment are told apart by Stellar, which takes a
  sequence number once; that is outside this repository, and \<open>BridgeChain\<close> speaks of payments after one
  was reported.
\<close>

end
